theory Spec2Isabelle
  imports Main "HOL-Library.Word"
begin

section \<open>Values shared by the whole tool\<close>

text \<open>
  \<^verbatim>\<open>primitive.Timestamp\<close> is a pair of unsigned 32-bit integers (seconds, ordinal).
\<close>

datatype Timestamp = Timestamp (T: "32 word") (I: "32 word")

text \<open>
  A \<^verbatim>\<open>bson.D\<close> is an ordered list of key/value elements. Only the keys are inspected by
  the code below; values are carried along unchanged.
\<close>

datatype bson_val = BString string | BInt int | BDoc "(string \<times> bson_val) list"

type_synonym bson_D = "(string \<times> bson_val) list"

text \<open>
  The scheduling policies of the intent manager (\<^verbatim>\<open>intents.Legacy\<close>,
  \<^verbatim>\<open>intents.LongestTaskFirst\<close>).
\<close>

datatype priority = Legacy | LongestTaskFirst

text \<open>
  Go errors. \<^verbatim>\<open>fmt.Errorf\<close> builds an error from a format string and its arguments,
  \<^verbatim>\<open>errors.Wrapf\<close> from a cause, a format string and its arguments; the arguments stay
  structured here instead of being rendered to text.
  \<open>ErrNotExist\<close> is \<^verbatim>\<open>os.ErrNotExist\<close>, \<open>ErrTerminated\<close> is \<^verbatim>\<open>util.ErrTerminated\<close>,
  \<open>PathError\<close> is \<^verbatim>\<open>*fs.PathError\<close> (operation, path, cause), and \<open>Opaque\<close> is any other
  error value handed back by a collaborator.
\<close>

datatype error =
    Errorf string "fmtarg list"
  | ErrNotExist
  | ErrTerminated
  | Wrapf error string "fmtarg list"
  | PathError string string error
  | Opaque string
and fmtarg =
    AStr string
  | AInt int
  | ABool bool
  | AErr error
  | ATimestamp Timestamp
  | AQuery bson_D
  | APolicy priority

section \<open>Options\<close>

record Namespace =
  DB :: string
  Collection :: string

record ToolOptions =
  Namespace :: Namespace
  VersionStr :: string

record InputOptions =
  Query :: string
  QueryFile :: string
  TableScan :: bool
  SourceWritesDoneBarrier :: string

record OutputOptions =
  Out :: string
  Gzip :: bool
  Oplog :: bool
  DumpDBUsersAndRoles :: bool
  ExcludedCollections :: "string list"
  ExcludedCollectionPrefixes :: "string list"
  NumParallelCollections :: int
  Archive :: string
  ViewsAsCollections :: bool

text \<open>
  The fields of \<^verbatim>\<open>MongoDump\<close> that the modelled methods read or write.
  \<open>ProgressManager\<close> says whether the progress manager is set (non-nil). The session
  provider, the intent manager, the archive writer and the shutdown notifier are
  collaborators; their answers are supplied separately.
\<close>

record MongoDump =
  ToolOptions :: ToolOptions
  InputOptions :: InputOptions
  OutputOptions :: OutputOptions
  SkipUsersAndRoles :: bool
  query :: bson_D
  oplogStart :: Timestamp
  oplogEnd :: Timestamp
  isMongos :: bool
  isAtlasProxy :: bool
  serverVersion :: string
  authVersion :: int
  ProgressManager :: bool

definition HasPrefix :: "string \<Rightarrow> string \<Rightarrow> bool" where
  \<comment> \<open>\<^verbatim>\<open>strings.HasPrefix(s, prefix)\<close>\<close>
  "HasPrefix s p = (length p \<le> length s \<and> take (length p) s = p)"

definition ns_DB :: "MongoDump \<Rightarrow> string" where
  "ns_DB dump = DB (Namespace (ToolOptions dump))"

definition ns_Collection :: "MongoDump \<Rightarrow> string" where
  "ns_Collection dump = Collection (Namespace (ToolOptions dump))"

subsection \<open>ValidateOptions\<close>

text \<open>
  The \<^verbatim>\<open>switch\<close> takes the first case whose condition holds; every case returns an
  error, and falling through all of them returns \<^verbatim>\<open>nil\<close>.
\<close>

definition ValidateOptions :: "MongoDump \<Rightarrow> error option" where
  "ValidateOptions dump =
    (let oo = OutputOptions dump; io = InputOptions dump in
     if Out oo = ''-'' \<and> ns_Collection dump = '''' then
       Some (Errorf ''can only dump a single collection to stdout'' [])
     else if ns_DB dump = '''' \<and> ns_Collection dump \<noteq> '''' then
       Some (Errorf ''cannot dump a collection without a specified database'' [])
     else if Query io \<noteq> '''' \<and> ns_Collection dump = '''' then
       Some (Errorf ''cannot dump using a query without a specified collection'' [])
     else if QueryFile io \<noteq> '''' \<and> ns_Collection dump = '''' then
       Some (Errorf ''cannot dump using a queryFile without a specified collection'' [])
     else if Query io \<noteq> '''' \<and> QueryFile io \<noteq> '''' then
       Some (Errorf ''either query or queryFile can be specified as a query option, not both'' [])
     else if Query io \<noteq> '''' \<and> TableScan io then
       Some (Errorf ''cannot use --forceTableScan when specifying --query'' [])
     else if DumpDBUsersAndRoles oo \<and> ns_DB dump = '''' then
       Some (Errorf ''must specify a database when running with dumpDbUsersAndRoles'' [])
     else if DumpDBUsersAndRoles oo \<and> ns_Collection dump \<noteq> '''' then
       Some (Errorf ''cannot specify a collection when running with dumpDbUsersAndRoles'' [])
     else if HasPrefix (ns_Collection dump) ''system.buckets.'' then
       Some (Errorf (''cannot specify a system.buckets collection in --collection. '' @
                     ''Specifying the timeseries collection will dump the system.buckets collection'') [])
     else if Oplog oo \<and> ns_DB dump \<noteq> '''' then
       Some (Errorf ''--oplog mode only supported on full dumps'' [])
     else if length (ExcludedCollections oo) > 0 \<and> ns_Collection dump \<noteq> '''' then
       Some (Errorf ''--collection is not allowed when --excludeCollection is specified'' [])
     else if length (ExcludedCollectionPrefixes oo) > 0 \<and> ns_Collection dump \<noteq> '''' then
       Some (Errorf ''--collection is not allowed when --excludeCollectionsWithPrefix is specified'' [])
     else if length (ExcludedCollections oo) > 0 \<and> ns_DB dump = '''' then
       Some (Errorf ''--db is required when --excludeCollection is specified'' [])
     else if length (ExcludedCollectionPrefixes oo) > 0 \<and> ns_DB dump = '''' then
       Some (Errorf ''--db is required when --excludeCollectionsWithPrefix is specified'' [])
     else if Out oo \<noteq> '''' \<and> Archive oo \<noteq> '''' then
       Some (Errorf ''--out not allowed when --archive is specified'' [])
     else if Out oo = ''-'' \<and> Gzip oo then
       Some (Errorf ''compression can't be used when dumping a single collection to standard output'' [])
     else if NumParallelCollections oo \<le> 0 then
       Some (Errorf ''numParallelCollections must be positive'' [])
     else if isAtlasProxy dump \<and> (DumpDBUsersAndRoles oo \<or> ns_DB dump = ''admin'') then
       Some (Errorf ''can't dump from admin database when connecting to a MongoDB Atlas free or shared cluster'' [])
     else None)"

text \<open>An option set used to exercise the definitions: a plain full dump into \<^verbatim>\<open>dump/\<close>.\<close>

definition plain_dump :: MongoDump where
  "plain_dump =
    \<lparr> ToolOptions = \<lparr> Namespace = \<lparr> DB = '''', Collection = '''' \<rparr>, VersionStr = ''100.9.0'' \<rparr>,
      InputOptions = \<lparr> Query = '''', QueryFile = '''', TableScan = False,
                       SourceWritesDoneBarrier = '''' \<rparr>,
      OutputOptions = \<lparr> Out = '''', Gzip = False, Oplog = False, DumpDBUsersAndRoles = False,
                        ExcludedCollections = [], ExcludedCollectionPrefixes = [],
                        NumParallelCollections = 4, Archive = '''', ViewsAsCollections = False \<rparr>,
      SkipUsersAndRoles = False, query = [],
      oplogStart = Timestamp 0 0, oplogEnd = Timestamp 0 0,
      isMongos = False, isAtlasProxy = False, serverVersion = '''', authVersion = 0,
      ProgressManager = False \<rparr>"

definition with_out :: "string \<Rightarrow> MongoDump \<Rightarrow> MongoDump" where
  "with_out s dump = dump\<lparr> OutputOptions := (OutputOptions dump)\<lparr> Out := s \<rparr> \<rparr>"

definition with_ns :: "string \<Rightarrow> string \<Rightarrow> MongoDump \<Rightarrow> MongoDump" where
  "with_ns d c dump =
     dump\<lparr> ToolOptions := (ToolOptions dump)\<lparr> Namespace := \<lparr> DB = d, Collection = c \<rparr> \<rparr> \<rparr>"

definition with_gzip :: "MongoDump \<Rightarrow> MongoDump" where
  "with_gzip dump = dump\<lparr> OutputOptions := (OutputOptions dump)\<lparr> Gzip := True \<rparr> \<rparr>"

definition with_archive :: "string \<Rightarrow> MongoDump \<Rightarrow> MongoDump" where
  "with_archive s dump = dump\<lparr> OutputOptions := (OutputOptions dump)\<lparr> Archive := s \<rparr> \<rparr>"

definition with_jobs :: "int \<Rightarrow> MongoDump \<Rightarrow> MongoDump" where
  "with_jobs n dump =
     dump\<lparr> OutputOptions := (OutputOptions dump)\<lparr> NumParallelCollections := n \<rparr> \<rparr>"


section \<open>Runs: what a method does besides returning\<close>

text \<open>
  The methods below talk to collaborators that are not part of the modelled code: the
  logger, the server session, the intent streams, the file system. A run of a method is
  the list of such actions in the order the method performs them, together with how the
  method ends. The actions of a goroutine that the method starts are not part of the
  method's run. \<open>Logvf\<close> is a call of \<^verbatim>\<open>log.Logvf\<close> / \<^verbatim>\<open>log.Logv\<close>; \<open>Call c args\<close> is a call of
  the collaborator operation the source writes as \<open>c\<close>.
\<close>

datatype verbosity = Always | Info | DebugLow | DebugHigh

type_synonym bytes = "8 word list"

datatype event =
    Logvf verbosity string "fmtarg list"
  | Call string "fmtarg list"
  | CallBytes string string bytes

text \<open>
  A method either returns a value or panics (a nil dereference, a negative channel
  size). A panic ends the run where it happens; what deferred calls would still do
  while the goroutine unwinds is not recorded.
\<close>

datatype 'a outcome = Returns 'a | Panics string

type_synonym 'a io = "event list \<times> 'a outcome"

definition ret :: "'a \<Rightarrow> 'a io" where
  "ret x = ([], Returns x)"

definition panic :: "string \<Rightarrow> 'a io" where
  "panic s = ([], Panics s)"

definition call :: "event \<Rightarrow> 'a \<Rightarrow> 'a io" where
  \<comment> \<open>perform one collaborator action; \<open>answer\<close> is what the collaborator hands back\<close>
  "call ev answer = ([ev], Returns answer)"

definition logvf :: "verbosity \<Rightarrow> string \<Rightarrow> fmtarg list \<Rightarrow> unit io" where
  "logvf v fmt args = call (Logvf v fmt args) ()"

definition io_bind :: "'a io \<Rightarrow> ('a \<Rightarrow> 'b io) \<Rightarrow> 'b io" where
  "io_bind m f =
     (case m of
        (t, Panics s) \<Rightarrow> (t, Panics s)
      | (t, Returns x) \<Rightarrow> (case f x of (t', r) \<Rightarrow> (t @ t', r)))"

definition io_seq :: "unit io \<Rightarrow> 'b io \<Rightarrow> 'b io" where
  "io_seq m k = io_bind m (\<lambda>_. k)"

definition when_io :: "bool \<Rightarrow> unit io \<Rightarrow> unit io" where
  "when_io b m = (if b then m else ret ())"

definition trace :: "'a io \<Rightarrow> event list" where
  "trace m = fst m"

definition result :: "'a io \<Rightarrow> 'a outcome" where
  "result m = snd m"

section \<open>Intents, queries and the collaborators of a collection dump\<close>

text \<open>
  The data stream of an intent (\<^verbatim>\<open>intent.BSONFile\<close>) is an object of the sink; the record
  holds what each of its methods answers. \<open>Write_result k\<close> is the answer to the
  \<open>k\<close>-th write (counting from 0).
\<close>

record stream =
  Open_result :: "error option"
  Close_result :: "error option"
  Write_result :: "nat \<Rightarrow> error option"

text \<open>
  The intent type lives in the \<^verbatim>\<open>intents\<close> package. The fields are the ones read here;
  the answers of its methods \<^verbatim>\<open>Namespace()\<close>, \<^verbatim>\<open>DataNamespace()\<close>, \<^verbatim>\<open>IsView()\<close>,
  \<^verbatim>\<open>IsTimeseries()\<close> and \<^verbatim>\<open>IsOplog()\<close> are fields as well. \<open>None\<close> is a nil stream.
\<close>

record Intent =
  I_DB :: string
  C :: string
  Options :: bson_D
  Location :: string
  BSONFile :: "stream option"
  MetadataFile :: "stream option"
  I_Namespace :: string
  DataNamespace :: string
  IsView :: bool
  IsTimeseries :: bool
  IsOplog :: bool

record DeferredQuery =
  Coll_DB :: string
  Coll_Name :: string
  Filter :: "bson_D option"

text \<open>
  A cursor yields its documents in order; \<open>Err\<close> is what \<^verbatim>\<open>iter.Err()\<close> reports once
  \<^verbatim>\<open>iter.Next\<close> has returned false.
\<close>

record Cursor =
  docs :: "bytes list"
  Err :: "error option"

datatype buffer_kind = GzipWriter | BufioWriter

text \<open>
  What the collaborators of a collection dump answer. \<open>notified k\<close> says whether the
  shutdown notifier is seen closed when the producer polls it before reading document
  \<open>k\<close>; \<open>Buffer_Write k\<close> is the local buffer's answer to the \<open>k\<close>-th write.
  \<^verbatim>\<open>bsonutil.FindSubdocumentByKey\<close>, \<^verbatim>\<open>bsonutil.FindStringValueByKey\<close> and
  \<^verbatim>\<open>util.Pluralize\<close> are functions of other packages.
\<close>

record Collab =
  GetSession :: "error option"
  FindSubdocumentByKey :: "string \<Rightarrow> bson_D \<Rightarrow> error + bson_D"
  FindStringValueByKey :: "string \<Rightarrow> bson_D \<Rightarrow> error + string"
  Pluralize :: "int \<Rightarrow> string \<Rightarrow> string \<Rightarrow> string"
  Count :: "DeferredQuery \<Rightarrow> bool \<Rightarrow> error + int"
  Iter :: "DeferredQuery \<Rightarrow> error + Cursor"
  notified :: "nat \<Rightarrow> bool"
  Buffer_Write :: "nat \<Rightarrow> error option"
  Buffer_Close :: "error option"

definition getResettableOutputBuffer :: "MongoDump \<Rightarrow> buffer_kind option" where
  "getResettableOutputBuffer dump =
     (if Archive (OutputOptions dump) \<noteq> '''' then None
      else if Gzip (OutputOptions dump) then Some GzipWriter
      else Some BufioWriter)"

definition docPlural :: "Collab \<Rightarrow> int \<Rightarrow> string" where
  "docPlural env count = Pluralize env count ''document'' ''documents''"

section \<open>Dumping one intent\<close>

subsection \<open>dumpValidatedIterToWriter\<close>

text \<open>
  The method starts a goroutine, the producer, that reads the cursor and hands the
  documents over the unbuffered channel \<^verbatim>\<open>buffChan\<close>; the method itself iterates over the
  channel and writes. The two run concurrently, so the run of the method holds the
  actions of the method's own goroutine only, and the actions of the producer are given
  on their own (\<open>producerTrace\<close>): how the two interleave is not fixed by the code beyond
  the hand-overs.

  The producer works in rounds. In round \<open>k\<close> (counting from 0, after \<open>k\<close> documents have
  been handed over) it polls the shutdown notifier; if that is closed it logs, sets
  \<^verbatim>\<open>termErr = util.ErrTerminated\<close> and closes the channel; otherwise it calls \<^verbatim>\<open>iter.Next\<close>
  and closes the channel when the cursor is exhausted (\<^verbatim>\<open>termErr = iter.Err()\<close>) or the
  validator rejects the document (\<^verbatim>\<open>termErr\<close> is the validator's error), and sends the
  document otherwise. The result lists the rounds that end with a send (their actions
  and the document) and gives the round that closes the channel: its actions, the value
  of \<^verbatim>\<open>termErr\<close>, and what \<^verbatim>\<open>iter.Err()\<close> reports from then on.
\<close>

type_synonym handoffs = "(event list \<times> bytes) list \<times> (event list \<times> error option \<times> error option)"

fun producer ::
  "(nat \<Rightarrow> bool) \<Rightarrow> (bytes \<Rightarrow> error option) option \<Rightarrow> error option \<Rightarrow> nat \<Rightarrow> bytes list
    \<Rightarrow> handoffs" where
  "producer notif validator iterErr k [] =
     (if notif k then
        ([], ([Logvf DebugHigh ''terminating writes'' []], Some ErrTerminated, None))
      else ([], ([Call ''iter.Next'' []], iterErr, iterErr)))"
| "producer notif validator iterErr k (d # ds) =
     (if notif k then
        ([], ([Logvf DebugHigh ''terminating writes'' []], Some ErrTerminated, None))
      else
        (case (case validator of None \<Rightarrow> None | Some v \<Rightarrow> v d) of
           Some e \<Rightarrow> ([], ([Call ''iter.Next'' []], Some e, None))
         | None \<Rightarrow>
             (case producer notif validator iterErr (Suc k) ds of
                (sends, closing) \<Rightarrow> (([Call ''iter.Next'' []], d) # sends, closing))))"

text \<open>
  The actions of the producer when the loop has received \<open>received\<close> documents and then
  either received the closing of the channel or stopped receiving (after a failed
  write): the producer has finished the rounds of those documents and carries out one
  more round, which blocks at its send if it is not the closing round.
\<close>

definition producerTrace :: "handoffs \<Rightarrow> nat \<Rightarrow> event list" where
  "producerTrace p received =
     concat (map fst (take (Suc received) (fst p)))
     @ (if length (fst p) \<le> received then fst (snd p) else [])"

text \<open>
  The loop of the method over the channel. \<open>k\<close> is the number of documents written so
  far, which is also the value of the progress counter. When the channel is closed the
  loop returns the cursor's error if there is one, and \<^verbatim>\<open>termErr\<close> otherwise.
\<close>

fun iterLoop ::
  "(nat \<Rightarrow> bytes \<Rightarrow> error option io) \<Rightarrow> (event list \<times> error option \<times> error option) \<Rightarrow> nat
    \<Rightarrow> (event list \<times> bytes) list \<Rightarrow> (error option \<times> int) io" where
  "iterLoop write closing k [] =
     (case closing of
        (actions, termErr, iterErr) \<Rightarrow>
          (case iterErr of
             Some e \<Rightarrow> ret (Some (Errorf ''error reading collection: %v'' [AErr e]), int k)
           | None \<Rightarrow> ret (termErr, int k)))"
| "iterLoop write closing k ((actions, d) # sends) =
     io_bind (write k d) (\<lambda>err.
       case err of
         Some e \<Rightarrow> ret (Some (Errorf ''error writing to file: %v'' [AErr e]), int k)
       | None \<Rightarrow> iterLoop write closing (Suc k) sends)"

text \<open>
  Returns the method's error together with the final value of the progress counter,
  which the caller reads through \<^verbatim>\<open>dumpProgressor.Progress()\<close>. The cursor is closed by
  the deferred \<^verbatim>\<open>iter.Close\<close>.
\<close>

definition dumpValidatedIterToWriter ::
  "Collab \<Rightarrow> Cursor \<Rightarrow> (nat \<Rightarrow> bytes \<Rightarrow> error option io) \<Rightarrow> (bytes \<Rightarrow> error option) option
    \<Rightarrow> (error option \<times> int) io" where
  "dumpValidatedIterToWriter env iter writer validator =
     (case producer (notified env) validator (Err iter) 0 (docs iter) of
        (sends, closing) \<Rightarrow>
          io_seq (call (Call ''go func'' []) ())
          (io_bind (iterLoop writer closing 0 sends) (\<lambda>r.
           io_seq (call (Call ''iter.Close'' []) ())
           (ret r))))"

subsection \<open>getCount\<close>

text \<open>How a query appears in the record of a run: database, collection, filter if any.\<close>

definition queryArgs :: "DeferredQuery \<Rightarrow> fmtarg list" where
  "queryArgs q =
     [AStr (Coll_DB q), AStr (Coll_Name q)] @ (case Filter q of None \<Rightarrow> [] | Some f \<Rightarrow> [AQuery f])"

definition getCount :: "MongoDump \<Rightarrow> Collab \<Rightarrow> DeferredQuery \<Rightarrow> Intent \<Rightarrow> (int \<times> error option) io" where
  "getCount dump env q intent =
     (if length (query dump) \<noteq> 0 \<or> IsOplog intent then
        io_seq (logvf DebugLow ''not counting query on %v'' [AStr (I_Namespace intent)])
        (ret (0, None))
      else
        io_seq (logvf DebugHigh ''Getting estimated count for %v.%v''
                  [AStr (Coll_DB q), AStr (Coll_Name q)])
        (io_bind (call (Call ''query.Count'' (queryArgs q @ [ABool (IsView intent)]))
                   (Count env q (IsView intent)))
          (\<lambda>r. case r of
             Inl e \<Rightarrow> ret (0, Some (Errorf ''error getting count from db: %v'' [AErr e]))
           | Inr totalN \<Rightarrow>
               io_seq (logvf DebugLow ''counted %v %v in %v''
                         [AInt totalN, AStr (docPlural env totalN), AStr (I_Namespace intent)])
               (ret (totalN, None)))))"

subsection \<open>dumpValidatedQueryToIntent\<close>

text \<open>
  The body of both deferred closures that close a writer: the close error becomes the
  result only when there is no error yet.
\<close>

definition surfaceCloseErr :: "Intent \<Rightarrow> error option \<Rightarrow> error option \<Rightarrow> error option" where
  "surfaceCloseErr intent err closeErr =
     (case (err, closeErr) of
        (None, Some ce) \<Rightarrow>
          Some (Errorf ''error writing data for collection `%v` to disk: %v''
                  [AStr (I_Namespace intent), AErr ce])
      | _ \<Rightarrow> err)"

text \<open>
  The writer \<^verbatim>\<open>f\<close>: the local buffer when there is one, the intent's stream otherwise.
\<close>

definition writeTo ::
  "Collab \<Rightarrow> Intent \<Rightarrow> stream \<Rightarrow> buffer_kind option \<Rightarrow> nat \<Rightarrow> bytes \<Rightarrow> error option io" where
  "writeTo env intent file buffer k d =
     (case buffer of
        None \<Rightarrow> call (CallBytes ''intent.BSONFile.Write'' (I_Namespace intent) d) (Write_result file k)
      | Some b \<Rightarrow> call (CallBytes ''buffer.Write'' (I_Namespace intent) d) (Buffer_Write env k))"

text \<open>
  \<^verbatim>\<open>defer func() { closeErr := w.Close(); if err == nil && closeErr != nil { err = ... } }()\<close>:
  once the rest of the function (\<open>body\<close>) has produced the named results
  \<^verbatim>\<open>(dumpCount, err)\<close>, the writer is closed and the close error may become the result.
\<close>

definition deferClose ::
  "Intent \<Rightarrow> event \<Rightarrow> error option \<Rightarrow> (int \<times> error option) io \<Rightarrow> (int \<times> error option) io" where
  "deferClose intent ev answer body =
     io_bind body (\<lambda>(dumpCount, err).
     io_bind (call ev answer) (\<lambda>closeErr.
     ret (dumpCount, surfaceCloseErr intent err closeErr)))"

text \<open>
  The end of \<^verbatim>\<open>dumpValidatedQueryToIntent\<close>: open the cursor, move its documents to the
  writer, read the progress counter, wrap the error.
\<close>

definition dumpRecords ::
  "Collab \<Rightarrow> DeferredQuery \<Rightarrow> Intent \<Rightarrow> stream \<Rightarrow> buffer_kind option
    \<Rightarrow> (bytes \<Rightarrow> error option) option \<Rightarrow> (int \<times> error option) io" where
  "dumpRecords env q intent file buffer validator =
     io_bind (call (Call ''query.Iter'' (queryArgs q)) (Iter env q)) (\<lambda>r.
       case r of
         Inl e \<Rightarrow> ret (0, Some e)
       | Inr cursor \<Rightarrow>
           io_bind (dumpValidatedIterToWriter env cursor (writeTo env intent file buffer) validator)
           (\<lambda>(err, dumpCount).
             ret (dumpCount,
                  case err of
                    None \<Rightarrow> None
                  | Some e \<Rightarrow>
                      Some (Errorf ''error writing data for collection `%v` to disk: %v''
                              [AStr (I_Namespace intent), AErr e]))))"

text \<open>
  Deferred calls run last-registered first: \<^verbatim>\<open>buffer.Close\<close>, then
  \<^verbatim>\<open>ProgressManager.Detach\<close>, then \<^verbatim>\<open>intent.BSONFile.Close\<close>; each is registered only if
  the function got as far as its \<^verbatim>\<open>defer\<close> statement.
\<close>

definition dumpValidatedQueryToIntent ::
  "MongoDump \<Rightarrow> Collab \<Rightarrow> DeferredQuery \<Rightarrow> Intent \<Rightarrow> buffer_kind option
    \<Rightarrow> (bytes \<Rightarrow> error option) option \<Rightarrow> (int \<times> error option) io" where
  "dumpValidatedQueryToIntent dump env q intent buffer validator =
    (case BSONFile intent of
       None \<Rightarrow> panic ''invalid memory address or nil pointer dereference''
     | Some file \<Rightarrow>
       io_bind (call (Call ''intent.BSONFile.Open'' [AStr (I_Namespace intent)]) (Open_result file))
       (\<lambda>err.
       if err \<noteq> None then ret (0, err)
       else
         deferClose intent (Call ''intent.BSONFile.Close'' [AStr (I_Namespace intent)])
           (Close_result file)
          (if IsView intent \<and> \<not> ViewsAsCollections (OutputOptions dump) then ret (0, None)
           else
             io_bind (getCount dump env q intent) (\<lambda>(totalN, err).
             if err \<noteq> None then ret (0, err)
             else
               io_seq (when_io (ProgressManager dump)
                         (call (Call ''ProgressManager.Attach'' [AStr (I_Namespace intent)]) ()))
               (io_bind
                 (if buffer \<noteq> None then
                    io_seq (call (Call ''buffer.Reset'' [AStr (I_Namespace intent)]) ())
                    (deferClose intent (Call ''buffer.Close'' []) (Buffer_Close env)
                      (dumpRecords env q intent file buffer validator))
                  else dumpRecords env q intent file buffer validator)
                 (\<lambda>res.
                    io_seq (when_io (ProgressManager dump)
                              (call (Call ''ProgressManager.Detach'' [AStr (I_Namespace intent)]) ()))
                    (ret res)))))))"

definition dumpQueryToIntent ::
  "MongoDump \<Rightarrow> Collab \<Rightarrow> DeferredQuery \<Rightarrow> Intent \<Rightarrow> buffer_kind option
    \<Rightarrow> (int \<times> error option) io" where
  "dumpQueryToIntent dump env q intent buffer =
     dumpValidatedQueryToIntent dump env q intent buffer None"

subsection \<open>DumpIntent\<close>

text \<open>
  \<^verbatim>\<open>strings.SplitN(s, sep, 2)\<close> for a one-character separator: the text before the first
  separator and the text after it, or the whole string alone when there is none.
\<close>

definition SplitN2 :: "string \<Rightarrow> char \<Rightarrow> string list" where
  "SplitN2 s sep =
     (case dropWhile (\<lambda>c. c \<noteq> sep) s of
        [] \<Rightarrow> [s]
      | _ # rest \<Rightarrow> [takeWhile (\<lambda>c. c \<noteq> sep) s, rest])"

text \<open>
  The loop over \<^verbatim>\<open>dump.query\<close> that translates predicates for a timeseries collection.
  It rewrites the keys in place, so \<open>done\<close> holds the predicates already rewritten and
  the result is the state of \<^verbatim>\<open>dump.query\<close> when the loop ends, with \<open>False\<close> when it
  ended at a predicate that is not on the meta field.
\<close>

fun rewritePredicates :: "string \<Rightarrow> bson_D \<Rightarrow> bson_D \<Rightarrow> (bson_D \<times> bool) io" where
  "rewritePredicates metaKey done [] = ret (done, True)"
| "rewritePredicates metaKey done ((key, v) # rest) =
     (case SplitN2 key (CHR ''.'') of
        [] \<Rightarrow> panic ''index out of range [0] with length 0''
      | [seg] \<Rightarrow>
          if seg \<noteq> metaKey then ret (done @ (key, v) # rest, False)
          else rewritePredicates metaKey (done @ [(''meta'', v)]) rest
      | seg # sub # _ \<Rightarrow>
          if seg \<noteq> metaKey then ret (done @ (key, v) # rest, False)
          else rewritePredicates metaKey (done @ [(''meta.'' @ sub, v)]) rest)"

text \<open>
  The last part of \<^verbatim>\<open>DumpIntent\<close>, after the query has been prepared: announce the
  dump, run it, report the number of documents.
\<close>

definition DumpIntent_output ::
  "MongoDump \<Rightarrow> Collab \<Rightarrow> DeferredQuery \<Rightarrow> Intent \<Rightarrow> buffer_kind option \<Rightarrow> error option io" where
  "DumpIntent_output dump env findQuery intent buffer =
     (if Out (OutputOptions dump) = ''-'' then
        io_seq (logvf Always ''writing %v to stdout'' [AStr (DataNamespace intent)])
        (io_bind (dumpQueryToIntent dump env findQuery intent buffer) (\<lambda>(dumpCount, err).
           io_seq (when_io (err = None)
                     (logvf Always ''dumped %v %v''
                        [AInt dumpCount, AStr (docPlural env dumpCount)]))
           (ret err)))
      else
        io_seq (logvf Always ''writing %v to %v''
                  [AStr (DataNamespace intent), AStr (Location intent)])
        (io_bind (dumpQueryToIntent dump env findQuery intent buffer) (\<lambda>(dumpCount, err).
           if err \<noteq> None then ret err
           else
             io_seq (logvf Always ''done dumping %v (%v %v)''
                       [AStr (DataNamespace intent), AInt dumpCount,
                        AStr (docPlural env dumpCount)])
             (ret None))))"

text \<open>
  The collection the cursor reads: the buckets collection for a timeseries intent.
\<close>

definition findQuery_for :: "Intent \<Rightarrow> DeferredQuery" where
  "findQuery_for intent =
     \<lparr> Coll_DB = I_DB intent,
       Coll_Name = (if IsTimeseries intent then ''system.buckets.'' @ C intent else C intent),
       Filter = None \<rparr>"

text \<open>
  Returns the dump object as the method leaves it (\<^verbatim>\<open>dump.query\<close> may have been
  rewritten) together with the method's error.
\<close>

definition DumpIntent ::
  "MongoDump \<Rightarrow> Collab \<Rightarrow> Intent \<Rightarrow> buffer_kind option \<Rightarrow> (MongoDump \<times> error option) io" where
  "DumpIntent dump env intent buffer =
     io_bind (call (Call ''SessionProvider.GetSession'' []) (GetSession env)) (\<lambda>err.
     if err \<noteq> None then ret (dump, err)
     else
       io_bind
        (if length (query dump) > 0 then
           (if IsTimeseries intent then
              (case FindSubdocumentByKey env ''timeseries'' (Options intent) of
                 Inl e \<Rightarrow>
                   ret (dump, findQuery_for intent,
                        Some (Wrapf e ''could not find timeseries options for %s''
                                [AStr (I_Namespace intent)]))
               | Inr timeseriesOptions \<Rightarrow>
                  (case FindStringValueByKey env ''metaField'' timeseriesOptions of
                     Inl e \<Rightarrow>
                       ret (dump, findQuery_for intent,
                            Some (Wrapf e ''could not determine the metaField for %s''
                                    [AStr (I_Namespace intent)]))
                   | Inr metaKey \<Rightarrow>
                       io_bind (rewritePredicates metaKey [] (query dump)) (\<lambda>(q', ok).
                         if ok then
                           ret (dump\<lparr> query := q' \<rparr>,
                                (findQuery_for intent)\<lparr> Filter := Some q' \<rparr>, None)
                         else
                           ret (dump\<lparr> query := q' \<rparr>, findQuery_for intent,
                                Some (Errorf (''cannot process query %v for timeseries collection %s. '' @
                                              ''mongodump only processes queries on metadata fields for timeseries collections.'')
                                        [AQuery q', AStr (I_Namespace intent)])))))
            else ret (dump, (findQuery_for intent)\<lparr> Filter := Some (query dump) \<rparr>, None))
         else ret (dump, findQuery_for intent, None))
        (\<lambda>(dump, findQuery, err).
          if err \<noteq> None then ret (dump, err)
          else io_bind (DumpIntent_output dump env findQuery intent buffer) (\<lambda>err.
                 ret (dump, err))))"

subsection \<open>Sample collaborators and intents\<close>

definition ok_stream :: stream where
  "ok_stream = \<lparr> Open_result = None, Close_result = None, Write_result = (\<lambda>k. None) \<rparr>"

definition find_value :: "string \<Rightarrow> bson_D \<Rightarrow> bson_val option" where
  "find_value k d = map_of d k"

text \<open>
  A server that answers every request: every collection holds the two documents
  \<open>[1]\<close> and \<open>[2, 3]\<close>; the lookups of the sample \<^verbatim>\<open>bsonutil\<close> functions read the first
  element with the given key.
\<close>

definition ok_env :: Collab where
  "ok_env =
    \<lparr> GetSession = None,
      FindSubdocumentByKey = (\<lambda>k d. case find_value k d of
                                Some (BDoc sub) \<Rightarrow> Inr sub | _ \<Rightarrow> Inl (Opaque ''no such field'')),
      FindStringValueByKey = (\<lambda>k d. case find_value k d of
                                Some (BString s) \<Rightarrow> Inr s | _ \<Rightarrow> Inl (Opaque ''no such field'')),
      Pluralize = (\<lambda>n one many. if n = 1 then one else many),
      Count = (\<lambda>q exact. Inr 2),
      Iter = (\<lambda>q. Inr \<lparr> docs = [[1], [2, 3]], Err = None \<rparr>),
      notified = (\<lambda>k. False),
      Buffer_Write = (\<lambda>k. None),
      Buffer_Close = None \<rparr>"

definition plain_intent :: Intent where
  "plain_intent =
    \<lparr> I_DB = ''db'', C = ''c'', Options = [], Location = ''dump/db/c.bson'',
      BSONFile = Some ok_stream, MetadataFile = None,
      I_Namespace = ''db.c'', DataNamespace = ''db.c'',
      IsView = False, IsTimeseries = False, IsOplog = False \<rparr>"

definition view_intent :: Intent where
  "view_intent = plain_intent\<lparr> C := ''v'', I_Namespace := ''db.v'', DataNamespace := ''db.v'',
                               Location := ''dump/db/v.bson'', IsView := True \<rparr>"

definition timeseries_intent :: Intent where
  "timeseries_intent =
     plain_intent\<lparr> C := ''ts'', I_Namespace := ''db.ts'', DataNamespace := ''db.system.buckets.ts'',
                   Location := ''dump/db/ts.bson'', IsTimeseries := True,
                   Options := [(''timeseries'', BDoc [(''timeField'', BString ''t''),
                                                      (''metaField'', BString ''m'')])] \<rparr>"

definition failing_close :: "error \<Rightarrow> Intent \<Rightarrow> Intent" where
  "failing_close e intent =
     intent\<lparr> BSONFile := map_option (\<lambda>f. f\<lparr> Close_result := Some e \<rparr>) (BSONFile intent) \<rparr>"

definition failing_write :: "error \<Rightarrow> Intent \<Rightarrow> Intent" where
  "failing_write e intent =
     intent\<lparr> BSONFile := map_option (\<lambda>f. f\<lparr> Write_result := (\<lambda>k. Some e) \<rparr>) (BSONFile intent) \<rparr>"

definition with_query :: "bson_D \<Rightarrow> MongoDump \<Rightarrow> MongoDump" where
  "with_query q dump = dump\<lparr> query := q \<rparr>"

text \<open>
  The same collaborators with every close succeeding: the run in which only the phase up
  to the last write can fail.
\<close>

definition closes_ok :: "Intent \<Rightarrow> Intent" where
  "closes_ok intent =
     intent\<lparr> BSONFile := map_option (\<lambda>f. f\<lparr> Close_result := None \<rparr>) (BSONFile intent) \<rparr>"

definition buffer_closes_ok :: "Collab \<Rightarrow> Collab" where
  "buffer_closes_ok env = env\<lparr> Buffer_Close := None \<rparr>"

text \<open>An error is logged by a run when some log line of the run has it as an argument.\<close>

definition logs_error :: "error \<Rightarrow> event list \<Rightarrow> bool" where
  "logs_error e t = list_ex (\<lambda>ev. case ev of Logvf v fmt args \<Rightarrow> AErr e \<in> set args | _ \<Rightarrow> False) t"

text \<open>
  The first dotted segment of a predicate key, and the key the translation loop gives a
  predicate: \<^verbatim>\<open>meta\<close> for a key without a dot, \<^verbatim>\<open>meta.\<close> followed by the text after the
  first dot otherwise.
\<close>

definition first_segment :: "string \<Rightarrow> string" where
  "first_segment key = takeWhile (\<lambda>c. c \<noteq> CHR ''.'') key"

definition metaName :: "string \<Rightarrow> string" where
  "metaName key =
     (case SplitN2 key (CHR ''.'') of
        [] \<Rightarrow> key
      | [seg] \<Rightarrow> ''meta''
      | seg # sub # _ \<Rightarrow> ''meta.'' @ sub)"

definition sample_query :: DeferredQuery where
  "sample_query = \<lparr> Coll_DB = ''db'', Coll_Name = ''c'', Filter = None \<rparr>"

definition silent_about :: "error \<Rightarrow> 'a io \<Rightarrow> bool" where
  "silent_about e m = (\<not> logs_error e (fst m))"

definition meta_query :: bson_D where
  "meta_query = [(''m.tag'', BString ''x''), (''m'', BInt 1)]"

definition mixed_query :: bson_D where
  "mixed_query = [(''m.tag'', BString ''x''), (''v'', BInt 1)]"

definition failing_open :: "error \<Rightarrow> Intent \<Rightarrow> Intent" where
  "failing_open e intent =
     intent\<lparr> BSONFile := map_option (\<lambda>f. f\<lparr> Open_result := Some e \<rparr>) (BSONFile intent) \<rparr>"

definition failing_buffer_close :: "error \<Rightarrow> Collab \<Rightarrow> Collab" where
  "failing_buffer_close e env = env\<lparr> Buffer_Close := Some e \<rparr>"

section \<open>Dumping all intents\<close>

subsection \<open>The worker goroutine\<close>



subsection \<open>DumpIntents\<close>

text \<open>
  \<^verbatim>\<open>for i := 0; i < jobs; i++ { go func(id int) {...}(i) }\<close>: one \<^verbatim>\<open>go\<close> statement per
  iteration.
\<close>

definition spawnWorkers :: "nat \<Rightarrow> unit io" where
  "spawnWorkers jobs = (map (\<lambda>i. Call ''go'' [AInt (int i)]) [0..<jobs], Returns ())"

text \<open>
  The loop that waits for the workers: it receives up to \<open>jobs\<close> values and returns the
  first one that is an error. \<open>chan i\<close> is the \<open>i\<close>-th value that arrives on
  \<^verbatim>\<open>resultChan\<close>; the receive is recorded together with the error it delivers, if any.
\<close>

fun receiveResults :: "(nat \<Rightarrow> error option) \<Rightarrow> nat \<Rightarrow> nat \<Rightarrow> error option io" where
  "receiveResults chan i 0 = ret None"
| "receiveResults chan i (Suc n) =
     io_bind (call (Call ''<-resultChan'' (case chan i of None \<Rightarrow> [] | Some e \<Rightarrow> [AErr e])) (chan i))
     (\<lambda>err. if err \<noteq> None then ret err else receiveResults chan (Suc i) n)"

text \<open>
  \<open>intents\<close> is what \<^verbatim>\<open>dump.manager.Intents()\<close> returns. The workers run concurrently with
  this method; what they do is \<open>dumpRoutine\<close>, and what reaches this method from them is
  \<open>chan\<close>. \<^verbatim>\<open>make(chan error, jobs)\<close> panics when \<open>jobs\<close> is negative.
\<close>

definition DumpIntents :: "MongoDump \<Rightarrow> (nat \<Rightarrow> error option) \<Rightarrow> Intent list \<Rightarrow> error option io" where
  "DumpIntents dump chan intents =
     (let jobs0 = NumParallelCollections (OutputOptions dump);
          numIntents = int (length intents);
          jobs = (if jobs0 > numIntents then numIntents else jobs0)
      in
      io_seq (call (Call ''manager.Finalize''
                      [APolicy (if jobs > 1 then LongestTaskFirst else Legacy)]) ())
      (if jobs < 0 then panic ''makechan: size out of range''
       else
         io_seq (logvf Info ''dumping up to %v collections in parallel'' [AInt jobs])
         (io_seq (spawnWorkers (nat jobs))
         (receiveResults chan 0 (nat jobs)))))"

text \<open>Selecting the calls of one collaborator operation in a run.\<close>

definition is_call :: "string \<Rightarrow> event \<Rightarrow> bool" where
  "is_call name ev = (case ev of Call c args \<Rightarrow> c = name | _ \<Rightarrow> False)"

definition two_intents :: "Intent list" where
  "two_intents = [plain_intent, view_intent]"

section \<open>The prelude file\<close>

text \<open>
  What the file system and the libraries used around it answer. \<^verbatim>\<open>filepath.Join\<close>,
  \<^verbatim>\<open>os.Stat\<close> (error, or whether the path is a directory), \<^verbatim>\<open>os.Create\<close> (by path),
  \<^verbatim>\<open>json.Marshal\<close>, the write on the prelude writer; for the archive, the error the
  multiplexer completes with, \<^verbatim>\<open>archive.NewPrelude\<close> and \<^verbatim>\<open>Prelude.Write\<close>.
  \<open>ServerVersionUnknown\<close> is the constant \<^verbatim>\<open>common.ServerVersionUnknown\<close>.
\<close>

datatype json = JString string | JObject "(string \<times> json) list"

record FS =
  filepath_Join :: "string \<Rightarrow> string \<Rightarrow> string"
  os_Stat :: "string \<Rightarrow> error + bool"
  os_Create :: "string \<Rightarrow> error option"
  json_Marshal :: "json \<Rightarrow> error + bytes"
  writer_Write :: "error option"
  Mux_Completed :: "error option"
  NewPrelude :: "error option"
  Prelude_Write :: "error option"
  ServerVersionUnknown :: string

text \<open>
  \<^verbatim>\<open>errors.Is(err, target)\<close>: the error itself or, for the wrappers that have an
  \<^verbatim>\<open>Unwrap\<close> method, its cause. \<^verbatim>\<open>os.Create\<close> returns nil or a \<^verbatim>\<open>*PathError\<close>.
\<close>

fun errors_Is :: "error \<Rightarrow> error \<Rightarrow> bool" where
  "errors_Is (PathError op path cause) target =
     (PathError op path cause = target \<or> errors_Is cause target)"
| "errors_Is (Wrapf cause fmt args) target =
     (Wrapf cause fmt args = target \<or> errors_Is cause target)"
| "errors_Is e target = (e = target)"

record PreludeData =
  P_ServerVersion :: string
  P_ToolVersion :: string

text \<open>
  The JSON value of a \<^verbatim>\<open>PreludeData\<close>, from its struct tags: an object with the two
  string fields, in declaration order.
\<close>

definition PreludeData_json :: "PreludeData \<Rightarrow> json" where
  "PreludeData_json p =
     JObject [(''ServerVersion'', JString (P_ServerVersion p)),
              (''ToolVersion'', JString (P_ToolVersion p))]"

definition prelude_filename :: "MongoDump \<Rightarrow> FS \<Rightarrow> string" where
  "prelude_filename dump fs =
     (let filename = ''prelude.json'';
          filename = (if ns_DB dump \<noteq> '''' then filepath_Join fs (ns_DB dump) filename
                      else filename);
          filename = (if Out (OutputOptions dump) = '''' then filepath_Join fs ''dump'' filename
                      else filepath_Join fs (Out (OutputOptions dump)) filename)
      in if Gzip (OutputOptions dump) then filename @ ''.gz'' else filename)"

text \<open>
  \<^verbatim>\<open>errors.Is(nil, os.ErrNotExist)\<close> is false, so the test on the error of
  \<^verbatim>\<open>os.Create\<close> only matters when there is one. The deferred closes (\<^verbatim>\<open>writer.Close\<close> of
  the gzip writer, then \<^verbatim>\<open>file.Close\<close>) run on every path after the file has been created;
  their errors are dropped.
\<close>

definition DumpPreludeMetadata :: "MongoDump \<Rightarrow> FS \<Rightarrow> error option io" where
  "DumpPreludeMetadata dump fs =
     (let preludeData = \<lparr> P_ServerVersion = serverVersion dump,
                           P_ToolVersion = VersionStr (ToolOptions dump) \<rparr>;
          filename = prelude_filename dump fs
      in
      io_seq (logvf DebugLow ''dumping prelude metadata to file %#q'' [AStr filename])
      (io_bind (call (Call ''os.Create'' [AStr filename]) (os_Create fs filename)) (\<lambda>err.
         case err of
           Some e \<Rightarrow>
             if errors_Is e ErrNotExist then
               io_seq (logvf DebugLow ''parent directory does not exist, not writing %#q''
                         [AStr filename])
               (ret None)
             else
               ret (Some (Errorf ''failed to open file %#q: %w'' [AStr filename, AErr e]))
         | None \<Rightarrow>
             io_bind
              (case json_Marshal fs (PreludeData_json preludeData) of
                 Inl e \<Rightarrow> ret (Some (Errorf ''error marshaling prelude data: %w'' [AErr e]))
               | Inr bytes \<Rightarrow>
                   io_bind (call (CallBytes ''writer.Write'' filename bytes) (writer_Write fs))
                   (\<lambda>err. case err of
                      Some e \<Rightarrow>
                        ret (Some (Errorf ''failed to write prelude metadata to file %#q: %w''
                                     [AStr filename, AErr e]))
                    | None \<Rightarrow> ret None))
              (\<lambda>err.
                 io_seq (when_io (Gzip (OutputOptions dump)) (call (Call ''writer.Close'' []) ()))
                 (io_seq (call (Call ''file.Close'' [AStr filename]) ())
                 (ret err))))))"

definition ok_fs :: FS where
  "ok_fs =
    \<lparr> filepath_Join = (\<lambda>a b. a @ ''/'' @ b),
      os_Stat = (\<lambda>p. Inr False),
      os_Create = (\<lambda>p. None),
      json_Marshal = (\<lambda>j. Inr [123, 125]),
      writer_Write = None,
      Mux_Completed = None,
      NewPrelude = None,
      Prelude_Write = None,
      ServerVersionUnknown = ''unknown'' \<rparr>"

definition no_parent_fs :: FS where
  "no_parent_fs =
     ok_fs\<lparr> os_Create := (\<lambda>p. Some (PathError ''open'' p ErrNotExist)) \<rparr>"

definition read_only_fs :: FS where
  "read_only_fs =
     ok_fs\<lparr> os_Create := (\<lambda>p. Some (PathError ''open'' p (Opaque ''permission denied''))) \<rparr>"

section \<open>The dump as a whole\<close>

text \<open>
  The intent manager as \<^verbatim>\<open>Dump\<close> sees it: the intents that \<^verbatim>\<open>Intents()\<close> lists and the
  special intents behind \<^verbatim>\<open>Users()\<close>, \<^verbatim>\<open>Roles()\<close>, \<^verbatim>\<open>AuthVersion()\<close> and \<^verbatim>\<open>Oplog()\<close>
  (\<open>None\<close> is nil).
\<close>

record Manager =
  Intents :: "Intent list"
  Users :: "Intent option"
  Roles :: "Intent option"
  AuthVersion :: "Intent option"
  OplogIntent :: "Intent option"

text \<open>
  What the server answers to the requests \<^verbatim>\<open>Dump\<close> makes itself.
  \<open>GetCollectionInfo\<close> is an error or whether the collection info is non-nil;
  \<open>checkOplogTimestampExists n ts\<close> is the answer to the \<open>n\<close>-th check (the oplog may roll
  over between two checks).
\<close>

record Server =
  GetCollectionInfo :: "error + bool"
  GetAuthVersion :: "error + int"
  VerifySystemAuthVersion :: "error option"
  Ping :: "error option"
  ServerVersion :: "error + string"
  determineOplogCollectionName :: "error option"
  getOplogCopyStartTime :: "error + Timestamp"
  getCurrentOplogTime :: "error + Timestamp"
  checkOplogTimestampExists :: "nat \<Rightarrow> Timestamp \<Rightarrow> bool \<times> error option"
  DumpOplogBetweenTimestamps :: "Timestamp \<Rightarrow> Timestamp \<Rightarrow> error option"

text \<open>
  The remaining collaborators of \<^verbatim>\<open>Dump\<close>: the barrier file of the test harness, the
  query option, the failpoint, the functions that plan intents (each gives its error and
  the manager as it leaves it), the metadata dump of one intent (by namespace) and the
  values arriving on the result channel of \<^verbatim>\<open>DumpIntents\<close>.
\<close>

record Planning =
  waitForSourceWritesDoneBarrier :: "string \<Rightarrow> error option"
  HasQuery :: bool
  GetQuery :: "error + string"
  UnmarshalExtJSON :: "string \<Rightarrow> error + bson_D"
  PauseBeforeDumping :: bool
  CreateAllIntents :: "Manager \<Rightarrow> error option \<times> Manager"
  CreateIntentsForDatabase :: "string \<Rightarrow> Manager \<Rightarrow> error option \<times> Manager"
  CreateCollectionIntent :: "string \<Rightarrow> string \<Rightarrow> Manager \<Rightarrow> error option \<times> Manager"
  CreateOplogIntents :: "Manager \<Rightarrow> error option \<times> Manager"
  CreateUsersRolesVersionIntentsForDB :: "string \<Rightarrow> Manager \<Rightarrow> error option \<times> Manager"
  dumpMetadata :: "string \<Rightarrow> error option"
  resultChan :: "nat \<Rightarrow> error option"

record World =
  collab :: Collab
  server :: Server
  planning :: Planning
  fs :: FS

subsection \<open>verifyCollectionExists\<close>

definition verifyCollectionExists :: "MongoDump \<Rightarrow> World \<Rightarrow> (bool \<times> error option) io" where
  "verifyCollectionExists dump w =
     (if ns_Collection dump = '''' then ret (True, None)
      else
        io_bind (call (Call ''db.GetCollectionInfo'' [AStr (ns_DB dump), AStr (ns_Collection dump)])
                   (GetCollectionInfo (server w)))
        (\<lambda>r. case r of
           Inl e \<Rightarrow> ret (False, Some e)
         | Inr found \<Rightarrow> ret (found, None)))"

subsection \<open>getArchiveOut\<close>

text \<open>
  Returns the error only; the writer is an object of the sink. Wrapping it with gzip
  cannot fail.
\<close>

definition getArchiveOut :: "MongoDump \<Rightarrow> World \<Rightarrow> error option io" where
  "getArchiveOut dump w =
     (let archive = Archive (OutputOptions dump) in
      if archive = ''-'' then ret None
      else
        io_bind (call (Call ''os.Stat'' [AStr archive]) (os_Stat (fs w) archive)) (\<lambda>st.
          let path = (case st of
                        Inr True \<Rightarrow>
                          (let p = filepath_Join (fs w) archive ''archive''
                           in if Gzip (OutputOptions dump) then p @ ''.gz'' else p)
                      | _ \<Rightarrow> archive)
          in call (Call ''os.Create'' [AStr path]) (os_Create (fs w) path)))"

subsection \<open>DumpMetadata, DumpUsersAndRoles, DumpUsersAndRolesForDB\<close>

fun DumpMetadata_loop :: "World \<Rightarrow> Intent list \<Rightarrow> error option io" where
  "DumpMetadata_loop w [] = ret None"
| "DumpMetadata_loop w (intent # rest) =
     (if MetadataFile intent \<noteq> None then
        io_bind (call (Call ''dump.dumpMetadata'' [AStr (I_Namespace intent)])
                   (dumpMetadata (planning w) (I_Namespace intent)))
        (\<lambda>err. if err \<noteq> None then ret err else DumpMetadata_loop w rest)
      else DumpMetadata_loop w rest)"

definition DumpMetadata :: "MongoDump \<Rightarrow> World \<Rightarrow> Manager \<Rightarrow> error option io" where
  "DumpMetadata dump w mgr = DumpMetadata_loop w (Intents mgr)"

text \<open>One of the three steps of \<^verbatim>\<open>DumpUsersAndRoles\<close>: dump the intent if there is one.\<close>

definition dumpIfPresent ::
  "MongoDump \<Rightarrow> World \<Rightarrow> Intent option \<Rightarrow> (MongoDump \<times> error option) io" where
  "dumpIfPresent dump w intent =
     (case intent of
        None \<Rightarrow> ret (dump, None)
      | Some i \<Rightarrow> DumpIntent dump (collab w) i (getResettableOutputBuffer dump))"

definition DumpUsersAndRoles :: "MongoDump \<Rightarrow> World \<Rightarrow> Manager \<Rightarrow> (MongoDump \<times> error option) io" where
  "DumpUsersAndRoles dump w mgr =
     io_bind (dumpIfPresent dump w (Users mgr)) (\<lambda>(dump, err).
     if err \<noteq> None then ret (dump, err)
     else
       io_bind (dumpIfPresent dump w (Roles mgr)) (\<lambda>(dump, err).
       if err \<noteq> None then ret (dump, err)
       else
         io_bind (dumpIfPresent dump w (AuthVersion mgr)) (\<lambda>(dump, err).
         if err \<noteq> None then ret (dump, err)
         else ret (dump, None))))"

text \<open>
  One of the three steps of \<^verbatim>\<open>DumpUsersAndRolesForDB\<close>: run the query into the intent. The
  intent is not checked for nil, so a missing one is a nil dereference.
\<close>

definition dumpAdminQuery ::
  "MongoDump \<Rightarrow> World \<Rightarrow> string \<Rightarrow> bson_D option \<Rightarrow> Intent option \<Rightarrow> string \<Rightarrow> error option io" where
  "dumpAdminQuery dump w coll flt intent fmt =
     (case intent of
        None \<Rightarrow> panic ''invalid memory address or nil pointer dereference''
      | Some i \<Rightarrow>
          io_bind (dumpQueryToIntent dump (collab w)
                     \<lparr> Coll_DB = ''admin'', Coll_Name = coll, Filter = flt \<rparr> i
                     (getResettableOutputBuffer dump))
          (\<lambda>(n, err). case err of
             None \<Rightarrow> ret None
           | Some e \<Rightarrow> ret (Some (Errorf fmt [AErr e]))))"

definition DumpUsersAndRolesForDB :: "MongoDump \<Rightarrow> World \<Rightarrow> Manager \<Rightarrow> string \<Rightarrow> error option io" where
  "DumpUsersAndRolesForDB dump w mgr name =
     io_bind (call (Call ''SessionProvider.GetSession'' []) (GetSession (collab w))) (\<lambda>err.
     if err \<noteq> None then ret err
     else
       let dbQuery = [(''db'', BString name)] in
       io_bind (dumpAdminQuery dump w ''system.users'' (Some dbQuery) (Users mgr)
                  ''error dumping db users: %v'') (\<lambda>err.
       if err \<noteq> None then ret err
       else
         io_bind (dumpAdminQuery dump w ''system.roles'' (Some dbQuery) (Roles mgr)
                    ''error dumping db roles: %v'') (\<lambda>err.
         if err \<noteq> None then ret err
         else
           dumpAdminQuery dump w ''system.version'' None (AuthVersion mgr)
             ''error dumping db auth version: %v'')))"

subsection \<open>Dump\<close>

text \<open>
  \<^verbatim>\<open>Dump\<close> is one long method. It is written here from its end to its beginning, each
  definition being the method from one of its own phase comments to its last line.
  The method's variable \<^verbatim>\<open>err\<close> is assigned in several places and returned on the last
  line; it is passed along where its value can still matter.
\<close>

text \<open>
  A block of the method (the body of an \<^verbatim>\<open>if\<close>, a \<^verbatim>\<open>switch\<close>) either runs to its end, with
  the values of the variables it assigns, or returns from the method.
\<close>

datatype 'a flow = Next 'a | Return "error option"

definition io_next :: "'a flow io \<Rightarrow> ('a \<Rightarrow> error option io) \<Rightarrow> error option io" where
  "io_next m k = io_bind m (\<lambda>f. case f of Return e \<Rightarrow> ret e | Next x \<Rightarrow> k x)"

definition oplogOverflow :: error where
  "oplogOverflow =
     Errorf ''oplog overflow: mongodump was unable to capture all new oplog entries during execution'' []"

text \<open>
  One rollover check: \<^verbatim>\<open>exists, err := dump.checkOplogTimestampExists(dump.oplogStart)\<close>
  followed by the test of \<^verbatim>\<open>exists\<close> and then of \<^verbatim>\<open>err\<close>. \<open>n\<close> numbers the checks.
\<close>

definition oplogRolloverCheck :: "MongoDump \<Rightarrow> World \<Rightarrow> nat \<Rightarrow> error option io" where
  "oplogRolloverCheck dump w n =
     io_bind (call (Call ''dump.checkOplogTimestampExists'' [ATimestamp (oplogStart dump)])
                (checkOplogTimestampExists (server w) n (oplogStart dump)))
     (\<lambda>(found, err).
        if \<not> found then ret (Some oplogOverflow)
        else (case err of
                Some e \<Rightarrow> ret (Some (Errorf ''unable to check oplog for overflow: %v'' [AErr e]))
              | None \<Rightarrow> ret None))"

text \<open>
  The body of \<^verbatim>\<open>if dump.OutputOptions.Oplog { ... }\<close> in phase III.
\<close>

definition Dump_oplogCapture :: "MongoDump \<Rightarrow> World \<Rightarrow> Manager \<Rightarrow> MongoDump flow io" where
  "Dump_oplogCapture dump w mgr =
     (let barrier = SourceWritesDoneBarrier (InputOptions dump) in
      io_bind (if barrier \<noteq> '''' then
                 call (Call ''waitForSourceWritesDoneBarrier'' [AStr barrier])
                   (waitForSourceWritesDoneBarrier (planning w) barrier)
               else ret None) (\<lambda>err.
      if err \<noteq> None then ret (Return err)
      else
        io_bind (call (Call ''dump.getCurrentOplogTime'' []) (getCurrentOplogTime (server w)))
        (\<lambda>r. case r of
           Inl e \<Rightarrow> ret (Return (Some (Errorf ''error getting oplog end: %v'' [AErr e])))
         | Inr ts \<Rightarrow>
             (let dump = dump\<lparr> oplogEnd := ts \<rparr> in
              io_seq (logvf DebugLow ''checking if oplog entry %v still exists''
                        [ATimestamp (oplogStart dump)])
              (io_bind (oplogRolloverCheck dump w 0) (\<lambda>err.
               if err \<noteq> None then ret (Return err)
               else
                 io_seq (logvf DebugHigh ''oplog entry %v still exists''
                           [ATimestamp (oplogStart dump)])
                 (case OplogIntent mgr of
                    None \<Rightarrow> panic ''invalid memory address or nil pointer dereference''
                  | Some oplog \<Rightarrow>
                      io_seq (logvf Always ''writing captured oplog to %v'' [AStr (Location oplog)])
                      (io_bind (call (Call ''dump.DumpOplogBetweenTimestamps''
                                        [ATimestamp (oplogStart dump), ATimestamp (oplogEnd dump)])
                                  (DumpOplogBetweenTimestamps (server w) (oplogStart dump)
                                     (oplogEnd dump)))
                       (\<lambda>err. case err of
                          Some e \<Rightarrow> ret (Return (Some (Errorf ''error dumping oplog: %v'' [AErr e])))
                        | None \<Rightarrow>
                            io_seq (logvf DebugLow ''checking again if oplog entry %v still exists''
                                      [ATimestamp (oplogStart dump)])
                            (io_bind (oplogRolloverCheck dump w 1) (\<lambda>err.
                             if err \<noteq> None then ret (Return err)
                             else
                               io_seq (logvf DebugHigh ''oplog entry %v still exists''
                                         [ATimestamp (oplogStart dump)])
                               (ret (Next dump)))))))))))))"

text \<open>From \<^verbatim>\<open>if dump.OutputOptions.Archive == "" && dump.OutputOptions.Out != "-"\<close> on.\<close>

definition Dump_phaseIV :: "MongoDump \<Rightarrow> World \<Rightarrow> error option \<Rightarrow> error option io" where
  "Dump_phaseIV dump w err =
     (if Archive (OutputOptions dump) = '''' \<and> Out (OutputOptions dump) \<noteq> ''-'' then
        io_seq (logvf DebugLow ''dump phase IV: top level metadata json'' [])
        (io_bind (DumpPreludeMetadata dump (fs w)) (\<lambda>err.
           case err of
             Some e \<Rightarrow> ret (Some (Errorf ''failed to dump top level metadata: %v'' [AErr e]))
           | None \<Rightarrow>
               io_seq (logvf DebugLow ''finishing dump'' [])
               (ret None)))
      else
        io_seq (logvf DebugLow ''finishing dump'' [])
        (ret err))"

text \<open>From the comment \<^verbatim>\<open>IO Phase III\<close> on (the oplog).\<close>

definition Dump_phaseIII :: "MongoDump \<Rightarrow> World \<Rightarrow> Manager \<Rightarrow> error option \<Rightarrow> error option io" where
  "Dump_phaseIII dump w mgr err =
     io_seq (logvf DebugLow ''dump phase III: the oplog'' [])
     (if Oplog (OutputOptions dump) then
        io_next (Dump_oplogCapture dump w mgr) (\<lambda>dump. Dump_phaseIV dump w None)
      else Dump_phaseIV dump w err)"

text \<open>From the comment \<^verbatim>\<open>IO Phase II\<close> on (regular collections).\<close>

definition Dump_phaseII :: "MongoDump \<Rightarrow> World \<Rightarrow> Manager \<Rightarrow> error option \<Rightarrow> error option io" where
  "Dump_phaseII dump w mgr err =
     io_seq (logvf DebugHigh ''dump phase II: regular collections'' [])
     (io_bind (DumpIntents dump (resultChan (planning w)) (Intents mgr)) (\<lambda>ierr.
        if ierr \<noteq> None then ret ierr
        else Dump_phaseIII dump w mgr err))"

text \<open>
  The block that dumps users and roles in phase I. It falls through with the dump object
  and the value of \<^verbatim>\<open>err\<close>.
\<close>

definition Dump_usersAndRoles ::
  "MongoDump \<Rightarrow> World \<Rightarrow> Manager \<Rightarrow> error option \<Rightarrow> (MongoDump \<times> error option) flow io" where
  "Dump_usersAndRoles dump w mgr err =
     (if \<not> SkipUsersAndRoles dump \<and> \<not> isAtlasProxy dump then
        io_bind
         (if ns_DB dump = ''admin'' \<or> ns_DB dump = '''' then
            io_bind (DumpUsersAndRoles dump w mgr) (\<lambda>(dump, err).
              case err of
                Some e \<Rightarrow> ret (Return (Some (Errorf ''error dumping users and roles: %v'' [AErr e])))
              | None \<Rightarrow> ret (Next (dump, None)))
          else ret (Next (dump, err)))
         (\<lambda>f. case f of
            Return e \<Rightarrow> ret (Return e)
          | Next (dump, err) \<Rightarrow>
              if DumpDBUsersAndRoles (OutputOptions dump) then
                io_seq (logvf Always ''dumping users and roles for %v'' [AStr (ns_DB dump)])
                (if ns_DB dump = ''admin'' then
                   io_seq (logvf Always ''skipping users/roles dump, already dumped admin database'' [])
                   (ret (Next (dump, err)))
                 else
                   io_bind (DumpUsersAndRolesForDB dump w mgr (ns_DB dump)) (\<lambda>err.
                     case err of
                       Some e \<Rightarrow>
                         ret (Return (Some (Errorf ''error dumping users and roles: %v'' [AErr e])))
                     | None \<Rightarrow> ret (Next (dump, None))))
              else ret (Next (dump, err)))
      else ret (Next (dump, err)))"

text \<open>
  The block that writes the prelude into the archive in phase I; it falls through with
  the value of \<^verbatim>\<open>err\<close>.
\<close>

definition Dump_archivePrelude :: "MongoDump \<Rightarrow> World \<Rightarrow> error option \<Rightarrow> error option flow io" where
  "Dump_archivePrelude dump w err =
     (if Archive (OutputOptions dump) \<noteq> '''' then
        io_bind (call (Call ''archive.NewPrelude''
                         [AInt (NumParallelCollections (OutputOptions dump)),
                          AStr (serverVersion dump), AStr (VersionStr (ToolOptions dump))])
                   (NewPrelude (fs w)))
        (\<lambda>err. case err of
           Some e \<Rightarrow> ret (Return (Some (Errorf ''creating archive prelude: %v'' [AErr e])))
         | None \<Rightarrow>
             io_bind (call (Call ''archive.Prelude.Write'' []) (Prelude_Write (fs w)))
             (\<lambda>err. case err of
                Some e \<Rightarrow>
                  ret (Return (Some (Errorf ''error writing metadata into archive: %v'' [AErr e])))
              | None \<Rightarrow> ret (Next None)))
      else ret (Next err))"

text \<open>
  From the comment \<^verbatim>\<open>IO Phase I\<close> on (metadata, users, roles, versions). When the server
  version cannot be read, \<^verbatim>\<open>err\<close> keeps that error until something else is assigned to it.
\<close>

definition Dump_phaseI :: "MongoDump \<Rightarrow> World \<Rightarrow> Manager \<Rightarrow> error option io" where
  "Dump_phaseI dump w mgr =
     io_seq (logvf DebugHigh ''dump phase I: metadata, indexes, users, roles, version'' [])
     (io_bind (DumpMetadata dump w mgr) (\<lambda>err.
      case err of
        Some e \<Rightarrow> ret (Some (Errorf ''error dumping metadata: %v'' [AErr e]))
      | None \<Rightarrow>
          io_bind (call (Call ''SessionProvider.ServerVersion'' []) (ServerVersion (server w)))
          (\<lambda>r.
            io_bind
             (case r of
                Inl e \<Rightarrow>
                  io_seq (logvf Always ''warning, couldn't get version information from server: %v''
                            [AErr e])
                  (ret (dump\<lparr> serverVersion := ServerVersionUnknown (fs w) \<rparr>, Some e))
              | Inr v \<Rightarrow> ret (dump\<lparr> serverVersion := v \<rparr>, None))
             (\<lambda>(dump, err).
               io_next (Dump_archivePrelude dump w err) (\<lambda>err.
               io_next (Dump_usersAndRoles dump w mgr err) (\<lambda>(dump, err).
               Dump_phaseII dump w mgr err))))))"

text \<open>The \<^verbatim>\<open>switch\<close> that plans the intents; \<^verbatim>\<open>err\<close> is nil when it is reached.\<close>

definition Dump_createIntents :: "MongoDump \<Rightarrow> World \<Rightarrow> Manager \<Rightarrow> (error option \<times> Manager) io" where
  "Dump_createIntents dump w mgr =
     (if ns_DB dump = '''' \<and> ns_Collection dump = '''' then
        call (Call ''dump.CreateAllIntents'' []) (CreateAllIntents (planning w) mgr)
      else if ns_DB dump \<noteq> '''' \<and> ns_Collection dump = '''' then
        call (Call ''dump.CreateIntentsForDatabase'' [AStr (ns_DB dump)])
          (CreateIntentsForDatabase (planning w) (ns_DB dump) mgr)
      else if ns_DB dump \<noteq> '''' \<and> ns_Collection dump \<noteq> '''' then
        call (Call ''dump.CreateCollectionIntent'' [AStr (ns_DB dump), AStr (ns_Collection dump)])
          (CreateCollectionIntent (planning w) (ns_DB dump) (ns_Collection dump) mgr)
      else ret (None, mgr))"

text \<open>From the failpoint before the intents are planned on.\<close>

definition Dump_plan :: "MongoDump \<Rightarrow> World \<Rightarrow> Manager \<Rightarrow> error option io" where
  "Dump_plan dump w mgr =
     io_seq (when_io (PauseBeforeDumping (planning w))
               (io_seq (logvf Info ''failpoint.PauseBeforeDumping: sleeping 15 sec'' [])
                       (call (Call ''time.Sleep'' [AInt 15]) ())))
     (io_bind (Dump_createIntents dump w mgr) (\<lambda>(err, mgr).
      case err of
        Some e \<Rightarrow> ret (Some (Errorf ''error creating intents to dump: %v'' [AErr e]))
      | None \<Rightarrow>
          io_bind (if Oplog (OutputOptions dump) then
                     call (Call ''dump.CreateOplogIntents'' []) (CreateOplogIntents (planning w) mgr)
                   else ret (None, mgr)) (\<lambda>(err, mgr).
          if err \<noteq> None then ret err
          else
            io_bind (if \<not> SkipUsersAndRoles dump \<and> DumpDBUsersAndRoles (OutputOptions dump)
                        \<and> ns_DB dump \<noteq> ''admin'' then
                       call (Call ''dump.CreateUsersRolesVersionIntentsForDB'' [AStr (ns_DB dump)])
                         (CreateUsersRolesVersionIntentsForDB (planning w) (ns_DB dump) mgr)
                     else ret (None, mgr)) (\<lambda>(err, mgr).
            if err \<noteq> None then ret err
            else Dump_phaseI dump w mgr))))"

text \<open>From the comment \<^verbatim>\<open>Confirm connectivity\<close> on.\<close>

definition Dump_connect :: "MongoDump \<Rightarrow> World \<Rightarrow> Manager \<Rightarrow> error option io" where
  "Dump_connect dump w mgr =
     io_bind (call (Call ''SessionProvider.GetSession'' []) (GetSession (collab w))) (\<lambda>err.
     case err of
       Some e \<Rightarrow> ret (Some (Errorf ''error getting a client session: %v'' [AErr e]))
     | None \<Rightarrow>
         io_bind (call (Call ''session.Ping'' []) (Ping (server w))) (\<lambda>err.
         case err of
           Some e \<Rightarrow> ret (Some (Errorf ''error connecting to host: %v'' [AErr e]))
         | None \<Rightarrow>
             io_next
              (if Oplog (OutputOptions dump) then
                 io_bind (call (Call ''dump.determineOplogCollectionName'' [])
                            (determineOplogCollectionName (server w))) (\<lambda>err.
                 case err of
                   Some e \<Rightarrow> ret (Return (Some (Errorf ''error finding oplog: %v'' [AErr e])))
                 | None \<Rightarrow>
                     io_seq (logvf Info ''getting most recent oplog timestamp'' [])
                     (io_bind (call (Call ''dump.getOplogCopyStartTime'' [])
                                 (getOplogCopyStartTime (server w))) (\<lambda>r.
                      case r of
                        Inl e \<Rightarrow> ret (Return (Some (Errorf ''error getting oplog start: %v'' [AErr e])))
                      | Inr ts \<Rightarrow> ret (Next (dump\<lparr> oplogStart := ts \<rparr>)))))
               else ret (Next dump))
              (\<lambda>dump. Dump_plan dump w mgr)))"

text \<open>
  The deferred function of the archive: it runs when the rest of the method has
  produced \<^verbatim>\<open>err\<close>, and may replace it.
\<close>

definition archiveFinalizer :: "World \<Rightarrow> error option \<Rightarrow> error option io" where
  "archiveFinalizer w err =
     io_seq (call (Call ''close(archive.Mux.Control)'' []) ())
     (io_bind (call (Call ''<-archive.Mux.Completed'' []) (Mux_Completed (fs w))) (\<lambda>muxErr.
      io_seq (call (Call ''archiveOut.Close'' []) ())
      (case muxErr of
         Some m \<Rightarrow>
           (let err = (case err of
                         Some e \<Rightarrow> Errorf ''archive writer: %v / %v'' [AErr e, AErr m]
                       | None \<Rightarrow> Errorf ''archive writer: %v'' [AErr m])
            in io_seq (logvf DebugLow ''%v'' [AErr err]) (ret (Some err)))
       | None \<Rightarrow>
           io_seq (logvf DebugLow ''mux completed successfully'' [])
           (ret err))))"

text \<open>From \<^verbatim>\<open>if dump.OutputOptions.Archive != ""\<close> on.\<close>

definition Dump_archive :: "MongoDump \<Rightarrow> World \<Rightarrow> Manager \<Rightarrow> error option io" where
  "Dump_archive dump w mgr =
     (if Archive (OutputOptions dump) \<noteq> '''' then
        io_bind (getArchiveOut dump w) (\<lambda>err.
        if err \<noteq> None then ret err
        else
          io_seq (call (Call ''go archive.Mux.Run'' []) ())
          (io_bind (Dump_connect dump w mgr) (archiveFinalizer w)))
      else Dump_connect dump w mgr)"

text \<open>The block that reads the query option.\<close>

definition Dump_readQuery :: "MongoDump \<Rightarrow> World \<Rightarrow> MongoDump flow io" where
  "Dump_readQuery dump w =
     (if HasQuery (planning w) then
        io_bind (call (Call ''InputOptions.GetQuery'' []) (GetQuery (planning w))) (\<lambda>r.
        case r of
          Inl e \<Rightarrow> ret (Return (Some e))
        | Inr content \<Rightarrow>
            (case UnmarshalExtJSON (planning w) content of
               Inl e \<Rightarrow>
                 ret (Return (Some (Errorf ''error parsing query as Extended JSON: %v'' [AErr e])))
             | Inr q \<Rightarrow> ret (Next (dump\<lparr> query := q \<rparr>))))
      else ret (Next dump))"

text \<open>The block that checks the auth schema version.\<close>

definition Dump_authVersion :: "MongoDump \<Rightarrow> World \<Rightarrow> MongoDump flow io" where
  "Dump_authVersion dump w =
     (if \<not> SkipUsersAndRoles dump \<and> DumpDBUsersAndRoles (OutputOptions dump) then
        io_bind (call (Call ''auth.GetAuthVersion'' []) (GetAuthVersion (server w))) (\<lambda>r.
        io_bind (case r of
                   Inl e \<Rightarrow> ret (0, Some e)
                 | Inr v \<Rightarrow>
                     io_bind (call (Call ''auth.VerifySystemAuthVersion'' [])
                                (VerifySystemAuthVersion (server w)))
                     (\<lambda>err. ret (v, err))) (\<lambda>(v, err).
        case err of
          Some e \<Rightarrow>
            ret (Return (Some (Errorf ''error getting auth schema version for dumpDbUsersAndRoles: %v''
                                 [AErr e])))
        | None \<Rightarrow>
            io_seq (logvf DebugLow ''using auth schema version %v'' [AInt v])
            (if v < 3 then
               ret (Return (Some (Errorf (''backing up users and roles is only supported for '' @
                                          ''deployments with auth schema versions >= 3, found: %v'')
                                    [AInt v])))
             else ret (Next (dump\<lparr> authVersion := v \<rparr>)))))
      else ret (Next dump))"

text \<open>From \<^verbatim>\<open>log.Logvf(log.DebugHigh, "starting Dump()")\<close> on.\<close>

definition Dump_start :: "MongoDump \<Rightarrow> World \<Rightarrow> Manager \<Rightarrow> error option io" where
  "Dump_start dump w mgr =
     io_seq (logvf DebugHigh ''starting Dump()'' [])
     (io_next (Dump_readQuery dump w) (\<lambda>dump.
      io_next (Dump_authVersion dump w) (\<lambda>dump.
      Dump_archive dump w mgr)))"

text \<open>
  The whole method. \<^verbatim>\<open>defer dump.SessionProvider.Close()\<close> runs last on every path.
\<close>

definition Dump :: "MongoDump \<Rightarrow> World \<Rightarrow> Manager \<Rightarrow> error option io" where
  "Dump dump w mgr =
     io_bind
      (let barrier = SourceWritesDoneBarrier (InputOptions dump) in
       io_bind (if \<not> Oplog (OutputOptions dump) \<and> barrier \<noteq> '''' then
                  call (Call ''waitForSourceWritesDoneBarrier'' [AStr barrier])
                    (waitForSourceWritesDoneBarrier (planning w) barrier)
                else ret None) (\<lambda>err.
       if err \<noteq> None then ret err
       else
         io_bind (verifyCollectionExists dump w) (\<lambda>(found, err).
         case err of
           Some e \<Rightarrow> ret (Some (Errorf ''error verifying collection info: %v'' [AErr e]))
         | None \<Rightarrow>
             if \<not> found then
               io_seq (logvf Always ''namespace with DB %s and collection %s does not exist''
                         [AStr (ns_DB dump), AStr (ns_Collection dump)])
               (ret None)
             else Dump_start dump w mgr)))
      (\<lambda>err. io_seq (call (Call ''SessionProvider.Close'' []) ()) (ret err))"

subsection \<open>A sample deployment\<close>

definition oplog_intent :: Intent where
  "oplog_intent =
     plain_intent\<lparr> I_DB := '''', C := ''oplog'', I_Namespace := ''.oplog'',
                   DataNamespace := ''.oplog'', Location := ''dump/oplog.bson'', IsOplog := True \<rparr>"

definition empty_manager :: Manager where
  "empty_manager =
     \<lparr> Intents = [], Users = None, Roles = None, AuthVersion = None, OplogIntent = None \<rparr>"

definition ok_server :: Server where
  "ok_server =
    \<lparr> GetCollectionInfo = Inr True,
      GetAuthVersion = Inr 5,
      VerifySystemAuthVersion = None,
      Ping = None,
      ServerVersion = Inr ''7.0.0'',
      determineOplogCollectionName = None,
      getOplogCopyStartTime = Inr (Timestamp 100 1),
      getCurrentOplogTime = Inr (Timestamp 200 7),
      checkOplogTimestampExists = (\<lambda>n ts. (True, None)),
      DumpOplogBetweenTimestamps = (\<lambda>a b. None) \<rparr>"

definition ok_planning :: Planning where
  "ok_planning =
    \<lparr> waitForSourceWritesDoneBarrier = (\<lambda>b. None),
      HasQuery = False,
      GetQuery = Inr '''',
      UnmarshalExtJSON = (\<lambda>s. Inr []),
      PauseBeforeDumping = False,
      CreateAllIntents = (\<lambda>m. (None, m\<lparr> Intents := two_intents \<rparr>)),
      CreateIntentsForDatabase = (\<lambda>d m. (None, m\<lparr> Intents := two_intents \<rparr>)),
      CreateCollectionIntent = (\<lambda>d c m. (None, m\<lparr> Intents := [plain_intent] \<rparr>)),
      CreateOplogIntents = (\<lambda>m. (None, m\<lparr> OplogIntent := Some oplog_intent \<rparr>)),
      CreateUsersRolesVersionIntentsForDB = (\<lambda>d m. (None, m)),
      dumpMetadata = (\<lambda>ns. None),
      resultChan = (\<lambda>i. None) \<rparr>"

definition ok_world :: World where
  "ok_world = \<lparr> collab = ok_env, server = ok_server, planning = ok_planning, fs = ok_fs \<rparr>"


definition missing_collection :: "World \<Rightarrow> World" where
  "missing_collection w = w\<lparr> server := (server w)\<lparr> GetCollectionInfo := Inr False \<rparr> \<rparr>"


definition failing_check :: "error \<Rightarrow> World \<Rightarrow> World" where
  "failing_check e w = w\<lparr> server := (server w)\<lparr> GetCollectionInfo := Inl e \<rparr> \<rparr>"

section \<open>Phases of a run\<close>

text \<open>
  The name of an action: the format string of a log line, the operation of a call.
\<close>

definition kind :: "event \<Rightarrow> string" where
  "kind ev = (case ev of Logvf v fmt args \<Rightarrow> fmt | Call c args \<Rightarrow> c | CallBytes c n b \<Rightarrow> c)"

text \<open>
  The actions that belong to one phase of \<^verbatim>\<open>Dump\<close> only: the worker pool of phase II (2,
  with the requests of the workers to the intent manager),
  the oplog capture of phase III (3), the prelude file of phase IV (4) and the last log
  line of the method (5). Every other action has phase 0: it is either an action of the
  phases before, or one that several phases share (\<^verbatim>\<open>os.Create\<close>, the barrier wait, the
  deferred calls).
\<close>

definition phase :: "event \<Rightarrow> nat" where
  "phase ev =
     (case ev of
        Logvf v fmt args \<Rightarrow>
          if fmt \<in> set [''dump phase II: regular collections'',
                         ''dumping up to %v collections in parallel''] then 2
          else if fmt \<in> set [''dump phase III: the oplog'',
                              ''checking if oplog entry %v still exists'',
                              ''oplog entry %v still exists'',
                              ''writing captured oplog to %v'',
                              ''checking again if oplog entry %v still exists''] then 3
          else if fmt \<in> set [''dump phase IV: top level metadata json'',
                              ''dumping prelude metadata to file %#q'',
                              ''parent directory does not exist, not writing %#q''] then 4
          else if fmt = ''finishing dump'' then 5
          else 0
      | Call c args \<Rightarrow>
          if c \<in> set [''manager.Finalize'', ''go'', ''<-resultChan'', ''manager.Pop'',
                         ''manager.Finish''] then 2
          else if c \<in> set [''dump.getCurrentOplogTime'', ''dump.checkOplogTimestampExists'',
                            ''dump.DumpOplogBetweenTimestamps''] then 3
          else if c \<in> set [''writer.Close'', ''file.Close''] then 4
          else 0
      | CallBytes c n b \<Rightarrow> if c = ''writer.Write'' then 4 else 0)"

definition phases :: "event list \<Rightarrow> nat list" where
  "phases t = filter (\<lambda>n. 0 < n) (map phase t)"

text \<open>A run without any action of the phases II to IV.\<close>

definition quiet :: "'a io \<Rightarrow> bool" where
  "quiet m = (phases (fst m) = [])"

text \<open>
  A run whose phase actions happen in the order of the phases, all of them between
  phase \<open>lo\<close> and phase \<open>hi\<close>.
\<close>

definition within :: "nat \<Rightarrow> nat \<Rightarrow> 'a io \<Rightarrow> bool" where
  "within lo hi m = (sorted (phases (fst m)) \<and> (\<forall>n\<in>set (phases (fst m)). lo \<le> n \<and> n \<le> hi))"

text \<open>
  Every worker that was started has reported, and reported no error: the values
  received from the result channel are as many as the \<^verbatim>\<open>go\<close> statements, all nil.
\<close>

definition workers_done :: "event list \<Rightarrow> bool" where
  "workers_done t =
     (filter (is_call ''<-resultChan'') t
        = replicate (length (filter (is_call ''go'') t)) (Call ''<-resultChan'' []))"

definition is_worker_event :: "event \<Rightarrow> bool" where
  "is_worker_event ev = (is_call ''go'' ev \<or> is_call ''<-resultChan'' ev)"

text \<open>
  If the run has an action of phase III or IV, the workers are done.
\<close>

definition late_after_workers :: "'a io \<Rightarrow> bool" where
  "late_after_workers m =
     ((\<exists>n\<in>set (phases (fst m)). n = 3 \<or> n = 4) \<longrightarrow> workers_done (fst m))"

text \<open>
  A run in phase order: its phase actions happen in the order of the phases, and those of
  phase III and IV only after the workers are done.
\<close>

definition phased :: "'a io \<Rightarrow> bool" where
  "phased m = (within 2 5 m \<and> late_after_workers m)"

text \<open>A run without any action that satisfies \<open>P\<close>.\<close>

definition never :: "(event \<Rightarrow> bool) \<Rightarrow> 'a io \<Rightarrow> bool" where
  "never P m = (\<not> list_ex P (fst m))"

text \<open>A run whose value, if it returns one, satisfies \<open>Q\<close>.\<close>

definition yields :: "('a \<Rightarrow> bool) \<Rightarrow> 'a io \<Rightarrow> bool" where
  "yields Q m = (case snd m of Returns x \<Rightarrow> Q x | Panics s \<Rightarrow> True)"

text \<open>
  The requests of the oplog capture in a run: reading the current oplog time, checking
  that an entry exists, copying the entries between two timestamps.
\<close>

definition oplog_calls :: "event list \<Rightarrow> event list" where
  "oplog_calls t =
     filter (\<lambda>ev. is_call ''dump.getCurrentOplogTime'' ev
                 \<or> is_call ''dump.checkOplogTimestampExists'' ev
                 \<or> is_call ''dump.DumpOplogBetweenTimestamps'' ev) t"

text \<open>The actions of the prelude phase.\<close>

definition is_prelude_event :: "event \<Rightarrow> bool" where
  "is_prelude_event ev = (phase ev = 4)"


text \<open>
  The part of a run that belongs to the phases III to V.
\<close>

definition is_late :: "event \<Rightarrow> bool" where
  "is_late ev = (3 \<le> phase ev)"

definition late :: "event list \<Rightarrow> event list" where
  "late t = filter is_late t"

text \<open>A run that has no action of the phases III to V, or whose part in them satisfies \<open>G\<close>.\<close>

definition tail_of :: "(event list \<Rightarrow> bool) \<Rightarrow> 'a io \<Rightarrow> bool" where
  "tail_of G m = (late (fst m) = [] \<or> G (late (fst m)))"

text \<open>
  Two states of the dump object that agree on the options, on the start timestamp of the
  oplog and on the server version: the fields the method assigns while it dumps (the
  query, the auth version, the end timestamp) may differ.
\<close>

definition agrees :: "MongoDump \<Rightarrow> MongoDump \<Rightarrow> bool" where
  "agrees d dump =
     (ToolOptions d = ToolOptions dump \<and> InputOptions d = InputOptions dump
      \<and> OutputOptions d = OutputOptions dump \<and> oplogStart d = oplogStart dump
      \<and> serverVersion d = serverVersion dump)"

text \<open>
  What \<^verbatim>\<open>Dump\<close> has assigned to the dump object when phase II starts: the start
  timestamp of the oplog (with oplog capture, from \<^verbatim>\<open>getOplogCopyStartTime\<close>) and the
  server version (from \<^verbatim>\<open>SessionProvider.ServerVersion\<close>, or the constant for an unknown
  version when that fails).
\<close>

definition planned :: "MongoDump \<Rightarrow> World \<Rightarrow> MongoDump" where
  "planned dump w =
     (if Oplog (OutputOptions dump) then
        (case getOplogCopyStartTime (server w) of
           Inr ts \<Rightarrow> dump\<lparr> oplogStart := ts \<rparr>
         | Inl e \<Rightarrow> dump)
      else dump)
     \<lparr> serverVersion := (case ServerVersion (server w) of
                           Inr v \<Rightarrow> v
                         | Inl e \<Rightarrow> ServerVersionUnknown (fs w)) \<rparr>"

text \<open>The run reached the last log line of \<^verbatim>\<open>Dump\<close>.\<close>

definition finished :: "event list \<Rightarrow> bool" where
  "finished t = list_ex (\<lambda>ev. ev = Logvf DebugLow ''finishing dump'' []) t"
section \<open>Properties of option validation\<close>

lemma ValidateOptions_plain_dump: "ValidateOptions plain_dump = None"
  by (simp add: ValidateOptions_def plain_dump_def ns_DB_def ns_Collection_def HasPrefix_def)

text \<open>
  If validation passes, the condition of each case of the switch was false. The proof
  walks the chain of cases once and leaves the conditions untouched.
\<close>

lemma ValidateOptions_None_D:
  assumes "ValidateOptions dump = None"
  shows "\<not> (Out (OutputOptions dump) = ''-'' \<and> ns_Collection dump = '''')"
    and "\<not> HasPrefix (ns_Collection dump) ''system.buckets.''"
    and "\<not> (Out (OutputOptions dump) \<noteq> '''' \<and> Archive (OutputOptions dump) \<noteq> '''')"
    and "\<not> (Out (OutputOptions dump) = ''-'' \<and> Gzip (OutputOptions dump))"
    and "\<not> NumParallelCollections (OutputOptions dump) \<le> 0"
  using assms unfolding ValidateOptions_def Let_def
  by (simp_all only: option.distinct split: if_split_asm) blast+

text \<open>
  Claim C2. \<^verbatim>\<open>ValidateOptions\<close> returns an error for every option set in which out is
  \<^verbatim>\<open>"-"\<close> and no collection is selected, or out is \<^verbatim>\<open>"-"\<close> and gzip is on, or both archive
  and out are set, or numParallelCollections is not positive.
\<close>

theorem ValidateOptions_rejects_sink_conflicts:
  assumes "(Out (OutputOptions dump) = ''-'' \<and> ns_Collection dump = '''')
         \<or> (Out (OutputOptions dump) = ''-'' \<and> Gzip (OutputOptions dump))
         \<or> (Archive (OutputOptions dump) \<noteq> '''' \<and> Out (OutputOptions dump) \<noteq> '''')
         \<or> NumParallelCollections (OutputOptions dump) \<le> 0"
  shows "ValidateOptions dump \<noteq> None"
  using assms ValidateOptions_None_D [of dump] by blast

theorem ValidateOptions_rejects_sink_conflicts_witness:
  "ValidateOptions (with_out ''-'' plain_dump) \<noteq> None
   \<and> ValidateOptions (with_gzip (with_out ''-'' (with_ns ''db'' ''c'' plain_dump))) \<noteq> None
   \<and> ValidateOptions (with_archive ''a.arc'' (with_out ''d'' plain_dump)) \<noteq> None
   \<and> ValidateOptions (with_jobs 0 plain_dump) \<noteq> None"
  using ValidateOptions_rejects_sink_conflicts [of "with_out ''-'' plain_dump"]
        ValidateOptions_rejects_sink_conflicts
          [of "with_gzip (with_out ''-'' (with_ns ''db'' ''c'' plain_dump))"]
        ValidateOptions_rejects_sink_conflicts [of "with_archive ''a.arc'' (with_out ''d'' plain_dump)"]
        ValidateOptions_rejects_sink_conflicts [of "with_jobs 0 plain_dump"]
  by (simp add: with_out_def with_gzip_def with_archive_def with_jobs_def with_ns_def
        plain_dump_def ns_Collection_def)

text \<open>
  Claim C9. Whenever the selected collection name starts with \<^verbatim>\<open>system.buckets.\<close>,
  \<^verbatim>\<open>ValidateOptions\<close> returns an error: either the dedicated one or the error of an
  earlier case of the switch.
\<close>

theorem ValidateOptions_rejects_system_buckets:
  assumes "HasPrefix (ns_Collection dump) ''system.buckets.''"
  shows "ValidateOptions dump \<noteq> None"
  using assms ValidateOptions_None_D(2) [of dump] by blast

theorem ValidateOptions_rejects_system_buckets_witness:
  "HasPrefix (ns_Collection (with_ns ''db'' ''system.buckets.weather'' plain_dump)) ''system.buckets.''
   \<and> ValidateOptions (with_ns ''db'' ''system.buckets.weather'' plain_dump) \<noteq> None"
  using ValidateOptions_rejects_system_buckets [of "with_ns ''db'' ''system.buckets.weather'' plain_dump"]
  by (simp add: with_ns_def plain_dump_def ns_Collection_def HasPrefix_def)


section \<open>Properties of runs\<close>

lemma io_bind_ret [simp]: "io_bind (ret x) f = f x"
  by (simp add: io_bind_def ret_def split: prod.splits)

lemma io_bind_call: "io_bind (call ev a) f = (ev # fst (f a), snd (f a))"
  by (simp add: io_bind_def call_def split: prod.splits)

lemma io_bind_pair:
  "io_bind (t, Panics s) f = (t, Panics s)"
  "io_bind (t, Returns x) f = (t @ fst (f x), snd (f x))"
  by (simp_all add: io_bind_def split: prod.splits)

lemma io_seq_call: "io_seq (call ev ()) m = (ev # fst m, snd m)"
  by (simp add: io_seq_def io_bind_call)

lemma io_seq_when:
  "io_seq (when_io b (call ev ())) m = ((if b then [ev] else []) @ fst m, snd m)"
  by (simp add: when_io_def io_seq_call) (simp add: io_seq_def)

lemma logs_error_append: "logs_error e (a @ b) = (logs_error e a \<or> logs_error e b)"
  by (simp add: logs_error_def)

lemma logs_error_simps:
  "logs_error e [] = False"
  "logs_error e (Call c args # t) = logs_error e t"
  "logs_error e (CallBytes c n b # t) = logs_error e t"
  "logs_error e (Logvf v fmt args # t) = (AErr e \<in> set args \<or> logs_error e t)"
  by (simp_all add: logs_error_def)

section \<open>Properties of the dump of one intent\<close>

lemma deferClose_pair:
  "deferClose intent ev ans (t, Panics s) = (t, Panics s)"
  "deferClose intent ev ans (t, Returns (n, err)) =
     (t @ [ev], Returns (n, surfaceCloseErr intent err ans))"
  by (simp_all add: deferClose_def io_bind_pair io_bind_call) (simp add: ret_def)

lemma surfaceCloseErr_simps:
  "surfaceCloseErr intent (Some e) ce = Some e"
  "surfaceCloseErr intent err None = err"
  by (simp_all add: surfaceCloseErr_def split: option.splits)

subsection \<open>Views dumped as views\<close>

lemma view_dump_run:
  assumes "BSONFile intent = Some file" and "IsView intent"
    and "\<not> ViewsAsCollections (OutputOptions dump)"
  shows "dumpValidatedQueryToIntent dump env q intent buffer validator =
     (case Open_result file of
        Some e \<Rightarrow> ([Call ''intent.BSONFile.Open'' [AStr (I_Namespace intent)]], Returns (0, Some e))
      | None \<Rightarrow> ([Call ''intent.BSONFile.Open'' [AStr (I_Namespace intent)],
                  Call ''intent.BSONFile.Close'' [AStr (I_Namespace intent)]],
                 Returns (0, surfaceCloseErr intent None (Close_result file))))"
  unfolding dumpValidatedQueryToIntent_def assms option.case
  using assms(2,3)
  by (cases "Open_result file") (simp_all add: io_bind_call deferClose_pair ret_def)

text \<open>
  Claim C5, as the code has it. A view intent dumped while views-as-collections is off:
  the data stream is opened; if that fails the open error is returned and the stream is
  not closed; otherwise the stream is closed at once, no document is read or written,
  the count is 0, and the result is success when the close succeeds and the close
  error, wrapped, when it fails.
\<close>

theorem view_dump_opens_and_closes_empty_stream:
  assumes "BSONFile intent = Some file" and "IsView intent"
    and "\<not> ViewsAsCollections (OutputOptions dump)"
  shows "(Open_result file = None \<longrightarrow>
            trace (dumpValidatedQueryToIntent dump env q intent buffer validator) =
              [Call ''intent.BSONFile.Open'' [AStr (I_Namespace intent)],
               Call ''intent.BSONFile.Close'' [AStr (I_Namespace intent)]]
          \<and> (Close_result file = None \<longrightarrow>
                result (dumpValidatedQueryToIntent dump env q intent buffer validator) =
                  Returns (0, None))
          \<and> (\<forall>ce. Close_result file = Some ce \<longrightarrow>
                result (dumpValidatedQueryToIntent dump env q intent buffer validator) =
                  Returns (0, Some (Errorf ''error writing data for collection `%v` to disk: %v''
                                      [AStr (I_Namespace intent), AErr ce]))))
       \<and> (\<forall>e. Open_result file = Some e \<longrightarrow>
            dumpValidatedQueryToIntent dump env q intent buffer validator =
              ([Call ''intent.BSONFile.Open'' [AStr (I_Namespace intent)]], Returns (0, Some e)))"
  unfolding view_dump_run [OF assms]
  by (simp add: trace_def result_def surfaceCloseErr_def)

theorem view_dump_opens_and_closes_empty_stream_witness:
  "trace (dumpValidatedQueryToIntent plain_dump ok_env sample_query view_intent
            (Some BufioWriter) None) =
     [Call ''intent.BSONFile.Open'' [AStr ''db.v''], Call ''intent.BSONFile.Close'' [AStr ''db.v'']]
   \<and> result (dumpValidatedQueryToIntent plain_dump ok_env sample_query view_intent
               (Some BufioWriter) None) = Returns (0, None)
   \<and> result (dumpValidatedQueryToIntent plain_dump ok_env sample_query
               (failing_close (Opaque ''broken pipe'') view_intent) None None)
       = Returns (0, Some (Errorf ''error writing data for collection `%v` to disk: %v''
                             [AStr ''db.v'', AErr (Opaque ''broken pipe'')]))
   \<and> dumpValidatedQueryToIntent plain_dump ok_env sample_query
        (failing_open (Opaque ''archive closed'') view_intent) None None
       = ([Call ''intent.BSONFile.Open'' [AStr ''db.v'']],
          Returns (0, Some (Opaque ''archive closed'')))"
proof -
  let ?cfile = "ok_stream\<lparr> Close_result := Some (Opaque ''broken pipe'') \<rparr>"
  let ?ofile = "ok_stream\<lparr> Open_result := Some (Opaque ''archive closed'') \<rparr>"
  let ?c = "failing_close (Opaque ''broken pipe'') view_intent"
  let ?o = "failing_open (Opaque ''archive closed'') view_intent"
  have v: "\<not> ViewsAsCollections (OutputOptions plain_dump)"
    by (simp add: plain_dump_def)
  have h: "BSONFile view_intent = Some ok_stream" "IsView view_intent"
    by (simp_all add: view_intent_def plain_intent_def)
  have o: "Open_result ok_stream = None" "Close_result ok_stream = None"
    "I_Namespace view_intent = ''db.v''"
    by (simp_all add: ok_stream_def view_intent_def plain_intent_def)
  have hc: "BSONFile ?c = Some ?cfile" "IsView ?c"
    by (simp_all add: failing_close_def view_intent_def plain_intent_def)
  have oc: "Open_result ?cfile = None" "Close_result ?cfile = Some (Opaque ''broken pipe'')"
    "I_Namespace ?c = ''db.v''"
    by (simp_all add: ok_stream_def failing_close_def view_intent_def plain_intent_def)
  have ho: "BSONFile ?o = Some ?ofile" "IsView ?o"
    by (simp_all add: failing_open_def view_intent_def plain_intent_def)
  have oo: "Open_result ?ofile = Some (Opaque ''archive closed'')" "I_Namespace ?o = ''db.v''"
    by (simp_all add: ok_stream_def failing_open_def view_intent_def plain_intent_def)
  from view_dump_opens_and_closes_empty_stream
         [OF h v, of ok_env sample_query "Some BufioWriter" None] o
  have a: "trace (dumpValidatedQueryToIntent plain_dump ok_env sample_query view_intent
            (Some BufioWriter) None) =
     [Call ''intent.BSONFile.Open'' [AStr ''db.v''], Call ''intent.BSONFile.Close'' [AStr ''db.v'']]"
    and b: "result (dumpValidatedQueryToIntent plain_dump ok_env sample_query view_intent
               (Some BufioWriter) None) = Returns (0, None)"
    by simp_all
  from view_dump_opens_and_closes_empty_stream [OF hc v, of ok_env sample_query None None] oc
  have c: "result (dumpValidatedQueryToIntent plain_dump ok_env sample_query ?c None None)
       = Returns (0, Some (Errorf ''error writing data for collection `%v` to disk: %v''
                             [AStr ''db.v'', AErr (Opaque ''broken pipe'')]))"
    by simp
  from view_dump_opens_and_closes_empty_stream [OF ho v, of ok_env sample_query None None] oo
  have d: "dumpValidatedQueryToIntent plain_dump ok_env sample_query ?o None None
       = ([Call ''intent.BSONFile.Open'' [AStr ''db.v'']],
          Returns (0, Some (Opaque ''archive closed'')))"
    by simp
  from a b c d show ?thesis by simp
qed

text \<open>
  The claim as the specification words it (every such dump returns success) fails when
  closing the stream fails: the deferred close turns the close error into the result.
\<close>

theorem view_dump_close_error_counterexample:
  "IsView (failing_close (Opaque ''disk full'') view_intent)
   \<and> \<not> ViewsAsCollections (OutputOptions plain_dump)
   \<and> result (dumpValidatedQueryToIntent plain_dump ok_env sample_query
               (failing_close (Opaque ''disk full'') view_intent) (Some BufioWriter) None)
       = Returns (0, Some (Errorf ''error writing data for collection `%v` to disk: %v''
                             [AStr ''db.v'', AErr (Opaque ''disk full'')]))
   \<and> result (dumpValidatedQueryToIntent plain_dump ok_env sample_query
               (failing_close (Opaque ''disk full'') view_intent) (Some BufioWriter) None)
       \<noteq> Returns (0, None)"
proof -
  let ?file = "ok_stream\<lparr> Close_result := Some (Opaque ''disk full'') \<rparr>"
  let ?intent = "failing_close (Opaque ''disk full'') view_intent"
  have h: "BSONFile ?intent = Some ?file" "IsView ?intent"
    "\<not> ViewsAsCollections (OutputOptions plain_dump)"
    by (simp_all add: failing_close_def view_intent_def plain_intent_def plain_dump_def)
  have o: "Open_result ?file = None" "Close_result ?file = Some (Opaque ''disk full'')"
    "I_Namespace ?intent = ''db.v''"
    by (simp_all add: ok_stream_def failing_close_def view_intent_def plain_intent_def)
  show ?thesis
    using h(2,3) o by (simp add: view_dump_run [OF h] result_def surfaceCloseErr_def)
qed

subsection \<open>No error is ever logged by the dump of one intent\<close>

lemma silent_ret: "silent_about e (ret x)"
  by (simp add: silent_about_def ret_def logs_error_simps)

lemma silent_panic: "silent_about e (panic s)"
  by (simp add: silent_about_def panic_def logs_error_simps)

lemma silent_call:
  "silent_about e (call (Call c args) a)"
  "silent_about e (call (CallBytes c n b) a)"
  by (simp_all add: silent_about_def call_def logs_error_simps)

lemma silent_logvf: "AErr e \<notin> set args \<Longrightarrow> silent_about e (logvf v fmt args)"
  by (simp add: silent_about_def logvf_def call_def logs_error_simps)

lemma silent_bind:
  "silent_about e m \<Longrightarrow> (\<And>x. silent_about e (f x)) \<Longrightarrow> silent_about e (io_bind m f)"
  unfolding silent_about_def
  by (cases m; cases "snd m") (auto simp: io_bind_pair logs_error_append)

lemma silent_seq:
  "silent_about e m \<Longrightarrow> silent_about e k \<Longrightarrow> silent_about e (io_seq m k)"
  by (simp add: io_seq_def silent_bind)

lemma silent_when:
  "silent_about e m \<Longrightarrow> silent_about e (when_io b m)"
  by (simp add: when_io_def silent_ret)

lemma silent_deferClose:
  "silent_about e body \<Longrightarrow> silent_about e (deferClose intent (Call c args) ans body)"
  unfolding deferClose_def
  by (auto intro!: silent_bind silent_call silent_ret)

lemmas silent_intros = silent_ret silent_panic silent_call silent_bind silent_seq silent_when
  silent_deferClose

lemma silent_iterLoop:
  "silent_about e (iterLoop (writeTo env intent file buffer) closing k sends)"
proof (induction sends arbitrary: k)
  case Nil
  show ?case
    by (cases closing) (auto intro!: silent_intros split: option.splits)
next
  case (Cons s sends)
  obtain actions d where s: "s = (actions, d)" by (cases s)
  have w: "silent_about e (writeTo env intent file buffer k d)"
    by (simp add: writeTo_def silent_call split: option.splits)
  show ?case
    unfolding s using Cons w
    by (auto intro!: silent_intros split: option.splits)
qed

text \<open>
  The producer only calls \<^verbatim>\<open>iter.Next\<close> and logs that it terminates.
\<close>

lemma producer_actions:
  "set (concat (map fst (fst (producer notif v ie k ds)))) \<union> set (fst (snd (producer notif v ie k ds)))
     \<subseteq> {Call ''iter.Next'' [], Logvf DebugHigh ''terminating writes'' []}"
proof (induction ds arbitrary: k)
  case Nil
  show ?case by simp
next
  case (Cons d ds)
  obtain sends closing where p: "producer notif v ie (Suc k) ds = (sends, closing)"
    by (cases "producer notif v ie (Suc k) ds")
  from Cons[of "Suc k"] show ?case
    unfolding p by (cases closing) (auto simp: p split: option.splits)
qed

lemma producerTrace_actions:
  "set (producerTrace (producer notif v ie k ds) n)
     \<subseteq> {Call ''iter.Next'' [], Logvf DebugHigh ''terminating writes'' []}"
proof -
  have "set (producerTrace p n) \<subseteq> set (concat (map fst (fst p))) \<union> set (fst (snd p))" for p :: handoffs
    by (auto simp: producerTrace_def dest: in_set_takeD)
  with producer_actions[of notif v ie k ds] show ?thesis by blast
qed

lemma producer_silent: "\<not> logs_error e (producerTrace (producer notif v ie k ds) n)"
  using producerTrace_actions[of notif v ie k ds n]
  by (auto simp: logs_error_def list_ex_iff)

lemma silent_getCount: "silent_about e (getCount dump env q intent)"
  unfolding getCount_def
  by (auto intro!: silent_intros silent_logvf split: sum.splits)

lemma silent_dumpRecords: "silent_about e (dumpRecords env q intent file buffer v)"
  unfolding dumpRecords_def dumpValidatedIterToWriter_def
  by (auto intro!: silent_intros silent_iterLoop split: sum.splits prod.splits)

lemma silent_dumpValidatedQueryToIntent:
  "silent_about e (dumpValidatedQueryToIntent dump env q intent buffer validator)"
  unfolding dumpValidatedQueryToIntent_def
  by (auto intro!: silent_intros silent_getCount silent_dumpRecords
        split: option.splits prod.splits)


subsection \<open>Close errors\<close>

text \<open>
  The answers of the two close operations influence nothing but the final error: the
  other collaborators are asked the same questions in the same order.
\<close>

lemma getCount_closes_ok:
  "getCount dump (buffer_closes_ok env) q (closes_ok intent) = getCount dump env q intent"
  by (simp add: getCount_def buffer_closes_ok_def closes_ok_def docPlural_def
        cong: sum.case_cong if_cong)

lemma writeTo_closes_ok:
  "writeTo (buffer_closes_ok env) (closes_ok intent) (file\<lparr> Close_result := None \<rparr>) buffer
     = writeTo env intent file buffer"
  by (intro ext) (simp add: writeTo_def buffer_closes_ok_def closes_ok_def split: option.splits)

lemma dumpRecords_closes_ok:
  "dumpRecords (buffer_closes_ok env) q (closes_ok intent) (file\<lparr> Close_result := None \<rparr>) buffer v
     = dumpRecords env q intent file buffer v"
proof -
  have a: "\<And>c w. dumpValidatedIterToWriter (buffer_closes_ok env) c w v
                 = dumpValidatedIterToWriter env c w v"
    by (simp add: dumpValidatedIterToWriter_def buffer_closes_ok_def)
  have b: "Iter (buffer_closes_ok env) = Iter env"
    "I_Namespace (closes_ok intent) = I_Namespace intent"
    by (simp_all add: buffer_closes_ok_def closes_ok_def)
  show ?thesis
    unfolding dumpRecords_def writeTo_closes_ok a b by (rule refl)
qed

lemma close_errors_structure:
  assumes "BSONFile intent = Some file"
  shows "dumpValidatedQueryToIntent dump env q intent buffer validator =
      (case dumpValidatedQueryToIntent dump (buffer_closes_ok env) q (closes_ok intent) buffer validator of
         (t, Panics s) \<Rightarrow> (t, Panics s)
       | (t, Returns (n, Some e)) \<Rightarrow> (t, Returns (n, Some e))
       | (t, Returns (n, None)) \<Rightarrow>
           (t, Returns (n, surfaceCloseErr intent
                  (surfaceCloseErr intent None
                     (if buffer \<noteq> None \<and> \<not> (IsView intent \<and> \<not> ViewsAsCollections (OutputOptions dump))
                      then Buffer_Close env else None))
                  (Close_result file))))"
proof -
  have c: "BSONFile (closes_ok intent) = Some (file\<lparr> Close_result := None \<rparr>)"
    "I_Namespace (closes_ok intent) = I_Namespace intent"
    "IsView (closes_ok intent) = IsView intent"
    "Buffer_Close (buffer_closes_ok env) = None"
    "Open_result (file\<lparr> Close_result := None \<rparr>) = Open_result file"
    "Close_result (file\<lparr> Close_result := None \<rparr>) = None"
    "\<And>x y. surfaceCloseErr (closes_ok intent) x y = surfaceCloseErr intent x y"
    "\<And>ev a m. deferClose (closes_ok intent) ev a m = deferClose intent ev a m"
    using assms by (simp_all add: closes_ok_def buffer_closes_ok_def surfaceCloseErr_def deferClose_def
        cong: option.case_cong)
  obtain tg og where g: "getCount dump env q intent = (tg, og)"
    by (cases "getCount dump env q intent")
  obtain tr or where r: "dumpRecords env q intent file buffer validator = (tr, or)"
    by (cases "dumpRecords env q intent file buffer validator")
  show ?thesis
    unfolding dumpValidatedQueryToIntent_def assms c getCount_closes_ok dumpRecords_closes_ok
      option.case g r
    by (cases "Open_result file"; cases og; cases "or"; cases buffer)
       (auto simp: io_bind_call io_bind_pair io_seq_call io_seq_when deferClose_pair
          surfaceCloseErr_simps ret_def split: option.splits)
qed

text \<open>
  Claim C7, as the code has it. Compare the dump of an intent with the same dump in which
  both closes succeed (the outcome of the phase up to the last write). The two runs
  perform exactly the same actions, and no log line of either, nor of the producer
  goroutine, carries an error: a close error is never logged. If the write phase ended
  with an error, that error is the result whatever the closes answer. If the write phase
  succeeded: when a local buffer is in use (and the intent is not a view dumped as a
  view) and closing it fails, the result is that error, wrapped; otherwise, when closing
  the data stream fails, the result is that error, wrapped; otherwise the result is
  success.
\<close>

theorem close_errors_after_write_phase:
  assumes "BSONFile intent = Some file"
  shows "trace (dumpValidatedQueryToIntent dump env q intent buffer validator)
           = trace (dumpValidatedQueryToIntent dump (buffer_closes_ok env) q (closes_ok intent)
                      buffer validator)
       \<and> silent_about ce (dumpValidatedQueryToIntent dump env q intent buffer validator)
       \<and> (\<forall>c n. \<not> logs_error ce
                     (producerTrace (producer (notified env) validator (Err c) 0 (docs c)) n))
       \<and> (\<forall>n e. result (dumpValidatedQueryToIntent dump (buffer_closes_ok env) q (closes_ok intent)
                              buffer validator) = Returns (n, Some e)
              \<longrightarrow> result (dumpValidatedQueryToIntent dump env q intent buffer validator)
                    = Returns (n, Some e))
       \<and> (\<forall>n. result (dumpValidatedQueryToIntent dump (buffer_closes_ok env) q (closes_ok intent)
                            buffer validator) = Returns (n, None)
              \<longrightarrow> (\<forall>be. buffer \<noteq> None
                          \<and> \<not> (IsView intent \<and> \<not> ViewsAsCollections (OutputOptions dump))
                          \<and> Buffer_Close env = Some be
                      \<longrightarrow> result (dumpValidatedQueryToIntent dump env q intent buffer validator)
                            = Returns (n, Some (Errorf
                                ''error writing data for collection `%v` to disk: %v''
                                [AStr (I_Namespace intent), AErr be])))
                \<and> (\<forall>se. (buffer = None
                           \<or> (IsView intent \<and> \<not> ViewsAsCollections (OutputOptions dump))
                           \<or> Buffer_Close env = None)
                          \<and> Close_result file = Some se
                      \<longrightarrow> result (dumpValidatedQueryToIntent dump env q intent buffer validator)
                            = Returns (n, Some (Errorf
                                ''error writing data for collection `%v` to disk: %v''
                                [AStr (I_Namespace intent), AErr se])))
                \<and> ((buffer = None
                      \<or> (IsView intent \<and> \<not> ViewsAsCollections (OutputOptions dump))
                      \<or> Buffer_Close env = None)
                     \<and> Close_result file = None
                      \<longrightarrow> result (dumpValidatedQueryToIntent dump env q intent buffer validator)
                            = Returns (n, None)))"
proof -
  let ?D = "dumpValidatedQueryToIntent dump env q intent buffer validator"
  obtain t0 r0 where r0: "dumpValidatedQueryToIntent dump (buffer_closes_ok env) q (closes_ok intent)
                            buffer validator = (t0, r0)"
    by (cases "dumpValidatedQueryToIntent dump (buffer_closes_ok env) q (closes_ok intent)
                 buffer validator")
  note st = close_errors_structure [OF assms, of dump env q buffer validator]
  have silent: "silent_about ce ?D"
    by (rule silent_dumpValidatedQueryToIntent)
  show ?thesis
  proof (cases r0)
    case (Panics s)
    have run: "?D = (t0, Panics s)"
      unfolding st r0 Panics by simp
    note s' = silent[unfolded run]
    show ?thesis
      unfolding r0 run Panics
      by (simp add: trace_def result_def s' producer_silent)
  next
    case (Returns x)
    obtain n err where x: "x = (n, err)" by (cases x)
    show ?thesis
    proof (cases err)
      case (Some e)
      have run: "?D = (t0, Returns (n, Some e))"
        unfolding st r0 Returns x Some by simp
      note s' = silent[unfolded run]
      show ?thesis
        unfolding r0 run Returns x Some
        by (simp add: trace_def result_def s' producer_silent)
    next
      case None
      have run: "?D = (t0, Returns (n, surfaceCloseErr intent
                  (surfaceCloseErr intent None
                     (if buffer \<noteq> None \<and> \<not> (IsView intent \<and> \<not> ViewsAsCollections (OutputOptions dump))
                      then Buffer_Close env else None))
                  (Close_result file)))"
        unfolding st r0 Returns x None by simp
      note s' = silent[unfolded run]
      show ?thesis
        unfolding r0 run Returns x None
        using s'
        by (auto simp: trace_def result_def producer_silent surfaceCloseErr_def)
    qed
  qed
qed

theorem close_errors_after_write_phase_witness:
  "result (dumpValidatedQueryToIntent plain_dump ok_env sample_query
             (failing_close (Opaque ''disk full'') (failing_write (Opaque ''EIO'') plain_intent))
             None None)
     = Returns (0, Some (Errorf ''error writing data for collection `%v` to disk: %v''
                           [AStr ''db.c'',
                            AErr (Errorf ''error writing to file: %v'' [AErr (Opaque ''EIO'')])]))
   \<and> result (dumpValidatedQueryToIntent plain_dump ok_env sample_query
               (failing_close (Opaque ''disk full'') plain_intent) None None)
     = Returns (2, Some (Errorf ''error writing data for collection `%v` to disk: %v''
                           [AStr ''db.c'', AErr (Opaque ''disk full'')]))
   \<and> result (dumpValidatedQueryToIntent plain_dump
               (failing_buffer_close (Opaque ''flush failed'') ok_env) sample_query
               (failing_close (Opaque ''disk full'') plain_intent) (Some BufioWriter) None)
     = Returns (2, Some (Errorf ''error writing data for collection `%v` to disk: %v''
                           [AStr ''db.c'', AErr (Opaque ''flush failed'')]))"
proof -
  let ?bad = "failing_close (Opaque ''disk full'') (failing_write (Opaque ''EIO'') plain_intent)"
  let ?badfile = "ok_stream\<lparr> Write_result := (\<lambda>k. Some (Opaque ''EIO'')),
                              Close_result := Some (Opaque ''disk full'') \<rparr>"
  let ?late = "failing_close (Opaque ''disk full'') plain_intent"
  let ?latefile = "ok_stream\<lparr> Close_result := Some (Opaque ''disk full'') \<rparr>"
  let ?benv = "failing_buffer_close (Opaque ''flush failed'') ok_env"
  have f1: "BSONFile ?bad = Some ?badfile"
    by (simp add: failing_close_def failing_write_def plain_intent_def)
  have w1: "result (dumpValidatedQueryToIntent plain_dump (buffer_closes_ok ok_env) sample_query
                      (closes_ok ?bad) None None)
              = Returns (0, Some (Errorf ''error writing data for collection `%v` to disk: %v''
                           [AStr ''db.c'',
                            AErr (Errorf ''error writing to file: %v'' [AErr (Opaque ''EIO'')])]))"
    by code_simp
  have f2: "BSONFile ?late = Some ?latefile"
    by (simp add: failing_close_def plain_intent_def)
  have w2: "result (dumpValidatedQueryToIntent plain_dump (buffer_closes_ok ok_env) sample_query
                      (closes_ok ?late) None None) = Returns (2, None)"
    by code_simp
  have w3: "result (dumpValidatedQueryToIntent plain_dump (buffer_closes_ok ?benv) sample_query
                      (closes_ok ?late) (Some BufioWriter) None) = Returns (2, None)"
    by code_simp
  have c2: "Close_result ?latefile = Some (Opaque ''disk full'')" "I_Namespace ?late = ''db.c''"
    "\<not> IsView ?late"
    by (simp_all add: failing_close_def plain_intent_def)
  have c3: "Buffer_Close ?benv = Some (Opaque ''flush failed'')"
    by (simp add: failing_buffer_close_def)
  from close_errors_after_write_phase [OF f1, of plain_dump ok_env sample_query None None] w1
  have a: "result (dumpValidatedQueryToIntent plain_dump ok_env sample_query ?bad None None)
     = Returns (0, Some (Errorf ''error writing data for collection `%v` to disk: %v''
                           [AStr ''db.c'',
                            AErr (Errorf ''error writing to file: %v'' [AErr (Opaque ''EIO'')])]))"
    by blast
  from close_errors_after_write_phase [OF f2, of plain_dump ok_env sample_query None None] w2
  have "\<forall>se. (None = (None :: buffer_kind option)
                \<or> (IsView ?late \<and> \<not> ViewsAsCollections (OutputOptions plain_dump))
                \<or> Buffer_Close ok_env = None)
               \<and> Close_result ?latefile = Some se
           \<longrightarrow> result (dumpValidatedQueryToIntent plain_dump ok_env sample_query ?late None None)
                 = Returns (2, Some (Errorf ''error writing data for collection `%v` to disk: %v''
                                       [AStr (I_Namespace ?late), AErr se]))"
    by blast
  with c2 have b: "result (dumpValidatedQueryToIntent plain_dump ok_env sample_query ?late None None)
     = Returns (2, Some (Errorf ''error writing data for collection `%v` to disk: %v''
                           [AStr ''db.c'', AErr (Opaque ''disk full'')]))"
    by simp
  from close_errors_after_write_phase
         [OF f2, of plain_dump ?benv sample_query "Some BufioWriter" None] w3
  have "\<forall>be. Some BufioWriter \<noteq> None
                \<and> \<not> (IsView ?late \<and> \<not> ViewsAsCollections (OutputOptions plain_dump))
                \<and> Buffer_Close ?benv = Some be
           \<longrightarrow> result (dumpValidatedQueryToIntent plain_dump ?benv sample_query ?late
                         (Some BufioWriter) None)
                 = Returns (2, Some (Errorf ''error writing data for collection `%v` to disk: %v''
                                       [AStr (I_Namespace ?late), AErr be]))"
    by blast
  with c2 c3 have c: "result (dumpValidatedQueryToIntent plain_dump ?benv sample_query ?late
                         (Some BufioWriter) None)
     = Returns (2, Some (Errorf ''error writing data for collection `%v` to disk: %v''
                           [AStr ''db.c'', AErr (Opaque ''flush failed'')]))"
    by simp
  from a b c show ?thesis by simp
qed

text \<open>
  The claim as the specification words it has the close error logged. In this run the
  write fails, then the close fails; the result is the write error, the data stream has
  been closed, and the only log lines of the run are those of the count, none of which
  mentions the close error; the producer goroutine logs nothing.
\<close>

theorem close_error_not_logged_counterexample:
  "result (dumpValidatedQueryToIntent plain_dump ok_env sample_query
             (failing_close (Opaque ''disk full'') (failing_write (Opaque ''EIO'') plain_intent))
             None None)
     = Returns (0, Some (Errorf ''error writing data for collection `%v` to disk: %v''
                           [AStr ''db.c'',
                            AErr (Errorf ''error writing to file: %v'' [AErr (Opaque ''EIO'')])]))
   \<and> list_ex (\<lambda>ev. ev = Call ''intent.BSONFile.Close'' [AStr ''db.c''])
         (trace (dumpValidatedQueryToIntent plain_dump ok_env sample_query
                   (failing_close (Opaque ''disk full'') (failing_write (Opaque ''EIO'') plain_intent))
                   None None))
   \<and> \<not> logs_error (Opaque ''disk full'')
         (trace (dumpValidatedQueryToIntent plain_dump ok_env sample_query
                   (failing_close (Opaque ''disk full'') (failing_write (Opaque ''EIO'') plain_intent))
                   None None))
   \<and> filter (\<lambda>ev. case ev of Logvf v fmt args \<Rightarrow> True | _ \<Rightarrow> False)
         (trace (dumpValidatedQueryToIntent plain_dump ok_env sample_query
                   (failing_close (Opaque ''disk full'') (failing_write (Opaque ''EIO'') plain_intent))
                   None None))
     = [Logvf DebugHigh ''Getting estimated count for %v.%v'' [AStr ''db'', AStr ''c''],
        Logvf DebugLow ''counted %v %v in %v'' [AInt 2, AStr ''documents'', AStr ''db.c'']]
   \<and> producerTrace (producer (notified ok_env) None None 0 [[1], [2, 3]]) 1
     = [Call ''iter.Next'' [], Call ''iter.Next'' []]"
  by code_simp

section \<open>Properties of the query translation for timeseries collections\<close>

lemma SplitN2_cases:
  "(SplitN2 k c = [k] \<and> c \<notin> set k \<and> takeWhile (\<lambda>x. x \<noteq> c) k = k)
   \<or> (\<exists>sub. SplitN2 k c = [takeWhile (\<lambda>x. x \<noteq> c) k, sub] \<and> k = takeWhile (\<lambda>x. x \<noteq> c) k @ c # sub)"
proof (cases "dropWhile (\<lambda>x. x \<noteq> c) k")
  case Nil
  then have all: "\<forall>x\<in>set k. x \<noteq> c" by (simp add: dropWhile_eq_Nil_conv)
  then have "takeWhile (\<lambda>x. x \<noteq> c) k = k" by (simp add: takeWhile_eq_all_conv)
  moreover have "SplitN2 k c = [k]" unfolding SplitN2_def Nil by simp
  moreover have "c \<notin> set k" using all by blast
  ultimately show ?thesis by blast
next
  case (Cons a rest)
  then have "a = c" using hd_dropWhile[of "\<lambda>x. x \<noteq> c" k] by force
  moreover have "k = takeWhile (\<lambda>x. x \<noteq> c) k @ dropWhile (\<lambda>x. x \<noteq> c) k" by simp
  moreover have "SplitN2 k c = [takeWhile (\<lambda>x. x \<noteq> c) k, rest]" unfolding SplitN2_def Cons by simp
  ultimately show ?thesis using Cons by metis
qed

lemma rewritePredicates_all_meta:
  "\<forall>p\<in>set q. first_segment (fst p) = K \<Longrightarrow>
     rewritePredicates K done q = ret (done @ map (\<lambda>(k, v). (metaName k, v)) q, True)"
proof (induction q arbitrary: "done")
  case Nil
  then show ?case by simp
next
  case (Cons p q)
  obtain k v where p: "p = (k, v)" by (cases p)
  from Cons.prems p have fs: "first_segment k = K" and rest: "\<forall>p\<in>set q. first_segment (fst p) = K"
    by auto
  from SplitN2_cases[of k "CHR ''.''"] show ?case
  proof (elim disjE exE conjE)
    assume s: "SplitN2 k (CHR ''.'') = [k]" and t: "takeWhile (\<lambda>x. x \<noteq> CHR ''.'') k = k"
    from fs t have kK: "k = K" by (simp add: first_segment_def)
    have m: "metaName k = ''meta''" using s by (simp add: metaName_def)
    have "rewritePredicates K done ((k, v) # q) = rewritePredicates K (done @ [(''meta'', v)]) q"
      using s kK by simp
    also have "\<dots> = ret ((done @ [(''meta'', v)]) @ map (\<lambda>(k, v). (metaName k, v)) q, True)"
      by (rule Cons.IH[OF rest])
    finally show ?thesis using p m by simp
  next
    fix sub assume s: "SplitN2 k (CHR ''.'') = [takeWhile (\<lambda>x. x \<noteq> CHR ''.'') k, sub]"
    have m: "metaName k = ''meta.'' @ sub" using s by (simp add: metaName_def)
    have "rewritePredicates K done ((k, v) # q) = rewritePredicates K (done @ [(''meta.'' @ sub, v)]) q"
      using s fs by (simp add: first_segment_def)
    also have "\<dots> = ret ((done @ [(''meta.'' @ sub, v)]) @ map (\<lambda>(k, v). (metaName k, v)) q, True)"
      by (rule Cons.IH[OF rest])
    finally show ?thesis using p m by simp
  qed
qed



lemma rewritePredicates_step:
  "rewritePredicates K done ((k, v) # q) =
     (if first_segment k \<noteq> K then ret (done @ (k, v) # q, False)
      else rewritePredicates K (done @ [(metaName k, v)]) q)"
proof -
  from SplitN2_cases[of k "CHR ''.''"]
  consider (one) "SplitN2 k (CHR ''.'') = [k]" "takeWhile (\<lambda>x. x \<noteq> CHR ''.'') k = k"
    | (two) sub where "SplitN2 k (CHR ''.'') = [takeWhile (\<lambda>x. x \<noteq> CHR ''.'') k, sub]"
    by blast
  then show ?thesis
  proof cases
    case one
    have fk: "first_segment k = k" using one(2) unfolding first_segment_def .
    have m: "metaName k = ''meta''" using one(1) by (simp add: metaName_def)
    show ?thesis using one(1) fk m by auto
  next
    case two
    have sp: "SplitN2 k (CHR ''.'') = [first_segment k, sub]" using two unfolding first_segment_def .
    have m: "metaName k = ''meta.'' @ sub" using sp by (simp add: metaName_def)
    show ?thesis using sp m by auto
  qed
qed

lemma rewritePredicates_reject:
  "\<exists>p\<in>set q. first_segment (fst p) \<noteq> K \<Longrightarrow>
     \<exists>q'. rewritePredicates K done q = ret (q', False)"
proof (induction q arbitrary: "done")
  case Nil
  then show ?case by simp
next
  case (Cons p q)
  obtain k v where p: "p = (k, v)" by (cases p)
  show ?case
  proof (cases "first_segment k = K")
    case True
    with Cons.prems p have "\<exists>p\<in>set q. first_segment (fst p) \<noteq> K" by simp
    from Cons.IH[OF this, of "done @ [(metaName k, v)]"] True p show ?thesis
      by (simp only: rewritePredicates_step simp_thms if_False)
  next
    case False
    with p show ?thesis by (simp only: rewritePredicates_step simp_thms if_True) blast
  qed
qed

lemma metaName_exact: "first_segment K = K \<Longrightarrow> metaName K = ''meta''"
proof -
  assume a: "first_segment K = K"
  from SplitN2_cases[of K "CHR ''.''"] show ?thesis
  proof (elim disjE exE conjE)
    assume "SplitN2 K (CHR ''.'') = [K]"
    then show ?thesis by (simp add: metaName_def)
  next
    fix sub assume "K = takeWhile (\<lambda>x. x \<noteq> CHR ''.'') K @ CHR ''.'' # sub"
    then have "length K = length (takeWhile (\<lambda>x. x \<noteq> CHR ''.'') K @ CHR ''.'' # sub)" by simp
    moreover from a have "length (takeWhile (\<lambda>x. x \<noteq> CHR ''.'') K) = length K"
      by (simp only: first_segment_def)
    ultimately have False by simp
    then show ?thesis ..
  qed
qed

lemma metaName_sub:
  "first_segment (K @ ''.'' @ sub) = K \<Longrightarrow> metaName (K @ ''.'' @ sub) = ''meta.'' @ sub"
proof -
  assume a: "first_segment (K @ ''.'' @ sub) = K"
  let ?k = "K @ ''.'' @ sub"
  from SplitN2_cases[of ?k "CHR ''.''"] show ?thesis
  proof (elim disjE exE conjE)
    assume "CHR ''.'' \<notin> set ?k" then show ?thesis by simp
  next
    fix s assume s: "SplitN2 ?k (CHR ''.'') = [takeWhile (\<lambda>x. x \<noteq> CHR ''.'') ?k, s]"
      and k: "?k = takeWhile (\<lambda>x. x \<noteq> CHR ''.'') ?k @ CHR ''.'' # s"
    from a have "takeWhile (\<lambda>x. x \<noteq> CHR ''.'') ?k = K" by (simp only: first_segment_def)
    with k have "K @ ''.'' @ sub = K @ CHR ''.'' # s" by (simp only:)
    then have "s = sub" by simp
    with s show ?thesis by (simp add: metaName_def)
  qed
qed


lemma map_meta_props:
  assumes "\<forall>p\<in>set q. first_segment (fst p) = K" and "i < length q"
  shows "snd (map (\<lambda>(k, v). (metaName k, v)) q ! i) = snd (q ! i)"
    and "fst (q ! i) = K \<Longrightarrow> fst (map (\<lambda>(k, v). (metaName k, v)) q ! i) = ''meta''"
    and "fst (q ! i) = K @ ''.'' @ sub
           \<Longrightarrow> fst (map (\<lambda>(k, v). (metaName k, v)) q ! i) = ''meta.'' @ sub"
proof -
  obtain k v where kv: "q ! i = (k, v)" by (cases "q ! i")
  with assms have fs: "first_segment k = K" by (metis fst_conv nth_mem)
  have m: "map (\<lambda>(k, v). (metaName k, v)) q ! i = (metaName k, v)" using assms(2) kv by simp
  show "snd (map (\<lambda>(k, v). (metaName k, v)) q ! i) = snd (q ! i)"
    unfolding m kv by simp
  show "fst (q ! i) = K \<Longrightarrow> fst (map (\<lambda>(k, v). (metaName k, v)) q ! i) = ''meta''"
    unfolding m kv using fs metaName_exact by auto
  show "fst (q ! i) = K @ ''.'' @ sub
           \<Longrightarrow> fst (map (\<lambda>(k, v). (metaName k, v)) q ! i) = ''meta.'' @ sub"
    unfolding m kv using fs metaName_sub by auto
qed

theorem DumpIntent_timeseries_query:
  assumes "GetSession env = None" and "query dump \<noteq> []" and "IsTimeseries intent"
    and "FindSubdocumentByKey env ''timeseries'' (Options intent) = Inr tsOpts"
    and "FindStringValueByKey env ''metaField'' tsOpts = Inr K"
  shows "((\<forall>p\<in>set (query dump). first_segment (fst p) = K) \<longrightarrow>
           (\<exists>q'. length q' = length (query dump)
              \<and> (\<forall>i<length q'. snd (q' ! i) = snd (query dump ! i)
                    \<and> (fst (query dump ! i) = K \<longrightarrow> fst (q' ! i) = ''meta'')
                    \<and> (\<forall>sub. fst (query dump ! i) = K @ ''.'' @ sub \<longrightarrow> fst (q' ! i) = ''meta.'' @ sub))
              \<and> DumpIntent dump env intent buffer =
                  io_bind (call (Call ''SessionProvider.GetSession'' []) ()) (\<lambda>_.
                  io_bind (DumpIntent_output (dump\<lparr> query := q' \<rparr>) env
                             ((findQuery_for intent)\<lparr> Filter := Some q' \<rparr>) intent buffer)
                    (\<lambda>err. ret (dump\<lparr> query := q' \<rparr>, err)))))
       \<and> ((\<exists>p\<in>set (query dump). first_segment (fst p) \<noteq> K) \<longrightarrow>
             trace (DumpIntent dump env intent buffer) = [Call ''SessionProvider.GetSession'' []]
           \<and> (\<exists>d' e. result (DumpIntent dump env intent buffer) = Returns (d', Some e)))"
proof (intro conjI impI)
  assume all: "\<forall>p\<in>set (query dump). first_segment (fst p) = K"
  let ?q' = "map (\<lambda>(k, v). (metaName k, v)) (query dump)"
  have rw: "rewritePredicates K [] (query dump) = ret (?q', True)"
    using rewritePredicates_all_meta[OF all, of "[]"] by simp
  have run: "DumpIntent dump env intent buffer =
                  io_bind (call (Call ''SessionProvider.GetSession'' []) ()) (\<lambda>_.
                  io_bind (DumpIntent_output (dump\<lparr> query := ?q' \<rparr>) env
                             ((findQuery_for intent)\<lparr> Filter := Some ?q' \<rparr>) intent buffer)
                    (\<lambda>err. ret (dump\<lparr> query := ?q' \<rparr>, err)))"
    unfolding DumpIntent_def using assms rw by (simp add: io_bind_call)
  show "\<exists>q'. length q' = length (query dump)
              \<and> (\<forall>i<length q'. snd (q' ! i) = snd (query dump ! i)
                    \<and> (fst (query dump ! i) = K \<longrightarrow> fst (q' ! i) = ''meta'')
                    \<and> (\<forall>sub. fst (query dump ! i) = K @ ''.'' @ sub \<longrightarrow> fst (q' ! i) = ''meta.'' @ sub))
              \<and> DumpIntent dump env intent buffer =
                  io_bind (call (Call ''SessionProvider.GetSession'' []) ()) (\<lambda>_.
                  io_bind (DumpIntent_output (dump\<lparr> query := q' \<rparr>) env
                             ((findQuery_for intent)\<lparr> Filter := Some q' \<rparr>) intent buffer)
                    (\<lambda>err. ret (dump\<lparr> query := q' \<rparr>, err)))"
  proof (intro exI[of _ ?q'] conjI allI impI)
    show "length ?q' = length (query dump)" by simp
    show "DumpIntent dump env intent buffer =
                  io_bind (call (Call ''SessionProvider.GetSession'' []) ()) (\<lambda>_.
                  io_bind (DumpIntent_output (dump\<lparr> query := ?q' \<rparr>) env
                             ((findQuery_for intent)\<lparr> Filter := Some ?q' \<rparr>) intent buffer)
                    (\<lambda>err. ret (dump\<lparr> query := ?q' \<rparr>, err)))" by (rule run)
  next
    fix i assume "i < length ?q'"
    then have i: "i < length (query dump)" by simp
    show "snd (?q' ! i) = snd (query dump ! i)" by (rule map_meta_props(1)[OF all i])
    show "fst (query dump ! i) = K \<Longrightarrow> fst (?q' ! i) = ''meta''"
      by (rule map_meta_props(2)[OF all i])
    show "\<And>sub. fst (query dump ! i) = K @ ''.'' @ sub \<Longrightarrow> fst (?q' ! i) = ''meta.'' @ sub"
      by (rule map_meta_props(3)[OF all i])
  qed
next
  assume ex: "\<exists>p\<in>set (query dump). first_segment (fst p) \<noteq> K"
  from rewritePredicates_reject[OF ex, of "[]"] obtain q' where
    rw: "rewritePredicates K [] (query dump) = ret (q', False)" by blast
  have "DumpIntent dump env intent buffer =
          ([Call ''SessionProvider.GetSession'' []],
           Returns (dump\<lparr> query := q' \<rparr>,
             Some (Errorf (''cannot process query %v for timeseries collection %s. '' @
                           ''mongodump only processes queries on metadata fields for timeseries collections.'')
                     [AQuery q', AStr (I_Namespace intent)])))"
    unfolding DumpIntent_def using assms rw by (simp add: io_bind_call) (simp add: ret_def)
  then show "trace (DumpIntent dump env intent buffer) = [Call ''SessionProvider.GetSession'' []]"
    and "\<exists>d' e. result (DumpIntent dump env intent buffer) = Returns (d', Some e)"
    by (simp_all add: trace_def result_def)
qed



theorem DumpIntent_timeseries_query_witness:
  "(\<exists>q'. fst (q' ! 0) = ''meta.tag'' \<and> fst (q' ! 1) = ''meta''
       \<and> DumpIntent (with_query meta_query plain_dump) ok_env timeseries_intent (Some BufioWriter) =
            io_bind (call (Call ''SessionProvider.GetSession'' []) ()) (\<lambda>_.
            io_bind (DumpIntent_output ((with_query meta_query plain_dump)\<lparr> query := q' \<rparr>) ok_env
                       ((findQuery_for timeseries_intent)\<lparr> Filter := Some q' \<rparr>)
                       timeseries_intent (Some BufioWriter))
              (\<lambda>err. ret ((with_query meta_query plain_dump)\<lparr> query := q' \<rparr>, err))))
   \<and> trace (DumpIntent (with_query mixed_query plain_dump) ok_env timeseries_intent
              (Some BufioWriter)) = [Call ''SessionProvider.GetSession'' []]"
proof -
  let ?opts = "[(''timeField'', BString ''t''), (''metaField'', BString ''m'')]"
  have env: "GetSession ok_env = None" "IsTimeseries timeseries_intent"
    "FindSubdocumentByKey ok_env ''timeseries'' (Options timeseries_intent) = Inr ?opts"
    "FindStringValueByKey ok_env ''metaField'' ?opts = Inr ''m''"
    by (simp_all add: ok_env_def timeseries_intent_def plain_intent_def find_value_def)
  have q1: "query (with_query meta_query plain_dump) \<noteq> []"
    and q2: "query (with_query mixed_query plain_dump) \<noteq> []"
    by (simp_all add: with_query_def meta_query_def mixed_query_def)
  have all1: "\<forall>p\<in>set (query (with_query meta_query plain_dump)). first_segment (fst p) = ''m''"
    by (simp add: with_query_def meta_query_def first_segment_def)
  have ex2: "\<exists>p\<in>set (query (with_query mixed_query plain_dump)). first_segment (fst p) \<noteq> ''m''"
    by (simp add: with_query_def mixed_query_def first_segment_def)
  have k0: "fst (query (with_query meta_query plain_dump) ! 0) = ''m'' @ ''.'' @ ''tag''"
    and k1: "fst (query (with_query meta_query plain_dump) ! 1) = ''m''"
    and len: "length (query (with_query meta_query plain_dump)) = 2"
    by (simp_all add: with_query_def meta_query_def)
  from DumpIntent_timeseries_query [OF env(1) q1 env(2,3,4), of "Some BufioWriter"] all1
  obtain q' where q': "length q' = length (query (with_query meta_query plain_dump))"
    and tr: "\<forall>i<length q'. snd (q' ! i) = snd (query (with_query meta_query plain_dump) ! i)
        \<and> (fst (query (with_query meta_query plain_dump) ! i) = ''m'' \<longrightarrow> fst (q' ! i) = ''meta'')
        \<and> (\<forall>sub. fst (query (with_query meta_query plain_dump) ! i) = ''m'' @ ''.'' @ sub
               \<longrightarrow> fst (q' ! i) = ''meta.'' @ sub)"
    and run: "DumpIntent (with_query meta_query plain_dump) ok_env timeseries_intent (Some BufioWriter) =
            io_bind (call (Call ''SessionProvider.GetSession'' []) ()) (\<lambda>_.
            io_bind (DumpIntent_output ((with_query meta_query plain_dump)\<lparr> query := q' \<rparr>) ok_env
                       ((findQuery_for timeseries_intent)\<lparr> Filter := Some q' \<rparr>)
                       timeseries_intent (Some BufioWriter))
              (\<lambda>err. ret ((with_query meta_query plain_dump)\<lparr> query := q' \<rparr>, err)))"
    by blast
  from q' len have l: "0 < length q'" "1 < length q'" by simp_all
  from tr l(1) k0 have a0: "fst (q' ! 0) = ''meta.'' @ ''tag''" by blast
  from tr l(2) k1 have a1: "fst (q' ! 1) = ''meta''" by blast
  from DumpIntent_timeseries_query [OF env(1) q2 env(2,3,4), of "Some BufioWriter"] ex2
  have b: "trace (DumpIntent (with_query mixed_query plain_dump) ok_env timeseries_intent
              (Some BufioWriter)) = [Call ''SessionProvider.GetSession'' []]"
    by blast
  from a0 a1 run b show ?thesis by auto
qed

section \<open>Properties of the worker pool\<close>

lemma receiveResults_calls:
  "name \<noteq> ''<-resultChan'' \<Longrightarrow> filter (is_call name) (fst (receiveResults chan i n)) = []"
proof (induction n arbitrary: i)
  case 0
  then show ?case by (simp add: ret_def)
next
  case (Suc n)
  then show ?case
    by (cases "chan i") (auto simp: io_bind_call is_call_def ret_def)
qed

lemma spawnWorkers_go:
  "filter (is_call ''go'') (fst (spawnWorkers n)) = map (\<lambda>i. Call ''go'' [AInt (int i)]) [0..<n]"
  "filter (is_call ''manager.Finalize'') (fst (spawnWorkers n)) = []"
  by (simp_all add: spawnWorkers_def is_call_def filter_map comp_def)

lemma io_seq_pair: "io_seq (t, Returns ()) m = (t @ fst m, snd m)"
  by (simp add: io_seq_def io_bind_pair)

text \<open>
  For a negative parallelism the channel cannot be made: the method panics after the
  manager has been finalized and starts no worker. Option validation rejects such a
  value before any dump starts.
\<close>

lemma DumpIntents_negative_jobs:
  assumes "NumParallelCollections (OutputOptions dump) < 0"
  shows "DumpIntents dump chan intents =
           ([Call ''manager.Finalize'' [APolicy Legacy]], Panics ''makechan: size out of range'')"
proof -
  have "\<not> NumParallelCollections (OutputOptions dump) > int (length intents)"
    using assms by simp
  then show ?thesis
    unfolding DumpIntents_def Let_def using assms
    by (simp add: io_seq_call panic_def)
qed

text \<open>
  Claim C4. For a parallelism that is not negative (validated options have it positive),
  \<^verbatim>\<open>DumpIntents\<close> starts exactly \<open>min numParallelCollections (number of intents)\<close>
  workers, with ids \<open>0, 1, ...\<close>, and finalizes the manager exactly once: with
  \<open>LongestTaskFirst\<close> when that number is greater than 1, with \<open>Legacy\<close> otherwise.
\<close>

theorem DumpIntents_workers_and_policy:
  assumes "0 \<le> NumParallelCollections (OutputOptions dump)"
  shows "filter (is_call ''go'') (trace (DumpIntents dump chan intents))
           = map (\<lambda>i. Call ''go'' [AInt (int i)])
               [0..<nat (min (NumParallelCollections (OutputOptions dump)) (int (length intents)))]
       \<and> int (length (filter (is_call ''go'') (trace (DumpIntents dump chan intents))))
           = min (NumParallelCollections (OutputOptions dump)) (int (length intents))
       \<and> filter (is_call ''manager.Finalize'') (trace (DumpIntents dump chan intents))
           = [Call ''manager.Finalize''
                [APolicy (if min (NumParallelCollections (OutputOptions dump)) (int (length intents)) > 1
                          then LongestTaskFirst else Legacy)]]"
proof -
  let ?N = "NumParallelCollections (OutputOptions dump)"
  let ?jobs = "min ?N (int (length intents))"
  have j: "(if ?N > int (length intents) then int (length intents) else ?N) = ?jobs"
    by (simp add: min_def)
  have nn: "\<not> ?jobs < 0" using assms by simp
  have run: "DumpIntents dump chan intents =
      (Call ''manager.Finalize'' [APolicy (if ?jobs > 1 then LongestTaskFirst else Legacy)]
        # Logvf Info ''dumping up to %v collections in parallel'' [AInt ?jobs]
        # fst (spawnWorkers (nat ?jobs)) @ fst (receiveResults chan 0 (nat ?jobs)),
       snd (receiveResults chan 0 (nat ?jobs)))"
    unfolding DumpIntents_def Let_def j using nn
    by (simp add: io_seq_call logvf_def spawnWorkers_def io_seq_pair)
  have go: "filter (is_call ''go'') (trace (DumpIntents dump chan intents))
           = map (\<lambda>i. Call ''go'' [AInt (int i)]) [0..<nat ?jobs]"
    unfolding run trace_def
    by (simp add: spawnWorkers_go receiveResults_calls) (simp add: is_call_def)
  have fin: "filter (is_call ''manager.Finalize'') (trace (DumpIntents dump chan intents))
           = [Call ''manager.Finalize'' [APolicy (if ?jobs > 1 then LongestTaskFirst else Legacy)]]"
    unfolding run trace_def
    by (simp add: spawnWorkers_go receiveResults_calls) (simp add: is_call_def)
  have "int (length (filter (is_call ''go'') (trace (DumpIntents dump chan intents)))) = ?jobs"
    unfolding go using assms by simp
  with go fin show ?thesis by blast
qed

theorem DumpIntents_workers_and_policy_witness:
  "filter (is_call ''go'') (trace (DumpIntents plain_dump (\<lambda>i. None) two_intents))
      = [Call ''go'' [AInt 0], Call ''go'' [AInt 1]]
   \<and> filter (is_call ''manager.Finalize'') (trace (DumpIntents plain_dump (\<lambda>i. None) two_intents))
      = [Call ''manager.Finalize'' [APolicy LongestTaskFirst]]
   \<and> filter (is_call ''manager.Finalize'')
        (trace (DumpIntents (with_jobs 1 plain_dump) (\<lambda>i. None) two_intents))
      = [Call ''manager.Finalize'' [APolicy Legacy]]"
proof -
  have n4: "NumParallelCollections (OutputOptions plain_dump) = 4"
    and n1: "NumParallelCollections (OutputOptions (with_jobs 1 plain_dump)) = 1"
    and l: "length two_intents = 2"
    by (simp_all add: plain_dump_def with_jobs_def two_intents_def)
  have h4: "0 \<le> NumParallelCollections (OutputOptions plain_dump)" using n4 by simp
  have h1: "0 \<le> NumParallelCollections (OutputOptions (with_jobs 1 plain_dump))" using n1 by simp
  have u: "[0..<2] = [0, Suc 0]" by (simp add: upt_rec)
  from DumpIntents_workers_and_policy [OF h4, of "\<lambda>i. None" two_intents]
       DumpIntents_workers_and_policy [OF h1, of "\<lambda>i. None" two_intents]
  show ?thesis unfolding n4 n1 l by (simp add: u)
qed


section \<open>Properties: the order of the phases\<close>

lemma phases_append: "phases (a @ b) = phases a @ phases b"
  by (simp add: phases_def)

lemma phases_Nil: "phases [] = []"
  by (simp add: phases_def)

lemma phases_Cons: "phases (ev # t) = (if 0 < phase ev then phase ev # phases t else phases t)"
  by (simp add: phases_def)

lemma quiet_ret: "quiet (ret x)"
  by (simp add: quiet_def ret_def phases_Nil)

lemma quiet_panic: "quiet (panic s)"
  by (simp add: quiet_def panic_def phases_Nil)

lemma quiet_call: "phase ev = 0 \<Longrightarrow> quiet (call ev a)"
  by (simp add: quiet_def call_def phases_Cons phases_Nil)

lemma quiet_logvf: "phase (Logvf v fmt args) = 0 \<Longrightarrow> quiet (logvf v fmt args)"
  by (simp add: logvf_def quiet_call)

lemma quiet_bind: "quiet m \<Longrightarrow> (\<And>x. quiet (f x)) \<Longrightarrow> quiet (io_bind m f)"
  unfolding quiet_def
  by (cases m; cases "snd m") (auto simp: io_bind_pair phases_append)

lemma quiet_seq: "quiet m \<Longrightarrow> quiet k \<Longrightarrow> quiet (io_seq m k)"
  by (simp add: io_seq_def quiet_bind)

lemma quiet_when: "quiet m \<Longrightarrow> quiet (when_io b m)"
  by (simp add: when_io_def quiet_ret)

lemma quiet_next: "quiet m \<Longrightarrow> (\<And>x. quiet (k x)) \<Longrightarrow> quiet (io_next m k)"
  unfolding io_next_def
  by (rule quiet_bind) (auto simp: quiet_ret split: flow.splits)

lemmas quiet_intros = quiet_ret quiet_panic quiet_bind quiet_seq quiet_when quiet_next
  quiet_call quiet_logvf

lemma quiet_iterLoop:
  "quiet (iterLoop (writeTo env intent file buffer) closing k sends)"
proof (induction sends arbitrary: k)
  case Nil
  show ?case
    by (cases closing) (auto intro!: quiet_intros simp: phase_def split: option.splits)
next
  case (Cons s sends)
  obtain actions d where s: "s = (actions, d)" by (cases s)
  have w: "quiet (writeTo env intent file buffer k d)"
    by (auto simp: writeTo_def phase_def intro!: quiet_call split: option.splits)
  show ?case
    unfolding s using Cons w
    by (auto intro!: quiet_intros simp: phase_def split: option.splits)
qed

lemma quiet_dumpValidatedIterToWriter:
  "quiet (dumpValidatedIterToWriter env c (writeTo env intent file buffer) v)"
  unfolding dumpValidatedIterToWriter_def
  by (auto intro!: quiet_intros quiet_iterLoop simp: phase_def split: prod.splits)

lemma quiet_getCount: "quiet (getCount dump env q intent)"
  unfolding getCount_def
  by (auto intro!: quiet_intros simp: phase_def split: sum.splits)

lemma quiet_dumpRecords: "quiet (dumpRecords env q intent file buffer v)"
  unfolding dumpRecords_def
  by (auto intro!: quiet_intros quiet_dumpValidatedIterToWriter simp: phase_def
        split: sum.splits prod.splits)

lemma quiet_deferClose:
  "phase ev = 0 \<Longrightarrow> quiet body \<Longrightarrow> quiet (deferClose intent ev ans body)"
  unfolding deferClose_def
  by (auto intro!: quiet_intros)

lemma quiet_dumpValidatedQueryToIntent:
  "quiet (dumpValidatedQueryToIntent dump env q intent buffer validator)"
  unfolding dumpValidatedQueryToIntent_def
  by (auto intro!: quiet_intros quiet_deferClose quiet_getCount quiet_dumpRecords
        simp: phase_def split: option.splits prod.splits)

lemma quiet_dumpQueryToIntent: "quiet (dumpQueryToIntent dump env q intent buffer)"
  by (simp add: dumpQueryToIntent_def quiet_dumpValidatedQueryToIntent)

lemma rewritePredicates_no_action: "fst (rewritePredicates K done q) = []"
  by (induction q arbitrary: "done")
     (auto simp: ret_def panic_def split: list.splits)

lemma quiet_rewritePredicates: "quiet (rewritePredicates K done q)"
  by (simp add: quiet_def rewritePredicates_no_action phases_Nil)

lemma quiet_DumpIntent_output: "quiet (DumpIntent_output dump env q intent buffer)"
  unfolding DumpIntent_output_def
  by (auto intro!: quiet_intros quiet_dumpQueryToIntent simp: phase_def split: prod.splits)

lemma quiet_DumpIntent: "quiet (DumpIntent dump env intent buffer)"
  unfolding DumpIntent_def
  by (auto intro!: quiet_intros quiet_rewritePredicates quiet_DumpIntent_output
        simp: phase_def split: sum.splits prod.splits)

lemma quiet_verifyCollectionExists: "quiet (verifyCollectionExists dump w)"
  unfolding verifyCollectionExists_def
  by (auto intro!: quiet_intros simp: phase_def split: sum.splits)

lemma quiet_getArchiveOut: "quiet (getArchiveOut dump w)"
  unfolding getArchiveOut_def Let_def
  by (auto intro!: quiet_intros simp: phase_def)

lemma quiet_DumpMetadata: "quiet (DumpMetadata dump w mgr)"
proof -
  have "quiet (DumpMetadata_loop w xs)" for xs
    by (induction xs) (auto intro!: quiet_intros simp: phase_def)
  then show ?thesis by (simp add: DumpMetadata_def)
qed

lemma quiet_dumpIfPresent: "quiet (dumpIfPresent dump w intent)"
  unfolding dumpIfPresent_def
  by (auto intro!: quiet_intros quiet_DumpIntent split: option.splits)

lemma quiet_DumpUsersAndRoles: "quiet (DumpUsersAndRoles dump w mgr)"
  unfolding DumpUsersAndRoles_def
  by (auto intro!: quiet_intros quiet_dumpIfPresent split: prod.splits)

lemma quiet_dumpAdminQuery: "quiet (dumpAdminQuery dump w coll flt intent fmt)"
  unfolding dumpAdminQuery_def
  by (auto intro!: quiet_intros quiet_dumpQueryToIntent split: option.splits prod.splits)

lemma quiet_DumpUsersAndRolesForDB: "quiet (DumpUsersAndRolesForDB dump w mgr name)"
  unfolding DumpUsersAndRolesForDB_def Let_def
  by (auto intro!: quiet_intros quiet_dumpAdminQuery simp: phase_def)

lemma quiet_Dump_usersAndRoles: "quiet (Dump_usersAndRoles dump w mgr err)"
  unfolding Dump_usersAndRoles_def
  by (auto intro!: quiet_intros quiet_DumpUsersAndRoles quiet_DumpUsersAndRolesForDB
        simp: phase_def split: option.splits prod.splits flow.splits)

lemma quiet_Dump_archivePrelude: "quiet (Dump_archivePrelude dump w err)"
  unfolding Dump_archivePrelude_def
  by (auto intro!: quiet_intros simp: phase_def split: option.splits)

lemma quiet_Dump_createIntents: "quiet (Dump_createIntents dump w mgr)"
  unfolding Dump_createIntents_def
  by (auto intro!: quiet_intros simp: phase_def)

lemma quiet_Dump_readQuery: "quiet (Dump_readQuery dump w)"
  unfolding Dump_readQuery_def
  by (auto intro!: quiet_intros simp: phase_def split: sum.splits)

lemma quiet_Dump_authVersion: "quiet (Dump_authVersion dump w)"
  unfolding Dump_authVersion_def
  by (auto intro!: quiet_intros simp: phase_def split: sum.splits option.splits prod.splits)

lemma quiet_archiveFinalizer: "quiet (archiveFinalizer w err)"
  unfolding archiveFinalizer_def Let_def
  by (auto intro!: quiet_intros simp: phase_def split: option.splits)

lemma quiet_iff: "quiet m = (\<forall>ev\<in>set (fst m). phase ev = 0)"
  by (auto simp: quiet_def phases_def filter_empty_conv)

lemma within_quiet: "quiet m \<Longrightarrow> within lo hi m"
  by (simp add: within_def quiet_def)

lemma within_ret: "within lo hi (ret x)"
  by (simp add: within_quiet quiet_ret)

lemma within_panic: "within lo hi (panic s)"
  by (simp add: within_quiet quiet_panic)

lemma within_mono: "within lo hi m \<Longrightarrow> lo' \<le> lo \<Longrightarrow> hi \<le> hi' \<Longrightarrow> within lo' hi' m"
  by (fastforce simp: within_def)

lemma within_call: "lo \<le> phase ev \<Longrightarrow> phase ev \<le> hi \<Longrightarrow> within lo hi (call ev a)"
  by (simp add: within_def call_def phases_Cons phases_Nil)

lemma within_logvf:
  "lo \<le> phase (Logvf v fmt args) \<Longrightarrow> phase (Logvf v fmt args) \<le> hi
     \<Longrightarrow> within lo hi (logvf v fmt args)"
  by (simp add: logvf_def within_call)

lemma within_bind:
  assumes "within lo mid m" and "\<And>x. within mid hi (f x)" and "lo \<le> mid" and "mid \<le> hi"
  shows "within lo hi (io_bind m f)"
proof (cases m)
  case (Pair t r)
  show ?thesis
  proof (cases r)
    case (Panics s)
    with Pair assms(1,4) show ?thesis
      by (fastforce simp: io_bind_pair within_def)
  next
    case (Returns x)
    from assms(2)[of x] have fx: "sorted (phases (fst (f x)))"
      "\<forall>n\<in>set (phases (fst (f x))). mid \<le> n \<and> n \<le> hi"
      by (simp_all add: within_def)
    from assms(1) Pair have mt: "sorted (phases t)" "\<forall>n\<in>set (phases t). lo \<le> n \<and> n \<le> mid"
      by (simp_all add: within_def)
    have "sorted (phases t @ phases (fst (f x)))"
      using fx mt by (fastforce simp: sorted_append)
    moreover have "\<forall>n\<in>set (phases t @ phases (fst (f x))). lo \<le> n \<and> n \<le> hi"
      using fx mt assms(3,4) by fastforce
    ultimately show ?thesis
      using Pair Returns by (simp add: io_bind_pair within_def phases_append)
  qed
qed

lemma within_seq:
  "within lo mid m \<Longrightarrow> within mid hi k \<Longrightarrow> lo \<le> mid \<Longrightarrow> mid \<le> hi \<Longrightarrow> within lo hi (io_seq m k)"
  by (simp add: io_seq_def within_bind)

lemma within_prefix: "quiet m \<Longrightarrow> (\<And>x. within lo hi (f x)) \<Longrightarrow> within lo hi (io_bind m f)"
  by (cases m; cases "snd m")
     (auto simp: io_bind_pair within_def quiet_def phases_append)

lemma within_seq_prefix: "quiet m \<Longrightarrow> within lo hi k \<Longrightarrow> within lo hi (io_seq m k)"
  by (simp add: io_seq_def within_prefix)

lemma within_next_prefix: "quiet m \<Longrightarrow> (\<And>x. within lo hi (k x)) \<Longrightarrow> within lo hi (io_next m k)"
  unfolding io_next_def
  by (rule within_prefix) (auto simp: within_ret split: flow.splits)

lemma within_suffix: "within lo hi m \<Longrightarrow> (\<And>x. quiet (f x)) \<Longrightarrow> within lo hi (io_bind m f)"
  by (cases m; cases "snd m")
     (auto simp: io_bind_pair within_def quiet_def phases_append)

lemma within_next:
  assumes "within lo mid m" and "\<And>x. within mid hi (k x)" and "lo \<le> mid" and "mid \<le> hi"
  shows "within lo hi (io_next m k)"
  unfolding io_next_def
  by (rule within_bind[OF assms(1) _ assms(3,4)]) (auto simp: within_ret assms(2) split: flow.splits)

subsection \<open>The worker pool\<close>

lemma receiveResults_within: "within 2 2 (receiveResults chan i n)"
proof (induction n arbitrary: i)
  case 0
  show ?case by (simp add: within_ret)
next
  case (Suc n)
  show ?case
    by (auto intro!: within_bind[where mid = 2] within_call within_ret Suc simp: phase_def)
qed

lemma spawnWorkers_within: "within 2 2 (spawnWorkers n)"
proof -
  have "phases (map (\<lambda>i. Call ''go'' [AInt (int i)]) xs) = replicate (length xs) 2" for xs :: "nat list"
    by (induction xs) (simp_all add: phases_Nil phases_Cons phase_def)
  then show ?thesis
    by (simp add: within_def spawnWorkers_def sorted_replicate)
qed

lemma within_DumpIntents: "within 2 2 (DumpIntents dump chan intents)"
  unfolding DumpIntents_def Let_def
  by (auto intro!: within_seq[where mid = 2] within_call within_logvf within_ret
        spawnWorkers_within receiveResults_within within_panic simp: phase_def)

lemma receiveResults_done:
  "snd (receiveResults chan i n) = Returns None
     \<Longrightarrow> fst (receiveResults chan i n) = replicate n (Call ''<-resultChan'' [])"
proof (induction n arbitrary: i)
  case 0
  show ?case by (simp add: ret_def)
next
  case (Suc n)
  show ?case
  proof (cases "chan i")
    case None
    with Suc.prems have "snd (receiveResults chan (Suc i) n) = Returns None"
      by (simp add: io_bind_call)
    from Suc.IH[OF this] None show ?thesis by (simp add: io_bind_call)
  next
    case (Some e)
    with Suc.prems show ?thesis by (simp add: io_bind_call ret_def)
  qed
qed

lemma DumpIntents_done:
  assumes "snd (DumpIntents dump chan intents) = Returns None"
  shows "workers_done (fst (DumpIntents dump chan intents))"
proof -
  let ?N = "NumParallelCollections (OutputOptions dump)"
  let ?jobs = "if ?N > int (length intents) then int (length intents) else ?N"
  have nn: "\<not> ?jobs < 0"
  proof
    assume "?jobs < 0"
    then have "snd (DumpIntents dump chan intents) = Panics ''makechan: size out of range''"
      unfolding DumpIntents_def Let_def by (simp add: io_seq_call panic_def)
    with assms show False by simp
  qed
  have run: "DumpIntents dump chan intents =
      (Call ''manager.Finalize'' [APolicy (if ?jobs > 1 then LongestTaskFirst else Legacy)]
        # Logvf Info ''dumping up to %v collections in parallel'' [AInt ?jobs]
        # fst (spawnWorkers (nat ?jobs)) @ fst (receiveResults chan 0 (nat ?jobs)),
       snd (receiveResults chan 0 (nat ?jobs)))"
    unfolding DumpIntents_def Let_def using nn
    by (simp add: io_seq_call logvf_def spawnWorkers_def io_seq_pair)
  from assms run have "snd (receiveResults chan 0 (nat ?jobs)) = Returns None" by simp
  from receiveResults_done[OF this]
  have r: "fst (receiveResults chan 0 (nat ?jobs)) = replicate (nat ?jobs) (Call ''<-resultChan'' [])" .
  have f1: "filter (is_call ''<-resultChan'') (replicate n (Call ''<-resultChan'' []))
              = replicate n (Call ''<-resultChan'' [])" for n
    by (simp add: is_call_def)
  have f2: "filter (is_call ''go'') (replicate n (Call ''<-resultChan'' [])) = []" for n
    by (simp add: is_call_def)
  have f3: "filter (is_call ''<-resultChan'') (fst (spawnWorkers n)) = []" for n
    by (simp add: spawnWorkers_def is_call_def)
  show ?thesis
    unfolding workers_done_def
    apply (subst (1 2) run)
    apply (simp add: r f1 f2 f3 spawnWorkers_go)
    apply (simp add: is_call_def)
    done
qed

subsection \<open>Phases III and IV\<close>

lemma within_oplogRolloverCheck: "within 3 3 (oplogRolloverCheck dump w n)"
  unfolding oplogRolloverCheck_def
  by (auto intro!: within_bind[where mid = 3] within_call within_ret simp: phase_def
        split: option.splits)

lemma within_Dump_oplogCapture: "within 3 3 (Dump_oplogCapture dump w mgr)"
  unfolding Dump_oplogCapture_def Let_def
  apply (rule within_prefix)
   apply (auto intro!: quiet_intros simp: phase_def)[1]
  apply (auto intro!: within_bind[where mid = 3] within_seq[where mid = 3]
        within_call within_logvf within_ret within_panic within_oplogRolloverCheck
        simp: phase_def split: sum.splits option.splits)
  done

lemma within_DumpPreludeMetadata: "within 4 4 (DumpPreludeMetadata dump f)"
  unfolding DumpPreludeMetadata_def Let_def
  apply (rule within_seq[where mid = 4])
     apply (simp add: within_logvf phase_def)
    apply (rule within_prefix)
     apply (simp add: quiet_call phase_def)
    apply (auto intro!: within_bind[where mid = 4] within_seq[where mid = 4]
        within_call within_logvf within_ret simp: phase_def when_io_def
        split: sum.splits option.splits)
  done

lemma within_finishing: "within 4 5 (io_seq (logvf DebugLow ''finishing dump'' []) (ret e))"
  by (auto intro!: within_seq[where mid = 5] within_logvf within_ret simp: phase_def)

lemma within_Dump_phaseIV: "within 4 5 (Dump_phaseIV dump w err)"
proof (cases "Archive (OutputOptions dump) = [] \<and> Out (OutputOptions dump) \<noteq> ''-''")
  case True
  have "within 4 5 (io_seq (logvf DebugLow ''dump phase IV: top level metadata json'' [])
        (io_bind (DumpPreludeMetadata dump (fs w)) (\<lambda>err.
           case err of
             Some e \<Rightarrow> ret (Some (Errorf ''failed to dump top level metadata: %v'' [AErr e]))
           | None \<Rightarrow>
               io_seq (logvf DebugLow ''finishing dump'' [])
               (ret None))))"
    apply (rule within_seq[where mid = 4])
       apply (simp add: within_logvf phase_def)
      apply (rule within_bind[where mid = 4])
         apply (rule within_mono[OF within_DumpPreludeMetadata])
          apply (auto intro!: within_ret within_finishing split: option.splits)
    done
  with True show ?thesis unfolding Dump_phaseIV_def by simp
next
  case False
  then show ?thesis unfolding Dump_phaseIV_def using within_finishing by auto
qed

lemma within_Dump_phaseIII: "within 3 5 (Dump_phaseIII dump w mgr err)"
  unfolding Dump_phaseIII_def
  by (auto intro!: within_seq[where mid = 3] within_next[where mid = 3]
        within_mono[OF within_Dump_oplogCapture] within_mono[OF within_Dump_phaseIV]
        within_logvf simp: phase_def)

lemma within_Dump_phaseII: "within 2 5 (Dump_phaseII dump w mgr err)"
  unfolding Dump_phaseII_def
  by (auto intro!: within_seq[where mid = 2] within_bind[where mid = 2]
        within_mono[OF within_DumpIntents] within_mono[OF within_Dump_phaseIII]
        within_logvf within_ret simp: phase_def)

subsection \<open>Workers are done before phase III\<close>

lemma phase_worker: "is_worker_event ev \<Longrightarrow> phase ev = 2"
  by (cases ev) (auto simp: is_worker_event_def is_call_def phase_def)

lemma no_worker_event_after:
  assumes "within lo hi m" and "2 < lo"
  shows "\<forall>ev\<in>set (fst m). \<not> is_worker_event ev"
proof
  fix ev assume ev: "ev \<in> set (fst m)"
  show "\<not> is_worker_event ev"
  proof
    assume "is_worker_event ev"
    then have "phase ev = 2" by (rule phase_worker)
    with ev have "2 \<in> set (phases (fst m))" by (force simp: phases_def)
    with assms show False by (auto simp: within_def)
  qed
qed

lemma no_worker_event_quiet:
  assumes "quiet m"
  shows "\<forall>ev\<in>set (fst m). \<not> is_worker_event ev"
  using assms phase_worker by (fastforce simp: quiet_iff)

lemma filter_none: "\<forall>ev\<in>set t. \<not> is_worker_event ev
   \<Longrightarrow> filter (is_call ''go'') t = [] \<and> filter (is_call ''<-resultChan'') t = []"
  by (auto simp: is_worker_event_def filter_empty_conv)

lemma workers_done_append_r:
  "workers_done a \<Longrightarrow> \<forall>ev\<in>set b. \<not> is_worker_event ev \<Longrightarrow> workers_done (a @ b)"
  using filter_none[of b] by (simp add: workers_done_def)

lemma workers_done_append_l:
  "\<forall>ev\<in>set a. \<not> is_worker_event ev \<Longrightarrow> workers_done b \<Longrightarrow> workers_done (a @ b)"
  using filter_none[of a] by (simp add: workers_done_def)

lemma law_quiet: "quiet m \<Longrightarrow> late_after_workers m"
  by (simp add: late_after_workers_def quiet_def)

lemma law_ret: "late_after_workers (ret x)"
  by (simp add: law_quiet quiet_ret)

lemma law_prefix:
  assumes "quiet m" and "\<And>x. late_after_workers (f x)"
  shows "late_after_workers (io_bind m f)"
proof (cases m)
  case (Pair t r)
  from assms(1) Pair have q: "phases t = []" and nw: "\<forall>ev\<in>set t. \<not> is_worker_event ev"
    using no_worker_event_quiet[OF assms(1)] by (simp_all add: quiet_def)
  show ?thesis
  proof (cases r)
    case (Panics s)
    with Pair q show ?thesis by (simp add: io_bind_pair late_after_workers_def)
  next
    case (Returns x)
    with Pair q nw assms(2)[of x] show ?thesis
      by (auto simp: io_bind_pair late_after_workers_def phases_append
            intro: workers_done_append_l)
  qed
qed

lemma law_seq_prefix: "quiet m \<Longrightarrow> late_after_workers k \<Longrightarrow> late_after_workers (io_seq m k)"
  by (simp add: io_seq_def law_prefix)

lemma law_next_prefix:
  "quiet m \<Longrightarrow> (\<And>x. late_after_workers (k x)) \<Longrightarrow> late_after_workers (io_next m k)"
  unfolding io_next_def
  by (rule law_prefix) (auto simp: law_ret split: flow.splits)

lemma law_suffix:
  assumes "late_after_workers m" and "\<And>x. quiet (f x)"
  shows "late_after_workers (io_bind m f)"
proof (cases m)
  case (Pair t r)
  show ?thesis
  proof (cases r)
    case (Panics s)
    with Pair assms(1) show ?thesis by (simp add: io_bind_pair late_after_workers_def)
  next
    case (Returns x)
    from assms(2)[of x] have q: "phases (fst (f x)) = []"
      and nw: "\<forall>ev\<in>set (fst (f x)). \<not> is_worker_event ev"
      using no_worker_event_quiet[OF assms(2)[of x]] by (simp_all add: quiet_def)
    with Pair Returns assms(1) show ?thesis
      by (auto simp: io_bind_pair late_after_workers_def phases_append
            intro: workers_done_append_r)
  qed
qed

lemma law_Dump_phaseII: "late_after_workers (Dump_phaseII dump w mgr err)"
proof -
  let ?D = "DumpIntents dump (resultChan (planning w)) (Intents mgr)"
  let ?T = "Dump_phaseIII dump w mgr err"
  let ?log = "Logvf DebugHigh ''dump phase II: regular collections'' []"
  have pl: "phase ?log = 2" "\<not> is_worker_event ?log"
    by (simp_all add: phase_def is_worker_event_def is_call_def)
  have pd: "\<forall>n\<in>set (phases (fst ?D)). n = 2"
    using within_DumpIntents[of dump "resultChan (planning w)" "Intents mgr"]
    by (auto simp: within_def)
  have nt: "\<forall>ev\<in>set (fst ?T). \<not> is_worker_event ev"
    by (rule no_worker_event_after[OF within_Dump_phaseIII]) simp
  obtain td rd where d: "?D = (td, rd)" by (cases ?D)
  show ?thesis
  proof (cases "rd = Returns None")
    case True
    with d have "snd ?D = Returns None" by simp
    from DumpIntents_done[OF this] d have wd: "workers_done td" by simp
    have run: "Dump_phaseII dump w mgr err = (?log # td @ fst ?T, snd ?T)"
      unfolding Dump_phaseII_def d using True
      by (simp add: io_seq_call logvf_def io_bind_pair)
    have "workers_done (?log # td @ fst ?T)"
      using workers_done_append_l[of "[?log]" "td @ fst ?T"]
        workers_done_append_r[OF wd nt] pl(2) by simp
    then show ?thesis unfolding run late_after_workers_def by simp
  next
    case False
    have run: "fst (Dump_phaseII dump w mgr err) = ?log # td"
      unfolding Dump_phaseII_def d using False
      by (cases rd) (auto simp: io_seq_call logvf_def io_bind_pair ret_def)
    from pd d have "\<forall>n\<in>set (phases td). n = 2" by simp
    then show ?thesis
      unfolding late_after_workers_def run
      by (auto simp: phases_Cons pl)
  qed
qed

subsection \<open>The whole method is in phase order\<close>

lemma phased_quiet: "quiet m \<Longrightarrow> phased m"
  by (simp add: phased_def within_quiet law_quiet)

lemma phased_ret: "phased (ret x)"
  by (simp add: phased_quiet quiet_ret)

lemma phased_prefix: "quiet m \<Longrightarrow> (\<And>x. phased (f x)) \<Longrightarrow> phased (io_bind m f)"
  by (simp add: phased_def within_prefix law_prefix)

lemma phased_seq_prefix: "quiet m \<Longrightarrow> phased k \<Longrightarrow> phased (io_seq m k)"
  by (simp add: io_seq_def phased_prefix)

lemma phased_next_prefix: "quiet m \<Longrightarrow> (\<And>x. phased (k x)) \<Longrightarrow> phased (io_next m k)"
  by (simp add: phased_def within_next_prefix law_next_prefix)

lemma phased_suffix: "phased m \<Longrightarrow> (\<And>x. quiet (f x)) \<Longrightarrow> phased (io_bind m f)"
  by (simp add: phased_def within_suffix law_suffix)

lemma phased_Dump_phaseII: "phased (Dump_phaseII dump w mgr err)"
  by (simp add: phased_def within_Dump_phaseII law_Dump_phaseII)

lemmas phased_intros = phased_ret phased_prefix phased_seq_prefix phased_next_prefix

lemma phased_Dump_phaseI: "phased (Dump_phaseI dump w mgr)"
  unfolding Dump_phaseI_def
  by (auto intro!: phased_intros quiet_intros quiet_call quiet_logvf quiet_DumpMetadata
        quiet_Dump_archivePrelude quiet_Dump_usersAndRoles phased_Dump_phaseII
        simp: phase_def split: option.splits sum.splits)

lemma phased_Dump_plan: "phased (Dump_plan dump w mgr)"
  unfolding Dump_plan_def
  by (auto intro!: phased_intros quiet_intros quiet_call quiet_logvf quiet_Dump_createIntents
        phased_Dump_phaseI
        simp: phase_def split: option.splits sum.splits)

lemma phased_Dump_connect: "phased (Dump_connect dump w mgr)"
  unfolding Dump_connect_def
  by (auto intro!: phased_intros quiet_intros quiet_call quiet_logvf phased_Dump_plan
        simp: phase_def split: option.splits sum.splits)

lemma phased_Dump_archive: "phased (Dump_archive dump w mgr)"
proof -
  have "phased (io_bind (Dump_connect dump w mgr) (archiveFinalizer w))"
    by (rule phased_suffix[OF phased_Dump_connect quiet_archiveFinalizer])
  then show ?thesis
    unfolding Dump_archive_def
    by (auto intro!: phased_intros quiet_call quiet_getArchiveOut phased_Dump_connect
          simp: phase_def)
qed

lemma phased_Dump_start: "phased (Dump_start dump w mgr)"
  unfolding Dump_start_def
  by (auto intro!: phased_intros quiet_logvf quiet_Dump_readQuery quiet_Dump_authVersion
        phased_Dump_archive simp: phase_def)

lemma phased_Dump: "phased (Dump dump w mgr)"
  unfolding Dump_def Let_def
  apply (rule phased_suffix)
   apply (auto intro!: phased_intros quiet_intros quiet_call quiet_logvf
        quiet_verifyCollectionExists phased_Dump_start
        simp: phase_def split: option.splits sum.splits)
  done


section \<open>Properties: the prelude file\<close>

lemma DumpPreludeMetadata_create_error:
  assumes "os_Create f (prelude_filename dump f) = Some e"
  shows "DumpPreludeMetadata dump f =
     (if errors_Is e ErrNotExist then
        ([Logvf DebugLow ''dumping prelude metadata to file %#q'' [AStr (prelude_filename dump f)],
          Call ''os.Create'' [AStr (prelude_filename dump f)],
          Logvf DebugLow ''parent directory does not exist, not writing %#q''
            [AStr (prelude_filename dump f)]],
         Returns None)
      else
        ([Logvf DebugLow ''dumping prelude metadata to file %#q'' [AStr (prelude_filename dump f)],
          Call ''os.Create'' [AStr (prelude_filename dump f)]],
         Returns (Some (Errorf ''failed to open file %#q: %w''
                          [AStr (prelude_filename dump f), AErr e]))))"
  unfolding DumpPreludeMetadata_def Let_def
  by (simp add: assms io_seq_call logvf_def io_bind_call ret_def)

text \<open>
  Claim C10. Suppose \<^verbatim>\<open>os.Create\<close> fails on the prelude file. If the error is
  \<^verbatim>\<open>os.ErrNotExist\<close> (the parent directory is missing), \<^verbatim>\<open>DumpPreludeMetadata\<close> logs
  that it does not write the file and returns nil; nothing is written. Any other error
  is returned, wrapped; nothing is written either.
\<close>

theorem DumpPreludeMetadata_missing_parent:
  assumes "os_Create f (prelude_filename dump f) = Some e"
  shows "(errors_Is e ErrNotExist \<longrightarrow>
            result (DumpPreludeMetadata dump f) = Returns None
          \<and> trace (DumpPreludeMetadata dump f) =
              [Logvf DebugLow ''dumping prelude metadata to file %#q''
                 [AStr (prelude_filename dump f)],
               Call ''os.Create'' [AStr (prelude_filename dump f)],
               Logvf DebugLow ''parent directory does not exist, not writing %#q''
                 [AStr (prelude_filename dump f)]])
       \<and> (\<not> errors_Is e ErrNotExist \<longrightarrow>
            result (DumpPreludeMetadata dump f) =
              Returns (Some (Errorf ''failed to open file %#q: %w''
                               [AStr (prelude_filename dump f), AErr e]))
          \<and> trace (DumpPreludeMetadata dump f) =
              [Logvf DebugLow ''dumping prelude metadata to file %#q''
                 [AStr (prelude_filename dump f)],
               Call ''os.Create'' [AStr (prelude_filename dump f)]])
       \<and> \<not> list_ex (\<lambda>ev. kind ev = ''writer.Write'') (trace (DumpPreludeMetadata dump f))"
  unfolding DumpPreludeMetadata_create_error [OF assms]
  by (simp add: result_def trace_def kind_def)

theorem DumpPreludeMetadata_missing_parent_witness:
  "result (DumpPreludeMetadata plain_dump no_parent_fs) = Returns None
   \<and> result (DumpPreludeMetadata plain_dump read_only_fs) =
       Returns (Some (Errorf ''failed to open file %#q: %w''
                        [AStr ''dump/prelude.json'',
                         AErr (PathError ''open'' ''dump/prelude.json''
                                 (Opaque ''permission denied''))]))
   \<and> \<not> list_ex (\<lambda>ev. kind ev = ''writer.Write'')
          (trace (DumpPreludeMetadata plain_dump no_parent_fs))"
proof -
  have n: "prelude_filename plain_dump no_parent_fs = ''dump/prelude.json''"
          "prelude_filename plain_dump read_only_fs = ''dump/prelude.json''"
    by code_simp+
  have h1: "os_Create no_parent_fs (prelude_filename plain_dump no_parent_fs)
              = Some (PathError ''open'' ''dump/prelude.json'' ErrNotExist)"
    unfolding n by (simp add: no_parent_fs_def)
  have h2: "os_Create read_only_fs (prelude_filename plain_dump read_only_fs)
              = Some (PathError ''open'' ''dump/prelude.json'' (Opaque ''permission denied''))"
    unfolding n by (simp add: read_only_fs_def)
  have e1: "errors_Is (PathError ''open'' ''dump/prelude.json'' ErrNotExist) ErrNotExist"
    by simp
  have e2: "\<not> errors_Is (PathError ''open'' ''dump/prelude.json'' (Opaque ''permission denied''))
               ErrNotExist"
    by simp
  from DumpPreludeMetadata_missing_parent [OF h1] e1
  have a: "result (DumpPreludeMetadata plain_dump no_parent_fs) = Returns None"
    and c: "\<not> list_ex (\<lambda>ev. kind ev = ''writer.Write'')
               (trace (DumpPreludeMetadata plain_dump no_parent_fs))"
    by blast+
  from DumpPreludeMetadata_missing_parent [OF h2] e2
  have b: "result (DumpPreludeMetadata plain_dump read_only_fs) =
       Returns (Some (Errorf ''failed to open file %#q: %w''
                        [AStr (prelude_filename plain_dump read_only_fs),
                         AErr (PathError ''open'' ''dump/prelude.json''
                                 (Opaque ''permission denied''))]))"
    by blast
  from a b c show ?thesis unfolding n by simp
qed


section \<open>Properties: the collection check of Dump\<close>


text \<open>
  The run of \<^verbatim>\<open>Dump\<close> that ends at the collection check.
\<close>

lemma Dump_unfinished_check:
  assumes "ns_Collection dump \<noteq> ''''"
    and "Oplog (OutputOptions dump) \<or> SourceWritesDoneBarrier (InputOptions dump) = ''''
         \<or> waitForSourceWritesDoneBarrier (planning w) (SourceWritesDoneBarrier (InputOptions dump))
              = None"
    and "GetCollectionInfo (server w) = r" and "r \<noteq> Inr True"
  shows "Dump dump w mgr =
     ((if \<not> Oplog (OutputOptions dump) \<and> SourceWritesDoneBarrier (InputOptions dump) \<noteq> ''''
       then [Call ''waitForSourceWritesDoneBarrier''
               [AStr (SourceWritesDoneBarrier (InputOptions dump))]]
       else [])
      @ Call ''db.GetCollectionInfo'' [AStr (ns_DB dump), AStr (ns_Collection dump)]
      # (case r of
           Inl e \<Rightarrow> []
         | Inr found \<Rightarrow> [Logvf Always ''namespace with DB %s and collection %s does not exist''
                           [AStr (ns_DB dump), AStr (ns_Collection dump)]])
      @ [Call ''SessionProvider.Close'' []],
      Returns (case r of
                 Inl e \<Rightarrow> Some (Errorf ''error verifying collection info: %v'' [AErr e])
               | Inr found \<Rightarrow> None))"
proof -
  let ?wait = "if \<not> Oplog (OutputOptions dump) \<and> SourceWritesDoneBarrier (InputOptions dump) \<noteq> ''''
       then [Call ''waitForSourceWritesDoneBarrier''
               [AStr (SourceWritesDoneBarrier (InputOptions dump))]]
       else []"
  have w: "(if \<not> Oplog (OutputOptions dump) \<and> SourceWritesDoneBarrier (InputOptions dump) \<noteq> ''''
            then call (Call ''waitForSourceWritesDoneBarrier''
                         [AStr (SourceWritesDoneBarrier (InputOptions dump))])
                   (waitForSourceWritesDoneBarrier (planning w)
                      (SourceWritesDoneBarrier (InputOptions dump)))
            else ret None) = (?wait, Returns None)"
    using assms(2) by (auto simp: call_def ret_def)
  have v: "verifyCollectionExists dump w =
             ([Call ''db.GetCollectionInfo'' [AStr (ns_DB dump), AStr (ns_Collection dump)]],
              Returns (case r of Inl e \<Rightarrow> (False, Some e) | Inr found \<Rightarrow> (found, None)))"
    using assms(1,3) unfolding verifyCollectionExists_def
    by (simp add: io_bind_call ret_def split: sum.splits)
  show ?thesis
  proof (cases r)
    case (Inl e)
    show ?thesis
      unfolding Dump_def Let_def w v Inl
      by (simp add: io_bind_pair io_seq_call ret_def)
  next
    case (Inr found)
    with assms(4) have f: "found = False" by simp
    show ?thesis
      unfolding Dump_def Let_def w v Inr f
      by (simp add: io_bind_pair io_seq_call logvf_def ret_def)
  qed
qed

text \<open>
  Claim C6. A collection is named. \<^verbatim>\<open>Dump\<close> first waits for the barrier file of the test
  harness when one is configured without oplog capture; suppose that wait does not fail.
  If the server has no such collection, \<^verbatim>\<open>Dump\<close> asks for the collection info, logs the
  warning, closes the session provider and returns nil: nothing else happens, so nothing
  is dumped. If asking for the collection info fails, \<^verbatim>\<open>Dump\<close> returns that error,
  wrapped.
\<close>

theorem Dump_named_collection_missing:
  assumes "ns_Collection dump \<noteq> ''''"
    and "Oplog (OutputOptions dump) \<or> SourceWritesDoneBarrier (InputOptions dump) = ''''
         \<or> waitForSourceWritesDoneBarrier (planning w) (SourceWritesDoneBarrier (InputOptions dump))
              = None"
  shows "(GetCollectionInfo (server w) = Inr False \<longrightarrow>
            result (Dump dump w mgr) = Returns None
          \<and> trace (Dump dump w mgr) =
              (if \<not> Oplog (OutputOptions dump) \<and> SourceWritesDoneBarrier (InputOptions dump) \<noteq> ''''
               then [Call ''waitForSourceWritesDoneBarrier''
                       [AStr (SourceWritesDoneBarrier (InputOptions dump))]]
               else [])
              @ [Call ''db.GetCollectionInfo'' [AStr (ns_DB dump), AStr (ns_Collection dump)],
                 Logvf Always ''namespace with DB %s and collection %s does not exist''
                   [AStr (ns_DB dump), AStr (ns_Collection dump)],
                 Call ''SessionProvider.Close'' []])
       \<and> (\<forall>e. GetCollectionInfo (server w) = Inl e \<longrightarrow>
            result (Dump dump w mgr) =
              Returns (Some (Errorf ''error verifying collection info: %v'' [AErr e]))
          \<and> trace (Dump dump w mgr) =
              (if \<not> Oplog (OutputOptions dump) \<and> SourceWritesDoneBarrier (InputOptions dump) \<noteq> ''''
               then [Call ''waitForSourceWritesDoneBarrier''
                       [AStr (SourceWritesDoneBarrier (InputOptions dump))]]
               else [])
              @ [Call ''db.GetCollectionInfo'' [AStr (ns_DB dump), AStr (ns_Collection dump)],
                 Call ''SessionProvider.Close'' []])"
proof -
  have a: "GetCollectionInfo (server w) = Inr False \<Longrightarrow> Dump dump w mgr =
     ((if \<not> Oplog (OutputOptions dump) \<and> SourceWritesDoneBarrier (InputOptions dump) \<noteq> ''''
       then [Call ''waitForSourceWritesDoneBarrier''
               [AStr (SourceWritesDoneBarrier (InputOptions dump))]]
       else [])
      @ [Call ''db.GetCollectionInfo'' [AStr (ns_DB dump), AStr (ns_Collection dump)],
         Logvf Always ''namespace with DB %s and collection %s does not exist''
           [AStr (ns_DB dump), AStr (ns_Collection dump)],
         Call ''SessionProvider.Close'' []],
      Returns None)"
    using Dump_unfinished_check [OF assms, of "Inr False" mgr] by simp
  have b: "GetCollectionInfo (server w) = Inl e \<Longrightarrow> Dump dump w mgr =
     ((if \<not> Oplog (OutputOptions dump) \<and> SourceWritesDoneBarrier (InputOptions dump) \<noteq> ''''
       then [Call ''waitForSourceWritesDoneBarrier''
               [AStr (SourceWritesDoneBarrier (InputOptions dump))]]
       else [])
      @ [Call ''db.GetCollectionInfo'' [AStr (ns_DB dump), AStr (ns_Collection dump)],
         Call ''SessionProvider.Close'' []],
      Returns (Some (Errorf ''error verifying collection info: %v'' [AErr e])))" for e
    using Dump_unfinished_check [OF assms, of "Inl e" mgr] by simp
  show ?thesis
    using a b by (simp add: result_def trace_def)
qed

theorem Dump_named_collection_missing_witness:
  "result (Dump (with_ns ''db'' ''c'' plain_dump) (missing_collection ok_world) empty_manager)
     = Returns None
   \<and> trace (Dump (with_ns ''db'' ''c'' plain_dump) (missing_collection ok_world) empty_manager)
     = [Call ''db.GetCollectionInfo'' [AStr ''db'', AStr ''c''],
        Logvf Always ''namespace with DB %s and collection %s does not exist''
          [AStr ''db'', AStr ''c''],
        Call ''SessionProvider.Close'' []]
   \<and> result (Dump (with_ns ''db'' ''c'' plain_dump) (failing_check (Opaque ''not authorized'') ok_world)
               empty_manager)
     = Returns (Some (Errorf ''error verifying collection info: %v''
                        [AErr (Opaque ''not authorized'')]))"
proof -
  let ?d = "with_ns ''db'' ''c'' plain_dump"
  have d: "ns_Collection ?d = ''c''" "ns_DB ?d = ''db''" "Oplog (OutputOptions ?d) = False"
          "SourceWritesDoneBarrier (InputOptions ?d) = ''''"
    by code_simp+
  have h1: "ns_Collection ?d \<noteq> ''''" unfolding d by simp
  have h2: "Oplog (OutputOptions ?d) \<or> SourceWritesDoneBarrier (InputOptions ?d) = ''''
         \<or> waitForSourceWritesDoneBarrier (planning w) (SourceWritesDoneBarrier (InputOptions ?d))
              = None" for w
    unfolding d by simp
  have g1: "GetCollectionInfo (server (missing_collection ok_world)) = Inr False"
    by (simp add: missing_collection_def)
  have g2: "GetCollectionInfo (server (failing_check (Opaque ''not authorized'') ok_world))
              = Inl (Opaque ''not authorized'')"
    by (simp add: failing_check_def)
  from Dump_named_collection_missing [OF h1 h2, of "missing_collection ok_world" empty_manager] g1
  have a: "result (Dump ?d (missing_collection ok_world) empty_manager) = Returns None"
    and b: "trace (Dump ?d (missing_collection ok_world) empty_manager)
     = [Call ''db.GetCollectionInfo'' [AStr (ns_DB ?d), AStr (ns_Collection ?d)],
        Logvf Always ''namespace with DB %s and collection %s does not exist''
          [AStr (ns_DB ?d), AStr (ns_Collection ?d)],
        Call ''SessionProvider.Close'' []]"
    unfolding d(3,4) by simp_all
  from Dump_named_collection_missing
         [OF h1 h2, of "failing_check (Opaque ''not authorized'') ok_world" empty_manager] g2
  have c: "result (Dump ?d (failing_check (Opaque ''not authorized'') ok_world) empty_manager)
     = Returns (Some (Errorf ''error verifying collection info: %v''
                        [AErr (Opaque ''not authorized'')]))"
    by blast
  from a b c show ?thesis unfolding d by simp
qed


section \<open>Properties: the late phases of Dump\<close>

subsection \<open>Runs without some action\<close>

lemma never_iff: "never P m = (\<forall>ev\<in>set (fst m). \<not> P ev)"
  by (simp add: never_def list_ex_iff)

lemma never_ret: "never P (ret x)"
  by (simp add: never_iff ret_def)

lemma never_panic: "never P (panic s)"
  by (simp add: never_iff panic_def)

lemma never_call: "\<not> P ev \<Longrightarrow> never P (call ev a)"
  by (simp add: never_iff call_def)

lemma never_logvf: "\<not> P (Logvf v fmt args) \<Longrightarrow> never P (logvf v fmt args)"
  by (simp add: logvf_def never_call)

lemma yields_ret: "Q x \<Longrightarrow> yields Q (ret x)"
  by (simp add: yields_def ret_def)

lemma yields_panic: "yields Q (panic s)"
  by (simp add: yields_def panic_def)

lemma yields_bind: "(\<And>x. yields Q (f x)) \<Longrightarrow> yields Q (io_bind m f)"
  by (cases m; cases "snd m") (auto simp: io_bind_pair yields_def)

lemma yields_seq: "yields Q k \<Longrightarrow> yields Q (io_seq m k)"
  by (simp add: io_seq_def yields_bind)

lemma yields_bind_res:
  "yields R m \<Longrightarrow> (\<And>x. R x \<Longrightarrow> yields Q (f x)) \<Longrightarrow> yields Q (io_bind m f)"
  by (cases m; cases "snd m") (auto simp: io_bind_pair yields_def)

lemma never_bind_res:
  "never P m \<Longrightarrow> yields R m \<Longrightarrow> (\<And>x. R x \<Longrightarrow> never P (f x)) \<Longrightarrow> never P (io_bind m f)"
  by (cases m; cases "snd m") (auto simp: io_bind_pair never_iff yields_def)

lemma never_bind: "never P m \<Longrightarrow> (\<And>x. never P (f x)) \<Longrightarrow> never P (io_bind m f)"
  by (cases m; cases "snd m") (auto simp: io_bind_pair never_iff)

lemma never_seq: "never P m \<Longrightarrow> never P k \<Longrightarrow> never P (io_seq m k)"
  by (simp add: io_seq_def never_bind)

lemma never_next: "never P m \<Longrightarrow> (\<And>x. never P (k x)) \<Longrightarrow> never P (io_next m k)"
  unfolding io_next_def
  by (rule never_bind) (auto simp: never_ret split: flow.splits)

lemma never_next_res:
  "never P m \<Longrightarrow> yields R m \<Longrightarrow> (\<And>x. R (Next x) \<Longrightarrow> never P (k x)) \<Longrightarrow> never P (io_next m k)"
  unfolding io_next_def
  by (rule never_bind_res[where R = R]) (auto simp: never_ret split: flow.splits)

lemma never_quiet: "quiet m \<Longrightarrow> (\<And>ev. P ev \<Longrightarrow> 0 < phase ev) \<Longrightarrow> never P m"
  by (fastforce simp: quiet_iff never_iff)

lemma never_within:
  assumes "within lo hi m" and "\<And>ev. P ev \<Longrightarrow> 0 < phase ev \<and> (phase ev < lo \<or> hi < phase ev)"
  shows "never P m"
  unfolding never_iff
proof
  fix ev assume ev: "ev \<in> set (fst m)"
  show "\<not> P ev"
  proof
    assume "P ev"
    from assms(2)[OF this] ev have "phase ev \<in> set (phases (fst m))"
      "phase ev < lo \<or> hi < phase ev"
      by (auto simp: phases_def)
    with assms(1) show False by (fastforce simp: within_def)
  qed
qed

subsection \<open>The options that select the sink do not change during a run\<close>

lemma yields_if:
  "(c \<Longrightarrow> yields Q a) \<Longrightarrow> (\<not> c \<Longrightarrow> yields Q b) \<Longrightarrow> yields Q (if c then a else b)"
  by simp

lemma yields_DumpIntent:
  "yields (\<lambda>(d, e). OutputOptions d = OutputOptions dump) (DumpIntent dump env intent buffer)"
  unfolding DumpIntent_def
  apply (rule yields_bind)
  apply (rule yields_if)
   apply (simp add: yields_ret)
  apply (rule yields_bind_res[where R = "\<lambda>(d, q, e). OutputOptions d = OutputOptions dump"])
   apply (auto intro!: yields_bind yields_ret split: sum.splits prod.splits)
  done

lemma yields_dumpIfPresent:
  "yields (\<lambda>(d, e). OutputOptions d = OutputOptions dump) (dumpIfPresent dump w intent)"
  unfolding dumpIfPresent_def
  by (auto intro!: yields_ret yields_DumpIntent split: option.splits)

lemma yields_DumpUsersAndRoles:
  "yields (\<lambda>(d, e). OutputOptions d = OutputOptions dump) (DumpUsersAndRoles dump w mgr)"
  unfolding DumpUsersAndRoles_def
  apply (rule yields_bind_res[OF yields_dumpIfPresent])
  apply (clarsimp simp: yields_ret)
  apply (rule yields_bind_res[OF yields_dumpIfPresent])
  apply (clarsimp simp: yields_ret)
  apply (rule yields_bind_res[OF yields_dumpIfPresent])
  apply (clarsimp simp: yields_ret)
  done

lemma yields_Dump_usersAndRoles:
  "yields (\<lambda>f. case f of Next (d, e) \<Rightarrow> OutputOptions d = OutputOptions dump | Return e \<Rightarrow> True)
     (Dump_usersAndRoles dump w mgr err)"
proof -
  let ?R = "\<lambda>f. case f of Next (d, e) \<Rightarrow> OutputOptions d = OutputOptions dump | Return e \<Rightarrow> True"
  have first: "yields ?R
         (if ns_DB dump = ''admin'' \<or> ns_DB dump = '''' then
            io_bind (DumpUsersAndRoles dump w mgr) (\<lambda>(dump, err).
              case err of
                Some e \<Rightarrow> ret (Return (Some (Errorf ''error dumping users and roles: %v'' [AErr e])))
              | None \<Rightarrow> ret (Next (dump, None)))
          else ret (Next (dump, err)))"
    by (auto intro!: yields_ret yields_bind_res[OF yields_DumpUsersAndRoles] split: option.splits)
  show ?thesis
    unfolding Dump_usersAndRoles_def
    apply (rule yields_if)
     apply (rule yields_bind_res[OF first])
    apply (auto intro!: yields_ret yields_seq yields_bind split: flow.splits option.splits)
    done
qed

lemma yields_Dump_oplogCapture:
  "yields (\<lambda>f. case f of Next d \<Rightarrow> OutputOptions d = OutputOptions dump | Return e \<Rightarrow> True)
     (Dump_oplogCapture dump w mgr)"
  unfolding Dump_oplogCapture_def Let_def
  by (auto intro!: yields_ret yields_seq yields_bind yields_panic
        split: flow.splits option.splits sum.splits)

lemma yields_Dump_readQuery:
  "yields (\<lambda>f. case f of Next d \<Rightarrow> OutputOptions d = OutputOptions dump | Return e \<Rightarrow> True)
     (Dump_readQuery dump w)"
  unfolding Dump_readQuery_def
  by (auto intro!: yields_ret yields_seq yields_bind split: option.splits sum.splits)

lemma yields_Dump_authVersion:
  "yields (\<lambda>f. case f of Next d \<Rightarrow> OutputOptions d = OutputOptions dump | Return e \<Rightarrow> True)
     (Dump_authVersion dump w)"
  unfolding Dump_authVersion_def
  by (auto intro!: yields_ret yields_seq yields_bind split: option.splits sum.splits)

subsection \<open>Actions of the late phases come from phase III on\<close>

text \<open>
  Let \<open>P\<close> hold only for actions of the phases III to V, and let no run of the method
  from phase III on, for the same output options, have an action with \<open>P\<close>. Then no run
  of the whole method has one.
\<close>

lemma never_late_quiet: "\<forall>ev. P ev \<longrightarrow> 3 \<le> phase ev \<Longrightarrow> quiet m \<Longrightarrow> never P m"
  by (rule never_quiet) fastforce+

lemma never_Dump_phaseII:
  assumes late: "\<forall>ev. P ev \<longrightarrow> 3 \<le> phase ev"
    and III: "\<forall>d mgr err. OutputOptions d = opts \<longrightarrow> never P (Dump_phaseIII d w mgr err)"
    and O: "OutputOptions dump = opts"
  shows "never P (Dump_phaseII dump w mgr err)"
proof -
  have log: "never P (logvf DebugHigh ''dump phase II: regular collections'' [])"
    by (rule never_logvf) (auto dest: late[rule_format] simp: phase_def)
  have pool: "never P (DumpIntents dump (resultChan (planning w)) (Intents mgr))"
    by (rule never_within[OF within_DumpIntents]) (auto dest: late[rule_format])
  show ?thesis
    unfolding Dump_phaseII_def
    by (rule never_seq[OF log], rule never_bind[OF pool]) (simp add: never_ret III[rule_format, OF O])
qed

lemma never_Dump_phaseI:
  assumes late: "\<forall>ev. P ev \<longrightarrow> 3 \<le> phase ev"
    and III: "\<forall>d mgr err. OutputOptions d = opts \<longrightarrow> never P (Dump_phaseIII d w mgr err)"
    and O: "OutputOptions dump = opts"
  shows "never P (Dump_phaseI dump w mgr)"
proof -
  note nq = never_late_quiet[of P, OF late]
  note II = never_Dump_phaseII[of P, OF late III]
  have t1: "never P (io_next (Dump_usersAndRoles d w mgr e)
                      (\<lambda>(dump, err). Dump_phaseII dump w mgr err))"
    if "OutputOptions d = opts" for d e
    apply (rule never_next_res[OF nq[OF quiet_Dump_usersAndRoles] yields_Dump_usersAndRoles])
    using that by (auto intro: II)
  have t2: "never P (io_next (Dump_archivePrelude d w e) (\<lambda>err.
               io_next (Dump_usersAndRoles d w mgr err)
                      (\<lambda>(dump, err). Dump_phaseII dump w mgr err)))"
    if "OutputOptions d = opts" for d e
    by (rule never_next[OF nq[OF quiet_Dump_archivePrelude]]) (rule t1[OF that])
  have t3: "never P (io_bind m (\<lambda>(dump, err).
               io_next (Dump_archivePrelude dump w err) (\<lambda>err.
               io_next (Dump_usersAndRoles dump w mgr err)
                      (\<lambda>(dump, err). Dump_phaseII dump w mgr err))))"
    if "quiet m" and "yields (\<lambda>(d, e). OutputOptions d = opts) m" for m
    by (rule never_bind_res[OF nq[OF that(1)] that(2)]) (auto intro: t2)
  have sv: "quiet (case r of
                Inl e \<Rightarrow>
                  io_seq (logvf Always ''warning, couldn't get version information from server: %v''
                            [AErr e])
                  (ret (dump\<lparr> serverVersion := ServerVersionUnknown (fs w) \<rparr>, Some e))
              | Inr v \<Rightarrow> ret (dump\<lparr> serverVersion := v \<rparr>, None))"
        "yields (\<lambda>(d, e). OutputOptions d = opts) (case r of
                Inl e \<Rightarrow>
                  io_seq (logvf Always ''warning, couldn't get version information from server: %v''
                            [AErr e])
                  (ret (dump\<lparr> serverVersion := ServerVersionUnknown (fs w) \<rparr>, Some e))
              | Inr v \<Rightarrow> ret (dump\<lparr> serverVersion := v \<rparr>, None))" for r
    by (auto intro!: quiet_intros quiet_logvf yields_seq yields_ret simp: phase_def O
          split: sum.splits)
  show ?thesis
    unfolding Dump_phaseI_def
    apply (rule never_seq[OF nq])
     apply (simp add: quiet_logvf phase_def)
    apply (rule never_bind[OF nq[OF quiet_DumpMetadata]])
    apply (split option.split, intro conjI allI impI)
     apply (rule never_bind[OF nq])
      apply (simp add: quiet_call phase_def)
     apply (rule t3[OF sv])
    apply (rule never_ret)
    done
qed

lemma never_Dump_plan:
  assumes late: "\<forall>ev. P ev \<longrightarrow> 3 \<le> phase ev"
    and III: "\<forall>d mgr err. OutputOptions d = opts \<longrightarrow> never P (Dump_phaseIII d w mgr err)"
    and O: "OutputOptions dump = opts"
  shows "never P (Dump_plan dump w mgr)"
proof -
  note nq = never_late_quiet[of P, OF late]
  note I = never_Dump_phaseI[of P, OF late III O]
  have q: "never P (call ev a)" if "phase ev = 0" for ev and a :: "'x"
    by (rule nq[OF quiet_call[OF that]])
  show ?thesis
    unfolding Dump_plan_def
    apply (rule never_seq[OF nq])
     apply (auto intro!: quiet_intros quiet_logvf quiet_call simp: phase_def)[1]
    apply (rule never_bind[OF nq[OF quiet_Dump_createIntents]])
    apply (auto intro!: never_ret never_bind q I simp: phase_def split: option.splits)
    done
qed

lemma never_Dump_connect:
  assumes late: "\<forall>ev. P ev \<longrightarrow> 3 \<le> phase ev"
    and III: "\<forall>d mgr err. OutputOptions d = opts \<longrightarrow> never P (Dump_phaseIII d w mgr err)"
    and O: "OutputOptions dump = opts"
  shows "never P (Dump_connect dump w mgr)"
proof -
  note nq = never_late_quiet[of P, OF late]
  note plan = never_Dump_plan[of P, OF late III]
  let ?start = "if Oplog (OutputOptions dump) then
                 io_bind (call (Call ''dump.determineOplogCollectionName'' [])
                            (determineOplogCollectionName (server w))) (\<lambda>err.
                 case err of
                   Some e \<Rightarrow> ret (Return (Some (Errorf ''error finding oplog: %v'' [AErr e])))
                 | None \<Rightarrow>
                     io_seq (logvf Info ''getting most recent oplog timestamp'' [])
                     (io_bind (call (Call ''dump.getOplogCopyStartTime'' [])
                                 (getOplogCopyStartTime (server w))) (\<lambda>r.
                      case r of
                        Inl e \<Rightarrow> ret (Return (Some (Errorf ''error getting oplog start: %v'' [AErr e])))
                      | Inr ts \<Rightarrow> ret (Next (dump\<lparr> oplogStart := ts \<rparr>)))))
               else ret (Next dump)"
  have q: "quiet ?start"
    by (auto intro!: quiet_intros quiet_call quiet_logvf simp: phase_def
          split: option.splits sum.splits)
  have y: "yields (\<lambda>f. case f of Next d \<Rightarrow> OutputOptions d = opts | Return e \<Rightarrow> True) ?start"
    by (auto intro!: yields_ret yields_bind yields_seq simp: O split: option.splits sum.splits)
  have t: "never P (io_next ?start (\<lambda>dump. Dump_plan dump w mgr))"
    by (rule never_next_res[OF nq[OF q] y]) (auto intro: plan)
  show ?thesis
    unfolding Dump_connect_def
    apply (rule never_bind[OF nq])
     apply (simp add: quiet_call phase_def)
    apply (split option.split, intro conjI allI impI)
     apply (rule never_bind[OF nq])
      apply (simp add: quiet_call phase_def)
     apply (split option.split, intro conjI allI impI)
      apply (rule t)
     apply (rule never_ret)
    apply (rule never_ret)
    done
qed

lemma never_Dump_archive:
  assumes late: "\<forall>ev. P ev \<longrightarrow> 3 \<le> phase ev"
    and III: "\<forall>d mgr err. OutputOptions d = opts \<longrightarrow> never P (Dump_phaseIII d w mgr err)"
    and O: "OutputOptions dump = opts"
  shows "never P (Dump_archive dump w mgr)"
proof -
  note nq = never_late_quiet[of P, OF late]
  note connect = never_Dump_connect[of P, OF late III O]
  have q: "never P (call ev a)" if "phase ev = 0" for ev and a :: "'x"
    by (rule nq[OF quiet_call[OF that]])
  show ?thesis
    unfolding Dump_archive_def
    by (auto intro!: never_ret never_bind never_seq q connect nq[OF quiet_getArchiveOut]
          nq[OF quiet_archiveFinalizer] simp: phase_def)
qed

lemma never_Dump_start:
  assumes late: "\<forall>ev. P ev \<longrightarrow> 3 \<le> phase ev"
    and III: "\<forall>d mgr err. OutputOptions d = opts \<longrightarrow> never P (Dump_phaseIII d w mgr err)"
    and O: "OutputOptions dump = opts"
  shows "never P (Dump_start dump w mgr)"
proof -
  note nq = never_late_quiet[of P, OF late]
  note archive = never_Dump_archive[of P, OF late III]
  have t1: "never P (io_next (Dump_authVersion d w) (\<lambda>dump. Dump_archive dump w mgr))"
    if "OutputOptions d = opts" for d
    apply (rule never_next_res[OF nq[OF quiet_Dump_authVersion] yields_Dump_authVersion])
    using that by (auto intro: archive)
  have t2: "never P (io_next (Dump_readQuery dump w) (\<lambda>dump.
               io_next (Dump_authVersion dump w) (\<lambda>dump. Dump_archive dump w mgr)))"
    apply (rule never_next_res[OF nq[OF quiet_Dump_readQuery] yields_Dump_readQuery])
    using O by (auto intro: t1)
  show ?thesis
    unfolding Dump_start_def
    apply (rule never_seq[OF nq])
     apply (simp add: quiet_logvf phase_def)
    apply (rule t2)
    done
qed

lemma never_Dump:
  assumes late: "\<forall>ev. P ev \<longrightarrow> 3 \<le> phase ev"
    and III: "\<forall>d mgr err. OutputOptions d = OutputOptions dump
                \<longrightarrow> never P (Dump_phaseIII d w mgr err)"
  shows "never P (Dump dump w mgr)"
proof -
  note nq = never_late_quiet[of P, OF late]
  note start = never_Dump_start[of P, OF late III refl]
  have q: "never P (call ev a)" if "phase ev = 0" for ev and a :: "'x"
    by (rule nq[OF quiet_call[OF that]])
  have ql: "never P (logvf v fmt args)" if "phase (Logvf v fmt args) = 0" for v fmt args
    by (rule nq[OF quiet_logvf[OF that]])
  show ?thesis
    unfolding Dump_def Let_def
    by (auto intro!: never_ret never_bind never_seq q ql start
          nq[OF quiet_verifyCollectionExists] simp: phase_def split: option.splits)
qed

subsection \<open>Splitting a run in phase order at a late action\<close>

lemma phased_split:
  assumes "phased m" and "fst m = pre @ ev # post" and "phase ev = 3 \<or> phase ev = 4"
  shows "workers_done pre"
    and "\<forall>e\<in>set post. \<not> is_worker_event e"
    and "\<forall>e\<in>set post. phase e = 0 \<or> phase ev \<le> phase e"
proof -
  from assms(3) have pos: "0 < phase ev" by auto
  from assms(1,2) have "sorted (phases (pre @ ev # post))"
    by (simp add: phased_def within_def)
  with pos have "\<forall>n\<in>set (phases post). phase ev \<le> n"
    by (simp add: phases_append phases_Cons sorted_append)
  then show later: "\<forall>e\<in>set post. phase e = 0 \<or> phase ev \<le> phase e"
    by (auto simp: phases_def)
  show nw: "\<forall>e\<in>set post. \<not> is_worker_event e"
  proof
    fix e assume e: "e \<in> set post"
    show "\<not> is_worker_event e"
    proof
      assume "is_worker_event e"
      then have "phase e = 2" by (rule phase_worker)
      with later e assms(3) show False by force
    qed
  qed
  have nev: "\<not> is_worker_event ev"
    using phase_worker[of ev] assms(3) by auto
  from assms(3) pos have "\<exists>n\<in>set (phases (fst m)). n = 3 \<or> n = 4"
    unfolding assms(2) by (auto simp: phases_append phases_Cons)
  with assms(1) have "workers_done (pre @ ev # post)"
    by (simp add: phased_def late_after_workers_def assms(2))
  moreover have "filter (is_call ''go'') (ev # post) = []
                 \<and> filter (is_call ''<-resultChan'') (ev # post) = []"
    by (rule filter_none) (use nev nw in auto)
  ultimately show "workers_done pre"
    by (simp add: workers_done_def)
qed

subsection \<open>The oplog capture\<close>




lemma oplog_calls_simps:
  "oplog_calls [] = []"
  "oplog_calls (a @ b) = oplog_calls a @ oplog_calls b"
  "oplog_calls (Logvf v fmt args # t) = oplog_calls t"
  "oplog_calls (Call ''waitForSourceWritesDoneBarrier'' x # t) = oplog_calls t"
  "oplog_calls (Call ''dump.getCurrentOplogTime'' x # t)
     = Call ''dump.getCurrentOplogTime'' x # oplog_calls t"
  "oplog_calls (Call ''dump.checkOplogTimestampExists'' x # t)
     = Call ''dump.checkOplogTimestampExists'' x # oplog_calls t"
  "oplog_calls (Call ''dump.DumpOplogBetweenTimestamps'' x # t)
     = Call ''dump.DumpOplogBetweenTimestamps'' x # oplog_calls t"
  by (simp_all add: oplog_calls_def is_call_def)

subsection \<open>No copy after a failed first check\<close>




subsection \<open>No prelude for the archive and for standard output\<close>

lemma prelude_late: "\<forall>ev. is_prelude_event ev \<longrightarrow> 3 \<le> phase ev"
  by (simp add: is_prelude_event_def)

lemma never_prelude_phaseIII:
  assumes "Archive (OutputOptions d) \<noteq> '''' \<or> Out (OutputOptions d) = ''-''"
  shows "never is_prelude_event (Dump_phaseIII d w mgr err)"
proof -
  have IV: "never is_prelude_event (Dump_phaseIV d' w e)"
    if "OutputOptions d' = OutputOptions d" for d' e
    unfolding Dump_phaseIV_def using that assms
    by (auto intro!: never_seq never_logvf never_ret simp: is_prelude_event_def phase_def)
  have cap: "never is_prelude_event (Dump_oplogCapture d w mgr)"
    by (rule never_within[OF within_Dump_oplogCapture]) (simp add: is_prelude_event_def)
  have nxt: "never is_prelude_event
               (io_next (Dump_oplogCapture d w mgr) (\<lambda>dump. Dump_phaseIV dump w None))"
    by (rule never_next_res[OF cap yields_Dump_oplogCapture]) (auto intro: IV)
  show ?thesis
    unfolding Dump_phaseIII_def
    by (auto intro!: never_seq never_logvf nxt IV simp: is_prelude_event_def phase_def)
qed


section \<open>Properties: the prelude phase of Dump\<close>

lemma Dump_phaseIV_tree_run:
  assumes "Archive (OutputOptions dump) = ''''" and "Out (OutputOptions dump) \<noteq> ''-''"
  shows "trace (Dump_phaseIV dump w err) =
           Logvf DebugLow ''dump phase IV: top level metadata json'' []
           # trace (DumpPreludeMetadata dump (fs w))
           @ (if result (DumpPreludeMetadata dump (fs w)) = Returns None
              then [Logvf DebugLow ''finishing dump'' []] else [])"
proof -
  obtain t r where p: "DumpPreludeMetadata dump (fs w) = (t, r)"
    by (cases "DumpPreludeMetadata dump (fs w)")
  show ?thesis
    unfolding Dump_phaseIV_def p using assms
    by (cases r)
       (auto simp: trace_def result_def io_seq_call logvf_def io_bind_pair ret_def
             split: option.splits)
qed

lemma DumpPreludeMetadata_written_run:
  assumes "os_Create f (prelude_filename dump f) = None"
    and "json_Marshal f (PreludeData_json \<lparr> P_ServerVersion = serverVersion dump,
                                            P_ToolVersion = VersionStr (ToolOptions dump) \<rparr>)
           = Inr bytes"
  shows "trace (DumpPreludeMetadata dump f) =
           [Logvf DebugLow ''dumping prelude metadata to file %#q''
              [AStr (prelude_filename dump f)],
            Call ''os.Create'' [AStr (prelude_filename dump f)],
            CallBytes ''writer.Write'' (prelude_filename dump f) bytes]
           @ (if Gzip (OutputOptions dump) then [Call ''writer.Close'' []] else [])
           @ [Call ''file.Close'' [AStr (prelude_filename dump f)]]"
  unfolding DumpPreludeMetadata_def Let_def
  by (cases "writer_Write f")
     (simp_all add: assms trace_def io_seq_call logvf_def io_bind_call io_bind_pair io_seq_when
                    ret_def)


section \<open>Properties: a run of Dump that reaches its end\<close>

subsection \<open>What the dump of the intents leaves unchanged\<close>

lemma agrees_refl: "agrees d d"
  by (simp add: agrees_def)

lemma agrees_trans: "agrees a b \<Longrightarrow> agrees b c \<Longrightarrow> agrees a c"
  by (simp add: agrees_def)

lemma keeps_DumpIntent:
  "yields (\<lambda>(d, e). agrees d dump) (DumpIntent dump env intent buffer)"
  unfolding DumpIntent_def
  apply (rule yields_bind)
  apply (rule yields_if)
   apply (simp add: yields_ret agrees_refl)
  apply (rule yields_bind_res[where R = "\<lambda>(d, q, e). agrees d dump"])
   apply (auto intro!: yields_bind yields_ret simp: agrees_def split: sum.splits prod.splits)
  done

lemma keeps_dumpIfPresent:
  "yields (\<lambda>(d, e). agrees d dump) (dumpIfPresent dump w intent)"
  unfolding dumpIfPresent_def
  by (auto intro!: yields_ret keeps_DumpIntent simp: agrees_refl split: option.splits)

lemma keeps_DumpUsersAndRoles:
  "yields (\<lambda>(d, e). agrees d dump) (DumpUsersAndRoles dump w mgr)"
proof -
  have step: "yields (\<lambda>(d', e). agrees d' dump) (io_bind (dumpIfPresent d w i) k)"
    if "agrees d dump" and "\<And>d' e. agrees d' dump \<Longrightarrow> yields (\<lambda>(d', e). agrees d' dump) (k (d', e))"
    for d i and k :: "MongoDump \<times> error option \<Rightarrow> (MongoDump \<times> error option) io"
    apply (rule yields_bind_res[OF keeps_dumpIfPresent])
    using that by (auto intro: agrees_trans)
  show ?thesis
    unfolding DumpUsersAndRoles_def
    apply (rule step[OF agrees_refl])
    apply (clarsimp simp: yields_ret)
    apply (rule step, assumption)
    apply (clarsimp simp: yields_ret)
    apply (rule step, assumption)
    apply (clarsimp simp: yields_ret)
    done
qed

lemma keeps_Dump_usersAndRoles:
  "yields (\<lambda>f. case f of Next (d, e) \<Rightarrow> agrees d dump | Return e \<Rightarrow> True)
     (Dump_usersAndRoles dump w mgr err)"
proof -
  let ?R = "\<lambda>f. case f of Next (d, e) \<Rightarrow> agrees d dump | Return e \<Rightarrow> True"
  have first: "yields ?R
         (if ns_DB dump = ''admin'' \<or> ns_DB dump = '''' then
            io_bind (DumpUsersAndRoles dump w mgr) (\<lambda>(dump, err).
              case err of
                Some e \<Rightarrow> ret (Return (Some (Errorf ''error dumping users and roles: %v'' [AErr e])))
              | None \<Rightarrow> ret (Next (dump, None)))
          else ret (Next (dump, err)))"
    by (auto intro!: yields_ret yields_bind_res[OF keeps_DumpUsersAndRoles]
          simp: agrees_refl split: option.splits)
  have tools: "ns_DB d = ns_DB dump" "DumpDBUsersAndRoles (OutputOptions d) = DumpDBUsersAndRoles (OutputOptions dump)"
    if "agrees d dump" for d
    using that by (simp_all add: agrees_def ns_DB_def)
  show ?thesis
    unfolding Dump_usersAndRoles_def
    apply (rule yields_if)
     apply (rule yields_bind_res[OF first])
     apply (auto intro!: yields_ret yields_seq yields_bind simp: agrees_refl
          split: flow.splits option.splits)
    done
qed

lemma keeps_Dump_oplogCapture:
  "yields (\<lambda>f. case f of Next d \<Rightarrow> agrees d dump | Return e \<Rightarrow> True)
     (Dump_oplogCapture dump w mgr)"
  unfolding Dump_oplogCapture_def Let_def
  by (auto intro!: yields_ret yields_seq yields_bind yields_panic simp: agrees_def
        split: flow.splits option.splits sum.splits)

lemma keeps_Dump_readQuery:
  "yields (\<lambda>f. case f of Next d \<Rightarrow> agrees d dump | Return e \<Rightarrow> True) (Dump_readQuery dump w)"
  unfolding Dump_readQuery_def
  by (auto intro!: yields_ret yields_seq yields_bind simp: agrees_def
        split: option.splits sum.splits)

lemma keeps_Dump_authVersion:
  "yields (\<lambda>f. case f of Next d \<Rightarrow> agrees d dump | Return e \<Rightarrow> True) (Dump_authVersion dump w)"
  unfolding Dump_authVersion_def
  by (auto intro!: yields_ret yields_seq yields_bind simp: agrees_def
        split: option.splits sum.splits)

subsection \<open>The late part of a run\<close>

lemma late_append: "late (a @ b) = late a @ late b"
  by (simp add: late_def)

lemma early_iff: "never is_late m = (late (fst m) = [])"
  by (auto simp: never_iff late_def filter_empty_conv)

lemma early_quiet: "quiet m \<Longrightarrow> never is_late m"
  by (rule never_quiet) (auto simp: is_late_def)

lemma early_DumpIntents: "never is_late (DumpIntents dump chan intents)"
  by (rule never_within[OF within_DumpIntents]) (auto simp: is_late_def)

lemma tail_early: "never is_late m \<Longrightarrow> tail_of G m"
  by (simp add: tail_of_def early_iff)

lemma tail_ret: "tail_of G (ret x)"
  by (simp add: tail_early never_ret)

lemma tail_prefix_res:
  "never is_late m \<Longrightarrow> yields R m \<Longrightarrow> (\<And>x. R x \<Longrightarrow> tail_of G (f x))
     \<Longrightarrow> tail_of G (io_bind m f)"
  by (cases m; cases "snd m")
     (auto simp: io_bind_pair tail_of_def early_iff yields_def late_append)

lemma tail_prefix:
  "never is_late m \<Longrightarrow> (\<And>x. tail_of G (f x)) \<Longrightarrow> tail_of G (io_bind m f)"
  by (cases m; cases "snd m")
     (auto simp: io_bind_pair tail_of_def early_iff late_append)

lemma tail_seq_prefix: "never is_late m \<Longrightarrow> tail_of G k \<Longrightarrow> tail_of G (io_seq m k)"
  by (simp add: io_seq_def tail_prefix)

lemma tail_next_prefix_res:
  "never is_late m \<Longrightarrow> yields R m \<Longrightarrow> (\<And>x. R (Next x) \<Longrightarrow> tail_of G (k x))
     \<Longrightarrow> tail_of G (io_next m k)"
  unfolding io_next_def
  by (rule tail_prefix_res[where R = R]) (auto simp: tail_ret split: flow.splits)

lemma tail_next_prefix:
  "never is_late m \<Longrightarrow> (\<And>x. tail_of G (k x)) \<Longrightarrow> tail_of G (io_next m k)"
  unfolding io_next_def
  by (rule tail_prefix) (auto simp: tail_ret split: flow.splits)

lemma tail_suffix:
  "tail_of G m \<Longrightarrow> (\<And>x. never is_late (f x)) \<Longrightarrow> tail_of G (io_bind m f)"
  by (cases m; cases "snd m")
     (auto simp: io_bind_pair tail_of_def early_iff late_append)

lemma early_call: "phase ev = 0 \<Longrightarrow> never is_late (call ev a)"
  by (rule early_quiet[OF quiet_call])

lemma early_logvf: "phase (Logvf v fmt args) < 3 \<Longrightarrow> never is_late (logvf v fmt args)"
  by (rule never_logvf) (simp add: is_late_def)

lemma tail_if:
  "(c \<Longrightarrow> tail_of G a) \<Longrightarrow> (\<not> c \<Longrightarrow> tail_of G b) \<Longrightarrow> tail_of G (if c then a else b)"
  by simp

subsection \<open>The late part of a run of Dump is that of phase III\<close>

text \<open>
  Let \<open>G\<close> hold for the late part of every run of the method from phase III on, for the
  dump objects that agree with \<open>ref\<close>. Then every run of the method from an earlier
  point on has no late part or one with \<open>G\<close>.
\<close>

lemma tail_Dump_phaseII:
  assumes G: "\<forall>d m e. agrees d ref \<longrightarrow> G (late (fst (Dump_phaseIII d w m e)))"
    and d: "agrees d ref"
  shows "tail_of G (Dump_phaseII d w mgr err)"
proof -
  have III: "tail_of G (Dump_phaseIII d w mgr err)"
    unfolding tail_of_def using G d by blast
  show ?thesis
    unfolding Dump_phaseII_def
    apply (rule tail_seq_prefix)
     apply (simp add: early_logvf phase_def)
    apply (rule tail_prefix[OF early_DumpIntents])
    apply (rule tail_if)
     apply (rule tail_ret)
    apply (rule III)
    done
qed

lemma tail_Dump_phaseI:
  assumes G: "\<forall>d m e. agrees d (ref\<lparr> serverVersion := sv \<rparr>)
                \<longrightarrow> G (late (fst (Dump_phaseIII d w m e)))"
    and sv: "sv = (case ServerVersion (server w) of
                     Inr v \<Rightarrow> v | Inl e \<Rightarrow> ServerVersionUnknown (fs w))"
    and d: "agrees d ref"
  shows "tail_of G (Dump_phaseI d w mgr)"
proof -
  let ?ref = "ref\<lparr> serverVersion := sv \<rparr>"
  note II = tail_Dump_phaseII[where ref = ?ref and G = G and w = w, OF G]
  have t1: "tail_of G (io_next (Dump_usersAndRoles d' w mgr e)
                      (\<lambda>(dump, err). Dump_phaseII dump w mgr err))"
    if "agrees d' ?ref" for d' e
  proof (rule tail_next_prefix_res[OF early_quiet[OF quiet_Dump_usersAndRoles]
             keeps_Dump_usersAndRoles])
    fix x :: "MongoDump \<times> error option"
    assume "case Next x of Next (d, e) \<Rightarrow> agrees d d' | Return e \<Rightarrow> True"
    then have "agrees (fst x) ?ref"
      using that by (cases x) (auto intro: agrees_trans)
    from II[OF this] show "tail_of G ((\<lambda>(dump, err). Dump_phaseII dump w mgr err) x)"
      by (cases x) simp
  qed
  have t2: "tail_of G (io_next (Dump_archivePrelude d' w e) (\<lambda>err.
               io_next (Dump_usersAndRoles d' w mgr err)
                      (\<lambda>(dump, err). Dump_phaseII dump w mgr err)))"
    if "agrees d' ?ref" for d' e
    by (rule tail_next_prefix[OF early_quiet[OF quiet_Dump_archivePrelude]]) (rule t1[OF that])
  have t3: "tail_of G (io_bind m (\<lambda>(dump, err).
               io_next (Dump_archivePrelude dump w err) (\<lambda>err.
               io_next (Dump_usersAndRoles dump w mgr err)
                      (\<lambda>(dump, err). Dump_phaseII dump w mgr err))))"
    if "quiet m" and "yields (\<lambda>(d', e). agrees d' ?ref) m" for m
  proof (rule tail_prefix_res[OF early_quiet[OF that(1)] that(2)])
    fix x :: "MongoDump \<times> error option"
    assume "case x of (d', e) \<Rightarrow> agrees d' ?ref"
    then have "agrees (fst x) ?ref" by (cases x) simp
    from t2[OF this, of "snd x"]
    show "tail_of G (case x of (dump, err) \<Rightarrow>
               io_next (Dump_archivePrelude dump w err) (\<lambda>err.
               io_next (Dump_usersAndRoles dump w mgr err)
                      (\<lambda>(dump, err). Dump_phaseII dump w mgr err)))"
      by (cases x) simp
  qed
  have svq: "quiet (case r of
                Inl e \<Rightarrow>
                  io_seq (logvf Always ''warning, couldn't get version information from server: %v''
                            [AErr e])
                  (ret (d\<lparr> serverVersion := ServerVersionUnknown (fs w) \<rparr>, Some e))
              | Inr v \<Rightarrow> ret (d\<lparr> serverVersion := v \<rparr>, None))" for r
    by (auto intro!: quiet_intros quiet_logvf simp: phase_def split: sum.splits)
  have svy: "yields (\<lambda>(d', e). agrees d' ?ref) (case ServerVersion (server w) of
                Inl e \<Rightarrow>
                  io_seq (logvf Always ''warning, couldn't get version information from server: %v''
                            [AErr e])
                  (ret (d\<lparr> serverVersion := ServerVersionUnknown (fs w) \<rparr>, Some e))
              | Inr v \<Rightarrow> ret (d\<lparr> serverVersion := v \<rparr>, None))"
    using d unfolding sv
    by (auto intro!: yields_seq yields_ret simp: agrees_def split: sum.splits)
  have t4: "tail_of G (io_bind (call (Call ''SessionProvider.ServerVersion'' [])
                                  (ServerVersion (server w)))
          (\<lambda>r.
            io_bind
             (case r of
                Inl e \<Rightarrow>
                  io_seq (logvf Always ''warning, couldn't get version information from server: %v''
                            [AErr e])
                  (ret (d\<lparr> serverVersion := ServerVersionUnknown (fs w) \<rparr>, Some e))
              | Inr v \<Rightarrow> ret (d\<lparr> serverVersion := v \<rparr>, None))
             (\<lambda>(dump, err).
               io_next (Dump_archivePrelude dump w err) (\<lambda>err.
               io_next (Dump_usersAndRoles dump w mgr err) (\<lambda>(dump, err).
               Dump_phaseII dump w mgr err)))))"
    apply (rule tail_prefix_res[where R = "\<lambda>r. r = ServerVersion (server w)"])
      apply (simp add: early_call phase_def)
     apply (simp add: yields_def call_def)
    apply (simp only:)
    apply (rule t3[OF svq svy])
    done
  show ?thesis
    unfolding Dump_phaseI_def
    apply (rule tail_seq_prefix)
     apply (simp add: early_logvf phase_def)
    apply (rule tail_prefix[OF early_quiet[OF quiet_DumpMetadata]])
    apply (split option.split, intro conjI allI impI)
     apply (rule t4)
    apply (rule tail_ret)
    done
qed

lemma tail_Dump_plan:
  assumes G: "\<forall>d m e. agrees d (ref\<lparr> serverVersion := sv \<rparr>)
                \<longrightarrow> G (late (fst (Dump_phaseIII d w m e)))"
    and sv: "sv = (case ServerVersion (server w) of
                     Inr v \<Rightarrow> v | Inl e \<Rightarrow> ServerVersionUnknown (fs w))"
    and d: "agrees d ref"
  shows "tail_of G (Dump_plan d w mgr)"
proof -
  note I = tail_Dump_phaseI[where ref = ref and sv = sv and G = G and w = w, OF G sv d]
  have q: "never is_late (call ev a)" if "phase ev = 0" for ev and a :: "'x"
    by (rule early_call[OF that])
  show ?thesis
    unfolding Dump_plan_def
    apply (rule tail_seq_prefix)
     apply (rule early_quiet)
     apply (auto intro!: quiet_intros quiet_logvf quiet_call simp: phase_def)[1]
    apply (rule tail_prefix[OF early_quiet[OF quiet_Dump_createIntents]])
    apply (auto intro!: tail_ret tail_prefix q never_ret I simp: phase_def split: option.splits)
    done
qed

lemma tail_Dump_connect:
  assumes G: "\<forall>d m e. agrees d (planned ref w) \<longrightarrow> G (late (fst (Dump_phaseIII d w m e)))"
    and d: "agrees d ref"
  shows "tail_of G (Dump_connect d w mgr)"
proof -
  let ?sv = "case ServerVersion (server w) of Inr v \<Rightarrow> v | Inl e \<Rightarrow> ServerVersionUnknown (fs w)"
  let ?ref1 = "if Oplog (OutputOptions ref) then
                 (case getOplogCopyStartTime (server w) of
                    Inr ts \<Rightarrow> ref\<lparr> oplogStart := ts \<rparr>
                  | Inl e \<Rightarrow> ref)
               else ref"
  have p: "planned ref w = ?ref1\<lparr> serverVersion := ?sv \<rparr>"
    by (simp add: planned_def)
  note plan = tail_Dump_plan[where ref = ?ref1 and sv = ?sv and G = G and w = w, OF G[unfolded p] refl]
  let ?start = "if Oplog (OutputOptions d) then
                 io_bind (call (Call ''dump.determineOplogCollectionName'' [])
                            (determineOplogCollectionName (server w))) (\<lambda>err.
                 case err of
                   Some e \<Rightarrow> ret (Return (Some (Errorf ''error finding oplog: %v'' [AErr e])))
                 | None \<Rightarrow>
                     io_seq (logvf Info ''getting most recent oplog timestamp'' [])
                     (io_bind (call (Call ''dump.getOplogCopyStartTime'' [])
                                 (getOplogCopyStartTime (server w))) (\<lambda>r.
                      case r of
                        Inl e \<Rightarrow> ret (Return (Some (Errorf ''error getting oplog start: %v'' [AErr e])))
                      | Inr ts \<Rightarrow> ret (Next (d\<lparr> oplogStart := ts \<rparr>)))))
               else ret (Next d)"
  have q: "quiet ?start"
    by (auto intro!: quiet_intros quiet_call quiet_logvf simp: phase_def
          split: option.splits sum.splits)
  have same: "Oplog (OutputOptions d) = Oplog (OutputOptions ref)"
    using d by (simp add: agrees_def)
  have y: "yields (\<lambda>f. case f of Next d' \<Rightarrow> agrees d' ?ref1 | Return e \<Rightarrow> True) ?start"
  proof (cases "Oplog (OutputOptions ref)")
    case False
    with same d show ?thesis by (simp add: yields_ret)
  next
    case True
    have inner: "yields (\<lambda>f. case f of Next d' \<Rightarrow> agrees d' ?ref1 | Return e \<Rightarrow> True)
          (io_bind (call (Call ''dump.getOplogCopyStartTime'' [])
                                 (getOplogCopyStartTime (server w))) (\<lambda>r.
                      case r of
                        Inl e \<Rightarrow> ret (Return (Some (Errorf ''error getting oplog start: %v'' [AErr e])))
                      | Inr ts \<Rightarrow> ret (Next (d\<lparr> oplogStart := ts \<rparr>))))"
      using True d
      by (cases "getOplogCopyStartTime (server w)")
         (simp_all add: io_bind_call yields_def ret_def agrees_def)
    from True same have o: "Oplog (OutputOptions d)" by simp
    show ?thesis
      apply (simp only: o if_True)
      apply (rule yields_bind)
      apply (split option.split, intro conjI allI impI)
       apply (rule yields_seq)
       apply (rule inner)
      apply (simp add: yields_ret)
      done
  qed
  have t: "tail_of G (io_next ?start (\<lambda>dump. Dump_plan dump w mgr))"
    by (rule tail_next_prefix_res[OF early_quiet[OF q] y]) (auto intro: plan)
  show ?thesis
    unfolding Dump_connect_def
    apply (rule tail_prefix)
     apply (simp add: early_call phase_def)
    apply (split option.split, intro conjI allI impI)
     apply (rule tail_prefix)
      apply (simp add: early_call phase_def)
     apply (split option.split, intro conjI allI impI)
      apply (rule t)
     apply (rule tail_ret)
    apply (rule tail_ret)
    done
qed

lemma tail_Dump_archive:
  assumes G: "\<forall>d m e. agrees d (planned ref w) \<longrightarrow> G (late (fst (Dump_phaseIII d w m e)))"
    and d: "agrees d ref"
  shows "tail_of G (Dump_archive d w mgr)"
proof -
  note connect = tail_Dump_connect[where ref = ref and w = w and G = G, OF G d]
  have fin: "tail_of G (io_bind (Dump_connect d w mgr) (archiveFinalizer w))"
    by (rule tail_suffix[OF connect early_quiet[OF quiet_archiveFinalizer]])
  show ?thesis
    unfolding Dump_archive_def
    apply (rule tail_if)
     apply (rule tail_prefix[OF early_quiet[OF quiet_getArchiveOut]])
     apply (rule tail_if)
      apply (rule tail_ret)
     apply (rule tail_seq_prefix)
      apply (simp add: early_call phase_def)
     apply (rule fin)
    apply (rule connect)
    done
qed

lemma tail_Dump_start:
  assumes G: "\<forall>d m e. agrees d (planned ref w) \<longrightarrow> G (late (fst (Dump_phaseIII d w m e)))"
    and d: "agrees d ref"
  shows "tail_of G (Dump_start d w mgr)"
proof -
  note archive = tail_Dump_archive[where ref = ref and w = w and G = G, OF G]
  have t1: "tail_of G (io_next (Dump_authVersion d' w) (\<lambda>dump. Dump_archive dump w mgr))"
    if "agrees d' ref" for d'
    apply (rule tail_next_prefix_res[OF early_quiet[OF quiet_Dump_authVersion]
             keeps_Dump_authVersion])
    using that by (auto intro: archive agrees_trans)
  have t2: "tail_of G (io_next (Dump_readQuery d w) (\<lambda>dump.
               io_next (Dump_authVersion dump w) (\<lambda>dump. Dump_archive dump w mgr)))"
    apply (rule tail_next_prefix_res[OF early_quiet[OF quiet_Dump_readQuery]
             keeps_Dump_readQuery])
    using d by (auto intro: t1 agrees_trans)
  show ?thesis
    unfolding Dump_start_def
    apply (rule tail_seq_prefix)
     apply (simp add: early_logvf phase_def)
    apply (rule t2)
    done
qed

lemma tail_Dump:
  assumes G: "\<forall>d m e. agrees d (planned dump w) \<longrightarrow> G (late (fst (Dump_phaseIII d w m e)))"
  shows "tail_of G (Dump dump w mgr)"
proof -
  note start = tail_Dump_start[where ref = dump and w = w and G = G, OF G agrees_refl]
  have q: "never is_late (call ev a)" if "phase ev = 0" for ev and a :: "'x"
    by (rule early_call[OF that])
  have body: "tail_of G
      (let barrier = SourceWritesDoneBarrier (InputOptions dump) in
       io_bind (if \<not> Oplog (OutputOptions dump) \<and> barrier \<noteq> '''' then
                  call (Call ''waitForSourceWritesDoneBarrier'' [AStr barrier])
                    (waitForSourceWritesDoneBarrier (planning w) barrier)
                else ret None) (\<lambda>err.
       if err \<noteq> None then ret err
       else
         io_bind (verifyCollectionExists dump w) (\<lambda>(found, err).
         case err of
           Some e \<Rightarrow> ret (Some (Errorf ''error verifying collection info: %v'' [AErr e]))
         | None \<Rightarrow>
             if \<not> found then
               io_seq (logvf Always ''namespace with DB %s and collection %s does not exist''
                         [AStr (ns_DB dump), AStr (ns_Collection dump)])
               (ret None)
             else Dump_start dump w mgr)))"
    unfolding Let_def
    by (auto intro!: tail_ret tail_prefix tail_seq_prefix q never_ret start
          early_quiet[OF quiet_verifyCollectionExists] early_logvf
          simp: phase_def split: option.splits)
  show ?thesis
    unfolding Dump_def
    apply (rule tail_suffix[OF body])
    apply (rule early_quiet)
    apply (auto intro!: quiet_intros quiet_call simp: phase_def)
    done
qed

text \<open>
  The late part of a run of \<^verbatim>\<open>Dump\<close>, if there is one, is the late part of a run of the
  method from phase III on, for a dump object that agrees with the one planned.
\<close>

lemma Dump_late:
  "late (fst (Dump dump w mgr)) = []
   \<or> (\<exists>d m e. agrees d (planned dump w)
         \<and> late (fst (Dump dump w mgr)) = late (fst (Dump_phaseIII d w m e)))"
proof -
  let ?G = "\<lambda>t. \<exists>d m e. agrees d (planned dump w) \<and> t = late (fst (Dump_phaseIII d w m e))"
  have "tail_of ?G (Dump dump w mgr)"
    by (rule tail_Dump) blast
  then show ?thesis
    unfolding tail_of_def by blast
qed

subsection \<open>A run of Dump that reaches its last log line\<close>

lemma finished_late: "finished (late t) = finished t"
  by (auto simp: finished_def late_def list_ex_iff is_late_def phase_def)

lemma finished_simps:
  "finished [] = False"
  "finished (a @ b) = (finished a \<or> finished b)"
  "finished (ev # t) = (ev = Logvf DebugLow ''finishing dump'' [] \<or> finished t)"
  by (auto simp: finished_def)


lemma prelude_late_filter: "filter is_prelude_event (late t) = filter is_prelude_event t"
  unfolding late_def filter_filter
  by (intro filter_cong refl) (auto simp: is_prelude_event_def is_late_def)

lemma not_finished_within:
  assumes "within lo hi m" and "hi < 5"
  shows "\<not> finished (fst m)"
proof -
  have "never (\<lambda>ev. ev = Logvf DebugLow ''finishing dump'' []) m"
    by (rule never_within[OF assms(1)]) (use assms(2) in \<open>auto simp: phase_def\<close>)
  then show ?thesis by (simp add: never_def finished_def)
qed

lemma no_oplog_calls_within:
  assumes "within lo hi m" and "3 < lo"
  shows "oplog_calls (fst m) = []"
proof -
  have "never (\<lambda>ev. is_call ''dump.getCurrentOplogTime'' ev
                 \<or> is_call ''dump.checkOplogTimestampExists'' ev
                 \<or> is_call ''dump.DumpOplogBetweenTimestamps'' ev) m"
    by (rule never_within[OF assms(1)])
       (use assms(2) in \<open>auto simp: is_call_def phase_def split: event.splits\<close>)
  then show ?thesis
    by (simp add: never_iff oplog_calls_def filter_empty_conv)
qed

lemma no_prelude_within:
  assumes "within lo hi m" and "hi < 4"
  shows "filter is_prelude_event (fst m) = []"
proof -
  have "never is_prelude_event m"
    by (rule never_within[OF assms(1)]) (use assms(2) in \<open>auto simp: is_prelude_event_def\<close>)
  then show ?thesis
    by (simp add: never_iff filter_empty_conv)
qed

lemma DumpPreludeMetadata_agrees:
  assumes "agrees d' d"
  shows "DumpPreludeMetadata d' f = DumpPreludeMetadata d f"
proof -
  from assms have fields: "serverVersion d' = serverVersion d" "ToolOptions d' = ToolOptions d"
    "OutputOptions d' = OutputOptions d"
    by (simp_all add: agrees_def)
  have n: "prelude_filename d' f = prelude_filename d f"
    unfolding prelude_filename_def ns_DB_def fields by (rule refl)
  show ?thesis
    unfolding DumpPreludeMetadata_def n fields by (rule refl)
qed

lemma Dump_phaseIII_with_oplog:
  assumes "Oplog (OutputOptions d)"
  shows "Dump_phaseIII d w m e =
     (case Dump_oplogCapture d w m of
        (tc, Returns (Next d')) \<Rightarrow>
          (Logvf DebugLow ''dump phase III: the oplog'' [] # tc @ fst (Dump_phaseIV d' w None),
           snd (Dump_phaseIV d' w None))
      | (tc, Returns (Return err)) \<Rightarrow>
          (Logvf DebugLow ''dump phase III: the oplog'' [] # tc, Returns err)
      | (tc, Panics s) \<Rightarrow> (Logvf DebugLow ''dump phase III: the oplog'' [] # tc, Panics s))"
  unfolding Dump_phaseIII_def io_next_def using assms
  by (cases "Dump_oplogCapture d w m")
     (auto simp: io_seq_call logvf_def io_bind_pair ret_def split: outcome.splits flow.splits)

lemma phaseIII_finished_oplog:
  assumes o: "Oplog (OutputOptions d)" and f: "finished (fst (Dump_phaseIII d w m e))"
  shows "(\<exists>d'. snd (Dump_oplogCapture d w m) = Returns (Next d'))
       \<and> oplog_calls (fst (Dump_phaseIII d w m e)) = oplog_calls (fst (Dump_oplogCapture d w m))"
proof -
  obtain tc rc where c: "Dump_oplogCapture d w m = (tc, rc)"
    by (cases "Dump_oplogCapture d w m")
  have nf: "\<not> finished tc"
    using not_finished_within[OF within_Dump_oplogCapture, of d w m] c by simp
  have l: "Logvf DebugLow ''dump phase III: the oplog'' [] \<noteq> Logvf DebugLow ''finishing dump'' []"
    by simp
  from f nf l obtain d' where r: "rc = Returns (Next d')"
    unfolding Dump_phaseIII_with_oplog[OF o] c
    by (cases rc) (auto simp: finished_simps split: flow.splits)
  have "oplog_calls (fst (Dump_phaseIV d' w None)) = []"
    by (rule no_oplog_calls_within[OF within_Dump_phaseIV]) simp
  then show ?thesis
    unfolding Dump_phaseIII_with_oplog[OF o] c r
    by (simp add: oplog_calls_simps)
qed

lemma Dump_phaseIV_tree:
  assumes "Archive (OutputOptions d) = ''''" and "Out (OutputOptions d) \<noteq> ''-''"
  shows "fst (Dump_phaseIV d w e) =
           Logvf DebugLow ''dump phase IV: top level metadata json'' []
           # fst (DumpPreludeMetadata d (fs w))
           @ (if snd (DumpPreludeMetadata d (fs w)) = Returns None
              then [Logvf DebugLow ''finishing dump'' []] else [])"
  using Dump_phaseIV_tree_run[OF assms, of w e] by (simp add: trace_def result_def)

lemma phaseIV_finished_prelude:
  assumes a: "Archive (OutputOptions d) = ''''" and b: "Out (OutputOptions d) \<noteq> ''-''"
    and f: "finished (fst (Dump_phaseIV d w e))"
  shows "snd (DumpPreludeMetadata d (fs w)) = Returns None
       \<and> filter is_prelude_event (fst (Dump_phaseIV d w e)) =
           Logvf DebugLow ''dump phase IV: top level metadata json'' []
           # filter is_prelude_event (fst (DumpPreludeMetadata d (fs w)))"
proof -
  have nf: "\<not> finished (fst (DumpPreludeMetadata d (fs w)))"
    by (rule not_finished_within[OF within_DumpPreludeMetadata]) simp
  from f nf have r: "snd (DumpPreludeMetadata d (fs w)) = Returns None"
    unfolding Dump_phaseIV_tree[OF a b]
    by (auto simp: finished_simps split: if_splits)
  show ?thesis
    unfolding Dump_phaseIV_tree[OF a b] r
    by (simp add: is_prelude_event_def phase_def)
qed

lemma phaseIII_finished_prelude:
  assumes a: "Archive (OutputOptions d) = ''''" and b: "Out (OutputOptions d) \<noteq> ''-''"
    and f: "finished (fst (Dump_phaseIII d w m e))"
  shows "snd (DumpPreludeMetadata d (fs w)) = Returns None
       \<and> filter is_prelude_event (fst (Dump_phaseIII d w m e)) =
           Logvf DebugLow ''dump phase IV: top level metadata json'' []
           # filter is_prelude_event (fst (DumpPreludeMetadata d (fs w)))"
proof (cases "Oplog (OutputOptions d)")
  case False
  have run: "Dump_phaseIII d w m e =
               (Logvf DebugLow ''dump phase III: the oplog'' [] # fst (Dump_phaseIV d w e),
                snd (Dump_phaseIV d w e))"
    unfolding Dump_phaseIII_def using False by (simp add: io_seq_call logvf_def)
  from f have f4: "finished (fst (Dump_phaseIV d w e))"
    unfolding run by (simp add: finished_simps)
  from phaseIV_finished_prelude[OF a b f4] show ?thesis
    unfolding run by (simp add: is_prelude_event_def phase_def)
next
  case True
  obtain tc rc where c: "Dump_oplogCapture d w m = (tc, rc)"
    by (cases "Dump_oplogCapture d w m")
  from phaseIII_finished_oplog[OF True f] c obtain d' where r: "rc = Returns (Next d')"
    by auto
  have ag: "agrees d' d"
    using keeps_Dump_oplogCapture[of d w m] c r by (simp add: yields_def)
  then have a': "Archive (OutputOptions d') = ''''" and b': "Out (OutputOptions d') \<noteq> ''-''"
    using a b by (simp_all add: agrees_def)
  have np: "filter is_prelude_event tc = []"
    using no_prelude_within[OF within_Dump_oplogCapture, of d w m] c by simp
  have nf: "\<not> finished tc"
    using not_finished_within[OF within_Dump_oplogCapture, of d w m] c by simp
  from f nf have f4: "finished (fst (Dump_phaseIV d' w None))"
    unfolding Dump_phaseIII_with_oplog[OF True] c r by (simp add: finished_simps)
  from phaseIV_finished_prelude[OF a' b' f4] show ?thesis
    unfolding Dump_phaseIII_with_oplog[OF True] c r DumpPreludeMetadata_agrees[OF ag]
    by (simp add: np is_prelude_event_def phase_def)
qed

lemma Dump_finished_late:
  assumes "finished (fst (Dump dump w mgr))"
  obtains d m e where "agrees d (planned dump w)"
    and "late (fst (Dump dump w mgr)) = late (fst (Dump_phaseIII d w m e))"
    and "finished (fst (Dump_phaseIII d w m e))"
proof -
  from assms have "finished (late (fst (Dump dump w mgr)))" by (simp add: finished_late)
  then have "late (fst (Dump dump w mgr)) \<noteq> []" by (auto simp: finished_simps)
  with Dump_late[of dump w mgr] obtain d m e where d: "agrees d (planned dump w)"
    and l: "late (fst (Dump dump w mgr)) = late (fst (Dump_phaseIII d w m e))"
    by blast
  from assms have "finished (fst (Dump_phaseIII d w m e))"
    using finished_late[of "fst (Dump dump w mgr)"] finished_late[of "fst (Dump_phaseIII d w m e)"] l
    by simp
  with d l show ?thesis by (rule that)
qed


lemma Dump_finished_prelude:
  assumes "Archive (OutputOptions dump) = ''''" and "Out (OutputOptions dump) \<noteq> ''-''"
    and "finished (fst (Dump dump w mgr))"
  shows "snd (DumpPreludeMetadata (planned dump w) (fs w)) = Returns None
       \<and> filter is_prelude_event (fst (Dump dump w mgr)) =
           Logvf DebugLow ''dump phase IV: top level metadata json'' []
           # filter is_prelude_event (fst (DumpPreludeMetadata (planned dump w) (fs w)))"
proof -
  from Dump_finished_late[OF assms(3)] obtain d m e where d: "agrees d (planned dump w)"
    and l: "late (fst (Dump dump w mgr)) = late (fst (Dump_phaseIII d w m e))"
    and f: "finished (fst (Dump_phaseIII d w m e))" .
  from d assms(1,2) have a: "Archive (OutputOptions d) = ''''" and b: "Out (OutputOptions d) \<noteq> ''-''"
    by (simp_all add: agrees_def planned_def split: sum.splits)
  have "filter is_prelude_event (fst (Dump dump w mgr))
          = filter is_prelude_event (fst (Dump_phaseIII d w m e))"
    using prelude_late_filter[of "fst (Dump dump w mgr)"]
      prelude_late_filter[of "fst (Dump_phaseIII d w m e)"] l by simp
  with phaseIII_finished_prelude[OF a b f] show ?thesis
    unfolding DumpPreludeMetadata_agrees[OF d] by simp
qed

subsection \<open>A worker that reports success\<close>




section \<open>Properties: the oplog capture\<close>






section \<open>Properties: the prelude phase of Dump\<close>

lemma prelude_phase_facts:
  "(Archive (OutputOptions dump) \<noteq> '''' \<or> Out (OutputOptions dump) = ''-''
      \<longrightarrow> never is_prelude_event (Dump dump w mgr))
   \<and> (\<forall>pre ev post. trace (Dump dump w mgr) = pre @ ev # post \<and> is_prelude_event ev
         \<longrightarrow> workers_done pre \<and> \<not> list_ex (\<lambda>e. phase e = 2 \<or> phase e = 3) post)
   \<and> (Archive (OutputOptions dump) = '''' \<and> Out (OutputOptions dump) \<noteq> ''-''
      \<longrightarrow> trace (Dump_phaseIV dump w err) =
            Logvf DebugLow ''dump phase IV: top level metadata json'' []
            # trace (DumpPreludeMetadata dump (fs w))
            @ (if result (DumpPreludeMetadata dump (fs w)) = Returns None
               then [Logvf DebugLow ''finishing dump'' []] else []))
   \<and> (os_Create (fs w) (prelude_filename dump (fs w)) = None
       \<and> json_Marshal (fs w)
            (PreludeData_json \<lparr> P_ServerVersion = serverVersion dump,
                                P_ToolVersion = VersionStr (ToolOptions dump) \<rparr>) = Inr bytes
      \<longrightarrow> trace (DumpPreludeMetadata dump (fs w)) =
            [Logvf DebugLow ''dumping prelude metadata to file %#q''
               [AStr (prelude_filename dump (fs w))],
             Call ''os.Create'' [AStr (prelude_filename dump (fs w))],
             CallBytes ''writer.Write'' (prelude_filename dump (fs w)) bytes]
            @ (if Gzip (OutputOptions dump) then [Call ''writer.Close'' []] else [])
            @ [Call ''file.Close'' [AStr (prelude_filename dump (fs w))]])
   \<and> PreludeData_json \<lparr> P_ServerVersion = serverVersion dump,
                         P_ToolVersion = VersionStr (ToolOptions dump) \<rparr>
       = JObject [(''ServerVersion'', JString (serverVersion dump)),
                  (''ToolVersion'', JString (VersionStr (ToolOptions dump)))]"
proof (intro conjI allI impI)
  assume sink: "Archive (OutputOptions dump) \<noteq> '''' \<or> Out (OutputOptions dump) = ''-''"
  have "\<forall>d mgr err. OutputOptions d = OutputOptions dump
               \<longrightarrow> never is_prelude_event (Dump_phaseIII d w mgr err)"
    using sink by (auto intro: never_prelude_phaseIII)
  then show "never is_prelude_event (Dump dump w mgr)"
    by (rule never_Dump[OF prelude_late])
next
  fix pre ev post
  assume a: "trace (Dump dump w mgr) = pre @ ev # post \<and> is_prelude_event ev"
  then have f: "fst (Dump dump w mgr) = pre @ ev # post" and p4: "phase ev = 4"
    by (simp_all add: trace_def is_prelude_event_def)
  then have p: "phase ev = 3 \<or> phase ev = 4" by simp
  show "workers_done pre"
    by (rule phased_split(1)[OF phased_Dump f p])
  show "\<not> list_ex (\<lambda>e. phase e = 2 \<or> phase e = 3) post"
    using phased_split(3)[OF phased_Dump f p] p4 by (fastforce simp: list_ex_iff)
next
  assume "Archive (OutputOptions dump) = '''' \<and> Out (OutputOptions dump) \<noteq> ''-''"
  then show "trace (Dump_phaseIV dump w err) =
            Logvf DebugLow ''dump phase IV: top level metadata json'' []
            # trace (DumpPreludeMetadata dump (fs w))
            @ (if result (DumpPreludeMetadata dump (fs w)) = Returns None
               then [Logvf DebugLow ''finishing dump'' []] else [])"
    by (simp add: Dump_phaseIV_tree_run)
next
  assume "os_Create (fs w) (prelude_filename dump (fs w)) = None
       \<and> json_Marshal (fs w)
            (PreludeData_json \<lparr> P_ServerVersion = serverVersion dump,
                                P_ToolVersion = VersionStr (ToolOptions dump) \<rparr>) = Inr bytes"
  then show "trace (DumpPreludeMetadata dump (fs w)) =
            [Logvf DebugLow ''dumping prelude metadata to file %#q''
               [AStr (prelude_filename dump (fs w))],
             Call ''os.Create'' [AStr (prelude_filename dump (fs w))],
             CallBytes ''writer.Write'' (prelude_filename dump (fs w)) bytes]
            @ (if Gzip (OutputOptions dump) then [Call ''writer.Close'' []] else [])
            @ [Call ''file.Close'' [AStr (prelude_filename dump (fs w))]]"
    by (simp add: DumpPreludeMetadata_written_run)
next
  show "PreludeData_json \<lparr> P_ServerVersion = serverVersion dump,
                         P_ToolVersion = VersionStr (ToolOptions dump) \<rparr>
       = JObject [(''ServerVersion'', JString (serverVersion dump)),
                  (''ToolVersion'', JString (VersionStr (ToolOptions dump)))]"
    by (simp add: PreludeData_json_def)
qed

text \<open>
  Claim C8, as the code has it. (1) With the archive sink or with standard output as
  the sink, no run of \<^verbatim>\<open>Dump\<close> has an action of the prelude phase. (2) In every run of
  \<^verbatim>\<open>Dump\<close>, when an action of the prelude phase happens, every worker that was started
  has reported success, and no action of the worker pool or of the oplog capture happens
  afterwards. (3) With a directory as the sink, the end of \<^verbatim>\<open>Dump\<close> announces phase IV,
  runs \<^verbatim>\<open>DumpPreludeMetadata\<close>, and logs \<^verbatim>\<open>finishing dump\<close> if that succeeded. (4) When the
  prelude file can be created and the prelude data marshalled, \<^verbatim>\<open>DumpPreludeMetadata\<close>
  creates the file, writes the marshalled bytes to it, and closes it. (5) The marshalled
  value is an object with exactly the two string fields \<^verbatim>\<open>ServerVersion\<close> and
  \<^verbatim>\<open>ToolVersion\<close>. (6) With a directory as the sink, a run of \<^verbatim>\<open>Dump\<close> that reaches its
  last log line has run the prelude phase with success: its prelude actions are the
  announcement of phase IV followed by those of \<^verbatim>\<open>DumpPreludeMetadata\<close> on the planned
  dump object, (7) which has the options of the dump and the server version that
  \<^verbatim>\<open>SessionProvider.ServerVersion\<close> gave (the constant for an unknown version when it
  failed). (8) The file is \<^verbatim>\<open>prelude.json\<close>, under the database name if one is given,
  under the output directory (\<^verbatim>\<open>dump\<close> by default), with \<^verbatim>\<open>.gz\<close> appended under gzip.
\<close>

theorem Dump_prelude_for_directory_sink:
  "(Archive (OutputOptions dump) \<noteq> '''' \<or> Out (OutputOptions dump) = ''-''
      \<longrightarrow> never is_prelude_event (Dump dump w mgr))
   \<and> (\<forall>pre ev post. trace (Dump dump w mgr) = pre @ ev # post \<and> is_prelude_event ev
         \<longrightarrow> workers_done pre \<and> \<not> list_ex (\<lambda>e. phase e = 2 \<or> phase e = 3) post)
   \<and> (Archive (OutputOptions dump) = '''' \<and> Out (OutputOptions dump) \<noteq> ''-''
      \<longrightarrow> trace (Dump_phaseIV dump w err) =
            Logvf DebugLow ''dump phase IV: top level metadata json'' []
            # trace (DumpPreludeMetadata dump (fs w))
            @ (if result (DumpPreludeMetadata dump (fs w)) = Returns None
               then [Logvf DebugLow ''finishing dump'' []] else []))
   \<and> (os_Create (fs w) (prelude_filename dump (fs w)) = None
       \<and> json_Marshal (fs w)
            (PreludeData_json \<lparr> P_ServerVersion = serverVersion dump,
                                P_ToolVersion = VersionStr (ToolOptions dump) \<rparr>) = Inr bytes
      \<longrightarrow> trace (DumpPreludeMetadata dump (fs w)) =
            [Logvf DebugLow ''dumping prelude metadata to file %#q''
               [AStr (prelude_filename dump (fs w))],
             Call ''os.Create'' [AStr (prelude_filename dump (fs w))],
             CallBytes ''writer.Write'' (prelude_filename dump (fs w)) bytes]
            @ (if Gzip (OutputOptions dump) then [Call ''writer.Close'' []] else [])
            @ [Call ''file.Close'' [AStr (prelude_filename dump (fs w))]])
   \<and> PreludeData_json \<lparr> P_ServerVersion = serverVersion dump,
                         P_ToolVersion = VersionStr (ToolOptions dump) \<rparr>
       = JObject [(''ServerVersion'', JString (serverVersion dump)),
                  (''ToolVersion'', JString (VersionStr (ToolOptions dump)))]
   \<and> (Archive (OutputOptions dump) = '''' \<and> Out (OutputOptions dump) \<noteq> ''-''
       \<and> finished (trace (Dump dump w mgr))
      \<longrightarrow> result (DumpPreludeMetadata (planned dump w) (fs w)) = Returns None
        \<and> filter is_prelude_event (trace (Dump dump w mgr)) =
            Logvf DebugLow ''dump phase IV: top level metadata json'' []
            # filter is_prelude_event (trace (DumpPreludeMetadata (planned dump w) (fs w))))
   \<and> (ToolOptions (planned dump w) = ToolOptions dump
       \<and> OutputOptions (planned dump w) = OutputOptions dump
       \<and> serverVersion (planned dump w) =
           (case ServerVersion (server w) of
              Inr v \<Rightarrow> v
            | Inl e \<Rightarrow> ServerVersionUnknown (fs w)))
   \<and> prelude_filename dump (fs w) =
       filepath_Join (fs w)
         (if Out (OutputOptions dump) = '''' then ''dump'' else Out (OutputOptions dump))
         (if ns_DB dump \<noteq> '''' then filepath_Join (fs w) (ns_DB dump) ''prelude.json''
          else ''prelude.json'')
       @ (if Gzip (OutputOptions dump) then ''.gz'' else '''')"
proof -
  note facts = prelude_phase_facts [of dump w mgr err bytes]
  have run: "Archive (OutputOptions dump) = '''' \<and> Out (OutputOptions dump) \<noteq> ''-''
       \<and> finished (trace (Dump dump w mgr))
      \<longrightarrow> result (DumpPreludeMetadata (planned dump w) (fs w)) = Returns None
        \<and> filter is_prelude_event (trace (Dump dump w mgr)) =
            Logvf DebugLow ''dump phase IV: top level metadata json'' []
            # filter is_prelude_event (trace (DumpPreludeMetadata (planned dump w) (fs w)))"
    using Dump_finished_prelude[of dump w mgr] by (simp add: trace_def result_def)
  have plan: "ToolOptions (planned dump w) = ToolOptions dump
       \<and> OutputOptions (planned dump w) = OutputOptions dump
       \<and> serverVersion (planned dump w) =
           (case ServerVersion (server w) of
              Inr v \<Rightarrow> v
            | Inl e \<Rightarrow> ServerVersionUnknown (fs w))"
    by (simp add: planned_def split: sum.splits)
  have name: "prelude_filename dump (fs w) =
       filepath_Join (fs w)
         (if Out (OutputOptions dump) = '''' then ''dump'' else Out (OutputOptions dump))
         (if ns_DB dump \<noteq> '''' then filepath_Join (fs w) (ns_DB dump) ''prelude.json''
          else ''prelude.json'')
       @ (if Gzip (OutputOptions dump) then ''.gz'' else '''')"
    by (simp add: prelude_filename_def Let_def)
  show ?thesis
    apply (intro conjI)
             apply (rule facts[THEN conjunct1])
            apply (rule facts[THEN conjunct2, THEN conjunct1])
           apply (rule facts[THEN conjunct2, THEN conjunct2, THEN conjunct1])
          apply (rule facts[THEN conjunct2, THEN conjunct2, THEN conjunct2, THEN conjunct1])
         apply (rule facts[THEN conjunct2, THEN conjunct2, THEN conjunct2, THEN conjunct2])
        apply (rule run)
       apply (rule plan[THEN conjunct1])
      apply (rule plan[THEN conjunct2, THEN conjunct1])
     apply (rule plan[THEN conjunct2, THEN conjunct2])
    apply (rule name)
    done
qed


text \<open>
  The claim as the specification words it has the prelude written when the sink is
  standard output. This dump of one collection to standard output passes validation,
  runs to its last log line and returns nil, and has no action of the prelude phase.
\<close>

theorem Dump_stdout_without_prelude_counterexample:
  "ValidateOptions (with_out ''-'' (with_ns ''db'' ''c'' plain_dump)) = None
   \<and> result (Dump (with_out ''-'' (with_ns ''db'' ''c'' plain_dump)) ok_world empty_manager)
       = Returns None
   \<and> list_ex (\<lambda>ev. ev = Logvf DebugLow ''finishing dump'' [])
       (trace (Dump (with_out ''-'' (with_ns ''db'' ''c'' plain_dump)) ok_world empty_manager))
   \<and> \<not> list_ex is_prelude_event
         (trace (Dump (with_out ''-'' (with_ns ''db'' ''c'' plain_dump)) ok_world empty_manager))"
  by code_simp

theorem Dump_prelude_for_directory_sink_witness:
  "never is_prelude_event
     (Dump (with_out ''-'' (with_ns ''db'' ''c'' plain_dump)) ok_world empty_manager)
   \<and> never is_prelude_event (Dump (with_archive ''dump.archive'' plain_dump) ok_world empty_manager)
   \<and> (\<exists>pre post. trace (Dump plain_dump ok_world empty_manager)
                    = pre @ CallBytes ''writer.Write'' ''dump/prelude.json'' [123, 125] # post
                 \<and> length (filter (is_call ''go'') pre) = 2 \<and> workers_done pre
                 \<and> \<not> list_ex (\<lambda>e. phase e = 2 \<or> phase e = 3) post)
   \<and> trace (Dump_phaseIV (plain_dump\<lparr> serverVersion := ''7.0.0'' \<rparr>) ok_world None)
       = [Logvf DebugLow ''dump phase IV: top level metadata json'' [],
          Logvf DebugLow ''dumping prelude metadata to file %#q'' [AStr ''dump/prelude.json''],
          Call ''os.Create'' [AStr ''dump/prelude.json''],
          CallBytes ''writer.Write'' ''dump/prelude.json'' [123, 125],
          Call ''file.Close'' [AStr ''dump/prelude.json''],
          Logvf DebugLow ''finishing dump'' []]
   \<and> trace (DumpPreludeMetadata (with_gzip (plain_dump\<lparr> serverVersion := ''7.0.0'' \<rparr>)) ok_fs)
       = [Logvf DebugLow ''dumping prelude metadata to file %#q'' [AStr ''dump/prelude.json.gz''],
          Call ''os.Create'' [AStr ''dump/prelude.json.gz''],
          CallBytes ''writer.Write'' ''dump/prelude.json.gz'' [123, 125],
          Call ''writer.Close'' [],
          Call ''file.Close'' [AStr ''dump/prelude.json.gz'']]
   \<and> filter is_prelude_event (trace (Dump plain_dump ok_world empty_manager))
       = [Logvf DebugLow ''dump phase IV: top level metadata json'' [],
          Logvf DebugLow ''dumping prelude metadata to file %#q'' [AStr ''dump/prelude.json''],
          CallBytes ''writer.Write'' ''dump/prelude.json'' [123, 125],
          Call ''file.Close'' [AStr ''dump/prelude.json'']]"
proof -
  let ?s = "with_out ''-'' (with_ns ''db'' ''c'' plain_dump)"
  let ?a = "with_archive ''dump.archive'' plain_dump"
  let ?d = "plain_dump\<lparr> serverVersion := ''7.0.0'' \<rparr>"
  let ?g = "with_gzip ?d"
  let ?pre = "[Logvf DebugHigh ''starting Dump()'' [],
     Call ''SessionProvider.GetSession'' [], Call ''session.Ping'' [],
     Call ''dump.CreateAllIntents'' [],
     Logvf DebugHigh ''dump phase I: metadata, indexes, users, roles, version'' [],
     Call ''SessionProvider.ServerVersion'' [],
     Logvf DebugHigh ''dump phase II: regular collections'' [],
     Call ''manager.Finalize'' [APolicy LongestTaskFirst],
     Logvf Info ''dumping up to %v collections in parallel'' [AInt 2],
     Call ''go'' [AInt 0], Call ''go'' [AInt 1], Call ''<-resultChan'' [],
     Call ''<-resultChan'' [],
     Logvf DebugLow ''dump phase III: the oplog'' [],
     Logvf DebugLow ''dump phase IV: top level metadata json'' [],
     Logvf DebugLow ''dumping prelude metadata to file %#q'' [AStr ''dump/prelude.json''],
     Call ''os.Create'' [AStr ''dump/prelude.json'']]"
  let ?post = "[Call ''file.Close'' [AStr ''dump/prelude.json''],
     Logvf DebugLow ''finishing dump'' [], Call ''SessionProvider.Close'' []]"
  have s: "Archive (OutputOptions ?s) \<noteq> '''' \<or> Out (OutputOptions ?s) = ''-''"
    by code_simp
  have a: "Archive (OutputOptions ?a) \<noteq> '''' \<or> Out (OutputOptions ?a) = ''-''"
    by code_simp
  from Dump_prelude_for_directory_sink [of ?s ok_world empty_manager, THEN conjunct1, THEN mp, OF s]
  have c1: "never is_prelude_event (Dump ?s ok_world empty_manager)" .
  from Dump_prelude_for_directory_sink [of ?a ok_world empty_manager, THEN conjunct1, THEN mp, OF a]
  have c2: "never is_prelude_event (Dump ?a ok_world empty_manager)" .
  have t: "trace (Dump plain_dump ok_world empty_manager)
             = ?pre @ CallBytes ''writer.Write'' ''dump/prelude.json'' [123, 125] # ?post
           \<and> is_prelude_event (CallBytes ''writer.Write'' ''dump/prelude.json'' [123, 125])"
    by code_simp
  have two: "length (filter (is_call ''go'') ?pre) = 2"
    by code_simp
  from Dump_prelude_for_directory_sink
         [of plain_dump ok_world empty_manager, THEN conjunct2, THEN conjunct1, rule_format, OF t]
  have order: "workers_done ?pre \<and> \<not> list_ex (\<lambda>e. phase e = 2 \<or> phase e = 3) ?post" .
  have c3: "\<exists>pre post. trace (Dump plain_dump ok_world empty_manager)
                    = pre @ CallBytes ''writer.Write'' ''dump/prelude.json'' [123, 125] # post
                 \<and> length (filter (is_call ''go'') pre) = 2 \<and> workers_done pre
                 \<and> \<not> list_ex (\<lambda>e. phase e = 2 \<or> phase e = 3) post"
    using t two order by blast
  have sink: "Archive (OutputOptions ?d) = '''' \<and> Out (OutputOptions ?d) \<noteq> ''-''"
    by code_simp
  have files: "os_Create (fs ok_world) (prelude_filename ?d (fs ok_world)) = None
       \<and> json_Marshal (fs ok_world)
            (PreludeData_json \<lparr> P_ServerVersion = serverVersion ?d,
                                P_ToolVersion = VersionStr (ToolOptions ?d) \<rparr>) = Inr [123, 125]"
    by (simp add: ok_world_def ok_fs_def)
  have gfiles: "os_Create (fs ok_world) (prelude_filename ?g (fs ok_world)) = None
       \<and> json_Marshal (fs ok_world)
            (PreludeData_json \<lparr> P_ServerVersion = serverVersion ?g,
                                P_ToolVersion = VersionStr (ToolOptions ?g) \<rparr>) = Inr [123, 125]"
    by (simp add: ok_world_def ok_fs_def)
  have names: "prelude_filename ?d (fs ok_world) = ''dump/prelude.json''"
              "prelude_filename ?g (fs ok_world) = ''dump/prelude.json.gz''"
              "Gzip (OutputOptions ?d) = False" "Gzip (OutputOptions ?g) = True"
    by code_simp+
  have okfs: "fs ok_world = ok_fs"
    by (simp add: ok_world_def)
  have gname: "prelude_filename ?g ok_fs = ''dump/prelude.json.gz''"
    by code_simp
  have res: "result (DumpPreludeMetadata ?d (fs ok_world)) = Returns None"
    by code_simp
  from Dump_prelude_for_directory_sink
         [where w = ok_world and bytes = "[123, 125]" and dump = ?d,
          THEN conjunct2, THEN conjunct2, THEN conjunct2, THEN conjunct1, THEN mp, OF files]
  have w: "trace (DumpPreludeMetadata ?d (fs ok_world))
       = [Logvf DebugLow ''dumping prelude metadata to file %#q'' [AStr ''dump/prelude.json''],
          Call ''os.Create'' [AStr ''dump/prelude.json''],
          CallBytes ''writer.Write'' ''dump/prelude.json'' [123, 125],
          Call ''file.Close'' [AStr ''dump/prelude.json'']]"
    unfolding names(1,3) by simp
  from Dump_prelude_for_directory_sink
         [where w = ok_world and bytes = "[123, 125]" and dump = ?d and err = None,
          THEN conjunct2, THEN conjunct2, THEN conjunct1, THEN mp, OF sink]
  have c4: "trace (Dump_phaseIV ?d ok_world None)
       = [Logvf DebugLow ''dump phase IV: top level metadata json'' [],
          Logvf DebugLow ''dumping prelude metadata to file %#q'' [AStr ''dump/prelude.json''],
          Call ''os.Create'' [AStr ''dump/prelude.json''],
          CallBytes ''writer.Write'' ''dump/prelude.json'' [123, 125],
          Call ''file.Close'' [AStr ''dump/prelude.json''],
          Logvf DebugLow ''finishing dump'' []]"
    unfolding w res by simp
  from Dump_prelude_for_directory_sink
         [where w = ok_world and bytes = "[123, 125]" and dump = ?g,
          THEN conjunct2, THEN conjunct2, THEN conjunct2, THEN conjunct1, THEN mp, OF gfiles]
  have c5: "trace (DumpPreludeMetadata ?g ok_fs)
       = [Logvf DebugLow ''dumping prelude metadata to file %#q'' [AStr ''dump/prelude.json.gz''],
          Call ''os.Create'' [AStr ''dump/prelude.json.gz''],
          CallBytes ''writer.Write'' ''dump/prelude.json.gz'' [123, 125],
          Call ''writer.Close'' [],
          Call ''file.Close'' [AStr ''dump/prelude.json.gz'']]"
    by (simp add: okfs gname names(4))
  have fin: "Archive (OutputOptions plain_dump) = '''' \<and> Out (OutputOptions plain_dump) \<noteq> ''-''
       \<and> finished (trace (Dump plain_dump ok_world empty_manager))"
    by code_simp
  have pl: "filter is_prelude_event
              (trace (DumpPreludeMetadata (planned plain_dump ok_world) (fs ok_world)))
       = [Logvf DebugLow ''dumping prelude metadata to file %#q'' [AStr ''dump/prelude.json''],
          CallBytes ''writer.Write'' ''dump/prelude.json'' [123, 125],
          Call ''file.Close'' [AStr ''dump/prelude.json'']]"
    by code_simp
  from Dump_prelude_for_directory_sink
         [of plain_dump ok_world empty_manager,
          THEN conjunct2, THEN conjunct2, THEN conjunct2, THEN conjunct2, THEN conjunct2,
          THEN conjunct1, THEN mp, OF fin]
  have c6: "filter is_prelude_event (trace (Dump plain_dump ok_world empty_manager))
       = [Logvf DebugLow ''dump phase IV: top level metadata json'' [],
          Logvf DebugLow ''dumping prelude metadata to file %#q'' [AStr ''dump/prelude.json''],
          CallBytes ''writer.Write'' ''dump/prelude.json'' [123, 125],
          Call ''file.Close'' [AStr ''dump/prelude.json'']]"
    unfolding pl by simp
  from c1 c2 c3 c4 c5 c6 show ?thesis by blast
qed



end
